(* ===== verification/Prelude.thy ===== *)
theory Prelude
  imports Main "HOL-Library.State_Monad" "HOL-Library.Sublist" "HOL-Library.AList"
    "HOL-Library.Char_ord" "HOL-Library.List_Lexorder" "HOL-Library.Multiset"
begin

text \<open>
  Shared library of the development: the collections of rules that the component proofs use,
  generic facts on lists and association lists, and a small calculus for effectful programs.

  An effectful Go function is a program of the state monad of \<^verbatim>\<open>HOL-Library.State_Monad\<close>.
  \<open>wp\<close> reads off what such a program establishes; \<open>program_keeps\<close> says that a program preserves a
  property of the state. The rules of the two are collected in \<open>wp_simps\<close> and \<open>keeps_intros\<close>.
\<close>

named_theorems wp_simps \<open>weakest-precondition equations of programs\<close>
named_theorems fuel_intros \<open>rules for programs whose result does not change with more fuel\<close>
named_theorems keeps_intros \<open>introduction rules for state properties a program preserves\<close>

section \<open>Weakest preconditions for the state monad\<close>

abbreviation ret :: "'a \<Rightarrow> ('s, 'a) state" where
  "ret \<equiv> State_Monad.return"

definition wp :: "('s, 'a) state \<Rightarrow> ('a \<Rightarrow> 's \<Rightarrow> bool) \<Rightarrow> 's \<Rightarrow> bool" where
  "wp m Q s = (case run_state m s of (x, s') \<Rightarrow> Q x s')"

lemma wp_return [wp_simps]: "wp (ret x) Q s = Q x s"
  by (simp add: wp_def)

lemma wp_bind [wp_simps]: "wp (State_Monad.bind m k) Q s = wp m (\<lambda>x. wp (k x) Q) s"
  by (simp add: wp_def split: prod.splits)

lemma wp_get [wp_simps]: "wp State_Monad.get Q s = Q s s"
  by (simp add: wp_def)

lemma wp_set [wp_simps]: "wp (State_Monad.set t) Q s = Q () t"
  by (simp add: wp_def)

lemma wp_mono: "wp m Q s \<Longrightarrow> (\<And>x t. Q x t \<Longrightarrow> R x t) \<Longrightarrow> wp m R s"
  by (auto simp: wp_def split: prod.splits)

lemma wp_conj: "wp m Q s \<Longrightarrow> wp m R s \<Longrightarrow> wp m (\<lambda>x t. Q x t \<and> R x t) s"
  by (auto simp: wp_def split: prod.splits)

lemma wp_run: "wp m Q s \<Longrightarrow> run_state m s = (x, t) \<Longrightarrow> Q x t"
  by (simp add: wp_def)

lemma wpI: "(\<And>x t. run_state m s = (x, t) \<Longrightarrow> Q x t) \<Longrightarrow> wp m Q s"
  by (simp add: wp_def split: prod.splits)

definition program_keeps :: "('s \<Rightarrow> bool) \<Rightarrow> ('s, 'a) state \<Rightarrow> bool" where
  "program_keeps I m \<longleftrightarrow> (\<forall>s. I s \<longrightarrow> I (snd (run_state m s)))"

lemma keeps_return [keeps_intros]: "program_keeps I (ret x)"
  by (simp add: program_keeps_def)

lemma keeps_bind [keeps_intros]:
  "program_keeps I m \<Longrightarrow> (\<And>x. program_keeps I (k x)) \<Longrightarrow> program_keeps I (State_Monad.bind m k)"
  by (auto simp: program_keeps_def split: prod.splits)

lemma keeps_if [keeps_intros]:
  "(b \<Longrightarrow> program_keeps I m) \<Longrightarrow> (\<not> b \<Longrightarrow> program_keeps I n) \<Longrightarrow> program_keeps I (if b then m else n)"
  by simp

lemma keeps_case_sum [keeps_intros]:
  "(\<And>e. r = Inl e \<Longrightarrow> program_keeps I (f e)) \<Longrightarrow> (\<And>x. r = Inr x \<Longrightarrow> program_keeps I (g x)) \<Longrightarrow>
   program_keeps I (case r of Inl e \<Rightarrow> f e | Inr x \<Rightarrow> g x)"
  by (simp split: sum.splits)

lemma keeps_case_option [keeps_intros]:
  "(r = None \<Longrightarrow> program_keeps I f) \<Longrightarrow> (\<And>x. r = Some x \<Longrightarrow> program_keeps I (g x)) \<Longrightarrow>
   program_keeps I (case r of None \<Rightarrow> f | Some x \<Rightarrow> g x)"
  by (simp split: option.splits)

lemma keeps_case_prod [keeps_intros]:
  "(\<And>x y. p = (x, y) \<Longrightarrow> program_keeps I (f x y)) \<Longrightarrow> program_keeps I (case p of (x, y) \<Rightarrow> f x y)"
  by (simp split: prod.splits)

lemma keeps_run: "program_keeps I m \<Longrightarrow> I s \<Longrightarrow> run_state m s = (x, t) \<Longrightarrow> I t"
  unfolding program_keeps_def by (metis snd_conv)

section \<open>Fuel\<close>

text \<open>
  A loop with fuel returns \<open>None\<close> when it runs out. \<open>fuel_le m m'\<close>: wherever \<open>m\<close> returns, \<open>m'\<close> does
  the same.
\<close>

definition fuel_le :: "('s, 'a option) state \<Rightarrow> ('s, 'a option) state \<Rightarrow> bool" where
  "fuel_le m m' \<longleftrightarrow> (\<forall>s r t. run_state m s = (Some r, t) \<longrightarrow> run_state m' s = (Some r, t))"

lemma fuel_refl: "fuel_le m m"
  by (simp add: fuel_le_def)

lemma fuel_return_None [fuel_intros]: "fuel_le (ret None) m"
  by (simp add: fuel_le_def)

lemma fuel_return [fuel_intros]: "fuel_le (ret x) (ret x)"
  by (rule fuel_refl)

lemma fuel_bind [fuel_intros]:
  "(\<And>x. fuel_le (k x) (k' x)) \<Longrightarrow> fuel_le (State_Monad.bind m k) (State_Monad.bind m k')"
  by (simp add: fuel_le_def split: prod.splits)

lemma fuel_bind_fuel:
  assumes "fuel_le m m'" "\<And>x. fuel_le (k (Some x)) (k' (Some x))" "k None = ret None"
  shows "fuel_le (State_Monad.bind m k) (State_Monad.bind m' k')"
  unfolding fuel_le_def
proof (intro allI impI)
  fix s r t
  assume run: "run_state (State_Monad.bind m k) s = (Some r, t)"
  then obtain x u where "run_state m s = (Some x, u)" "run_state (k (Some x)) u = (Some r, t)"
    using assms(3) by (cases "fst (run_state m s)") (auto split: prod.splits)
  with assms(1,2) show "run_state (State_Monad.bind m' k') s = (Some r, t)"
    by (simp add: fuel_le_def)
qed

lemma fuel_if [fuel_intros]:
  "(b \<Longrightarrow> fuel_le m m') \<Longrightarrow> (\<not> b \<Longrightarrow> fuel_le n n') \<Longrightarrow> fuel_le (if b then m else n) (if b then m' else n')"
  by simp

lemma fuel_case_option [fuel_intros]:
  "fuel_le f f' \<Longrightarrow> (\<And>x. fuel_le (g x) (g' x)) \<Longrightarrow>
   fuel_le (case r of None \<Rightarrow> f | Some x \<Rightarrow> g x) (case r of None \<Rightarrow> f' | Some x \<Rightarrow> g' x)"
  by (simp split: option.splits)

lemma fuel_case_sum [fuel_intros]:
  "(\<And>x. fuel_le (f x) (f' x)) \<Longrightarrow> (\<And>x. fuel_le (g x) (g' x)) \<Longrightarrow>
   fuel_le (case r of Inl x \<Rightarrow> f x | Inr x \<Rightarrow> g x) (case r of Inl x \<Rightarrow> f' x | Inr x \<Rightarrow> g' x)"
  by (simp split: sum.splits)

lemma fuel_case_prod [fuel_intros]:
  "(\<And>x y. fuel_le (f x y) (f' x y)) \<Longrightarrow>
   fuel_le (case p of (x, y) \<Rightarrow> f x y) (case p of (x, y) \<Rightarrow> f' x y)"
  by (simp split: prod.splits)

lemma fuel_leD: "fuel_le m m' \<Longrightarrow> run_state m s = (Some r, t) \<Longrightarrow> run_state m' s = (Some r, t)"
  by (simp add: fuel_le_def)

section \<open>Lists and association lists\<close>

text \<open>A list as long as a set of distinct elements it contains has exactly these elements.\<close>

lemma set_eq_of_distinct_subset:
  assumes "distinct ys" "set ys \<subseteq> set xs" "length xs = length ys"
  shows "set xs = set ys"
proof -
  have "card (set ys) = length xs"
    using assms(1,3) by (simp add: distinct_card)
  moreover have "card (set xs) \<le> length xs"
    by (rule card_length)
  ultimately have "card (set xs) \<le> card (set ys)"
    by simp
  with assms(2) show ?thesis
    by (metis List.finite_set card_seteq)
qed

lemma map_of_eq_imp_set_eq:
  assumes "distinct (map fst xs)" "distinct (map fst ys)" "map_of xs = map_of ys"
  shows "set xs = set ys"
  using assms by (metis graph_map_of_if_distinct_dom)

lemma list_all2_ex_left: "list_all2 P xs ys \<Longrightarrow> y \<in> set ys \<Longrightarrow> \<exists>x. P x y"
  by (induction rule: list_all2_induct) auto

lemma takeWhile_append_sep:
  "c \<notin> set xs \<Longrightarrow> takeWhile (\<lambda>x. x \<noteq> c) (xs @ c # ys) = xs"
  by (induction xs) auto

lemma dropWhile_append_sep:
  "c \<notin> set xs \<Longrightarrow> dropWhile (\<lambda>x. x \<noteq> c) (xs @ c # ys) = c # ys"
  by (induction xs) auto

lemma append_sep_inject:
  assumes "xs @ c # ys = xs' @ c # ys'" "c \<notin> set xs" "c \<notin> set xs'"
  shows "xs = xs' \<and> ys = ys'"
proof
  show "xs = xs'"
    using assms by (metis takeWhile_append_sep)
  show "ys = ys'"
    using assms by (metis dropWhile_append_sep list.inject)
qed

lemma append_sep_unique:
  assumes "xs @ c # ys = xs' @ c # ys'" "c \<notin> set xs" "c \<notin> set ys"
  shows "xs = xs' \<and> ys = ys'"
proof -
  have "c \<notin> set xs'"
  proof
    assume "c \<in> set xs'"
    then obtain a b where ab: "xs' = a @ c # b" "c \<notin> set a" by (metis split_list_first)
    with assms(1) have "xs @ c # ys = a @ c # (b @ c # ys')" by simp
    from append_sep_inject [OF this assms(2) ab(2)] have "ys = b @ c # ys'" by simp
    with assms(3) show False by simp
  qed
  with append_sep_inject [OF assms(1,2)] show ?thesis by blast
qed

section \<open>Order in a trace\<close>

text \<open>\<open>guarded Q P xs\<close>: every element that satisfies \<open>P\<close> has an earlier one that satisfies \<open>Q\<close>.\<close>

fun guarded :: "('a \<Rightarrow> bool) \<Rightarrow> ('a \<Rightarrow> bool) \<Rightarrow> 'a list \<Rightarrow> bool" where
  "guarded Q P [] \<longleftrightarrow> True"
| "guarded Q P (x # xs) \<longleftrightarrow> \<not> P x \<and> (Q x \<or> guarded Q P xs)"

lemma guarded_iff: "guarded Q P xs \<longleftrightarrow> (\<forall>i < length xs. P (xs ! i) \<longrightarrow> (\<exists>j < i. Q (xs ! j)))"
proof (induction xs)
  case (Cons x xs)
  have "(\<forall>i < length (x # xs). P ((x # xs) ! i) \<longrightarrow> (\<exists>j < i. Q ((x # xs) ! j))) \<longleftrightarrow>
      \<not> P x \<and> (\<forall>i < length xs. P (xs ! i) \<longrightarrow> Q x \<or> (\<exists>j < i. Q (xs ! j)))"
    by (simp add: All_less_Suc2 Ex_less_Suc2)
  with Cons show ?case by auto
qed simp

lemma guarded_append: "guarded Q P (xs @ ys) \<longleftrightarrow> guarded Q P xs \<and> (list_ex Q xs \<or> guarded Q P ys)"
  by (induction xs) auto

lemma guarded_none: "list_all (\<lambda>x. \<not> P x) xs \<Longrightarrow> guarded Q P xs"
  by (induction xs) auto

end
