(* ===== verification/GoLib.thy ===== *)
theory GoLib
  imports Prelude
begin

text \<open>
  What the operator uses of the Go standard library on plain values. A Go string is its list of
  bytes, so a \<open>char\<close> stands for a byte. Modelled here: \<open>strings.TrimSpace\<close> (with the UTF-8
  encodings of the Unicode white space characters), \<open>strings.TrimRight\<close>, \<open>strings.Contains\<close>,
  \<open>strings.Split\<close>, \<open>sort.Strings\<close>, decimal formatting of integers, \<open>maps.Equal\<close>, and the
  byte-level encoding of strings into SHA-256 inputs.
\<close>

section \<open>strings.TrimSpace\<close>

text \<open>
  The byte sequences of the white space runes of \<open>unicode.IsSpace\<close>: the ASCII ones, then U+0085,
  U+00A0, U+1680, U+2000 to U+200A, U+2028, U+2029, U+202F, U+205F and U+3000 in UTF-8. No
  sequence is a proper suffix or prefix of another, so decoding a rune at either end of a string
  and testing it is the same as matching one of the sequences there.
\<close>

definition spaceRunes :: "string list" where
  "spaceRunes =
     map (\<lambda>n. [char_of (n::nat)]) [9, 10, 11, 12, 13, 32] @
     map (map (char_of :: nat \<Rightarrow> char))
       ([[0xC2, 0x85], [0xC2, 0xA0], [0xE1, 0x9A, 0x80]] @
        map (\<lambda>n. [0xE2, 0x80, n])
          [0x80, 0x81, 0x82, 0x83, 0x84, 0x85, 0x86, 0x87, 0x88, 0x89, 0x8A, 0xA8, 0xA9, 0xAF] @
        [[0xE2, 0x81, 0x9F], [0xE3, 0x80, 0x80]])"

function stripFront :: "string list \<Rightarrow> string \<Rightarrow> string" where
  "stripFront es s =
     (case find (\<lambda>e. e \<noteq> [] \<and> prefix e s) es of
        None \<Rightarrow> s
      | Some e \<Rightarrow> stripFront es (drop (length e) s))"
  by pat_completeness auto
termination
  by (relation "measure (\<lambda>(es, s). length s)") (auto simp: find_Some_iff prefix_def)

declare stripFront.simps [simp del]

definition TrimSpace :: "string \<Rightarrow> string" where
  "TrimSpace s = rev (stripFront (map rev spaceRunes) (rev (stripFront spaceRunes s)))"

lemma stripFront_suffix: "\<exists>p. s = p @ stripFront es s"
proof (induction es s rule: stripFront.induct)
  case (1 es s)
  show ?case
  proof (cases "find (\<lambda>e. e \<noteq> [] \<and> prefix e s) es")
    case None
    then show ?thesis by (subst stripFront.simps) simp
  next
    case (Some e)
    with 1 obtain p where "drop (length e) s = p @ stripFront es (drop (length e) s)" by blast
    then have "s = (take (length e) s @ p) @ stripFront es (drop (length e) s)"
      by (metis append.assoc append_take_drop_id)
    moreover have "stripFront es s = stripFront es (drop (length e) s)"
      using Some by (subst stripFront.simps) simp
    ultimately show ?thesis by metis
  qed
qed

lemma stripFront_stop: "e \<in> set es \<Longrightarrow> e \<noteq> [] \<Longrightarrow> \<not> prefix e (stripFront es s)"
proof (induction es s rule: stripFront.induct)
  case (1 es s)
  then show ?case
    by (subst stripFront.simps) (auto split: option.splits simp: find_None_iff)
qed

lemma stripFront_id: "(\<forall>e \<in> set es. e \<noteq> [] \<longrightarrow> \<not> prefix e s) \<Longrightarrow> stripFront es s = s"
  by (subst stripFront.simps) (auto split: option.splits simp: find_Some_iff)

lemma TrimSpace_prefix_of_stripped: "prefix (TrimSpace s) (stripFront spaceRunes s)"
proof -
  obtain p where "rev (stripFront spaceRunes s) = p @ stripFront (map rev spaceRunes) (rev (stripFront spaceRunes s))"
    using stripFront_suffix by blast
  then have "stripFront spaceRunes s = TrimSpace s @ rev p"
    unfolding TrimSpace_def by (metis rev_append rev_rev_ident)
  then show ?thesis by (metis prefixI)
qed

text \<open>A trimmed string has no white space rune at either end, so trimming is idempotent.\<close>

lemma TrimSpace_front: "e \<in> set spaceRunes \<Longrightarrow> e \<noteq> [] \<Longrightarrow> \<not> prefix e (TrimSpace s)"
  using TrimSpace_prefix_of_stripped stripFront_stop by (metis prefix_order.trans)

lemma TrimSpace_back: "e \<in> set spaceRunes \<Longrightarrow> e \<noteq> [] \<Longrightarrow> \<not> prefix (rev e) (rev (TrimSpace s))"
  unfolding TrimSpace_def by (simp add: stripFront_stop)

lemma TrimSpace_idem [simp]: "TrimSpace (TrimSpace s) = TrimSpace s"
proof -
  have "stripFront spaceRunes (TrimSpace s) = TrimSpace s"
    by (rule stripFront_id) (use TrimSpace_front in blast)
  moreover have "stripFront (map rev spaceRunes) (rev (TrimSpace s)) = rev (TrimSpace s)"
    by (rule stripFront_id) (use TrimSpace_back in auto)
  ultimately show ?thesis
    unfolding TrimSpace_def [of "TrimSpace s"] by simp
qed

lemma TrimSpace_set: "set (TrimSpace s) \<subseteq> set s"
proof -
  obtain p where "s = p @ stripFront spaceRunes s" using stripFront_suffix by blast
  then have "set (stripFront spaceRunes s) \<subseteq> set s" by (metis Un_upper2 set_append)
  with TrimSpace_prefix_of_stripped show ?thesis by (meson order_trans set_mono_prefix)
qed

section \<open>Other string functions\<close>

definition TrimRightByte :: "string \<Rightarrow> char \<Rightarrow> string" where
  "TrimRightByte s c = rev (dropWhile (\<lambda>x. x = c) (rev s))"

fun Contains :: "string \<Rightarrow> string \<Rightarrow> bool" where
  "Contains [] sub \<longleftrightarrow> sub = []"
| "Contains (c # cs) sub \<longleftrightarrow> prefix sub (c # cs) \<or> Contains cs sub"

lemma Contains_iff: "Contains s sub \<longleftrightarrow> (\<exists>p q. s = p @ sub @ q)"
proof (induction s)
  case (Cons c cs)
  show ?case
  proof
    assume "Contains (c # cs) sub"
    then show "\<exists>p q. c # cs = p @ sub @ q"
      using Cons.IH by (auto simp: prefix_def) (metis append_Cons append_Nil)+
  next
    assume "\<exists>p q. c # cs = p @ sub @ q"
    then obtain p q where pq: "c # cs = p @ sub @ q" by blast
    then have "prefix sub (c # cs) \<or> (\<exists>p' q'. cs = p' @ sub @ q')"
      by (cases p) (auto simp: prefix_def)
    with Cons.IH show "Contains (c # cs) sub" by auto
  qed
qed auto

fun Split :: "char \<Rightarrow> string \<Rightarrow> string list" where
  "Split c [] = [[]]"
| "Split c (x # xs) =
     (if x = c then [] # Split c xs
      else (case Split c xs of [] \<Rightarrow> [[x]] | p # ps \<Rightarrow> (x # p) # ps))"

lemma Split_nonempty: "Split c s \<noteq> []"
  by (induction c s rule: Split.induct) (auto split: list.splits)

lemma Split_no_sep: "c \<notin> set s \<Longrightarrow> Split c s = [s]"
  by (induction s) auto

lemma Split_last_no_sep: "c \<notin> set (last (Split c s))"
proof (induction c s rule: Split.induct)
  case (2 c x xs)
  then show ?case
    using Split_nonempty [of c xs] by (auto split: list.splits if_splits)
qed simp

lemma Split_sep_tl: "c \<in> set s \<Longrightarrow> tl (Split c s) \<noteq> []"
proof (induction c s rule: Split.induct)
  case (2 c x xs)
  then show ?case
    using Split_nonempty [of c xs] by (auto split: list.splits)
qed simp

lemma last_Split_Cons: "c \<in> set xs \<Longrightarrow> last (Split c (x # xs)) = last (Split c xs)"
  using Split_nonempty [of c xs] Split_sep_tl [of c xs] by (auto split: list.splits)

lemma Split_append_sep: "last (Split c (p @ c # s)) = last (Split c s)"
proof (induction p)
  case Nil
  then show ?case using Split_nonempty [of c s] by simp
next
  case (Cons x p)
  then show ?case using last_Split_Cons [of c "p @ c # s" x] by simp
qed

section \<open>Decimal formatting\<close>

fun decimal :: "nat \<Rightarrow> string" where
  "decimal n = (if n < 10 then [char_of (48 + n)] else decimal (n div 10) @ [char_of (48 + n mod 10)])"

declare decimal.simps [simp del]

definition SprintInt :: "int \<Rightarrow> string" where
  "SprintInt i = (if i < 0 then CHR ''-'' # decimal (nat (- i)) else decimal (nat i))"

section \<open>Maps with string keys\<close>

text \<open>
  A Go map is an association list with distinct keys; the order of the list stands for the
  unspecified iteration order, so a result that matters must not depend on it.
\<close>

type_synonym ('k, 'v) gomap = "('k \<times> 'v) list"

definition gomap_wf :: "('k, 'v) gomap \<Rightarrow> bool" where
  "gomap_wf m \<longleftrightarrow> distinct (map fst m)"

definition mapsEqual :: "('k, 'v) gomap \<Rightarrow> ('k, 'v) gomap \<Rightarrow> bool" where
  "mapsEqual m1 m2 \<longleftrightarrow> length m1 = length m2 \<and> list_all (\<lambda>(k, v). map_of m2 k = Some v) m1"

definition mapLookup :: "('k, string) gomap \<Rightarrow> 'k \<Rightarrow> string" where
  "mapLookup m k = (case map_of m k of None \<Rightarrow> [] | Some v \<Rightarrow> v)"

lemma gomap_wf_update [simp]: "gomap_wf m \<Longrightarrow> gomap_wf (AList.update k v m)"
  by (simp add: gomap_wf_def distinct_update)

lemma mapsEqual_iff:
  assumes "gomap_wf m1" "gomap_wf m2"
  shows "mapsEqual m1 m2 \<longleftrightarrow> map_of m1 = map_of m2"
proof
  assume eq: "mapsEqual m1 m2"
  then have "set m1 \<subseteq> set m2"
    by (auto simp: mapsEqual_def list_all_iff dest!: map_of_SomeD)
  moreover have "distinct m1" using assms(1) by (simp add: gomap_wf_def distinct_map)
  ultimately have "set m2 = set m1"
    using eq by (intro set_eq_of_distinct_subset) (auto simp: mapsEqual_def)
  with assms show "map_of m1 = map_of m2"
    by (metis gomap_wf_def map_of_inject_set)
next
  assume eq: "map_of m1 = map_of m2"
  then have "set m1 = set m2"
    using assms by (intro map_of_eq_imp_set_eq) (auto simp: gomap_wf_def)
  moreover have "length m1 = card (set m1)" "length m2 = card (set m2)"
    using assms by (auto simp: gomap_wf_def distinct_map distinct_card)
  ultimately show "mapsEqual m1 m2"
    using eq assms by (auto simp: mapsEqual_def list_all_iff gomap_wf_def)
qed

lemma gomap_wf_Nil [simp]: "gomap_wf []"
  by (simp add: gomap_wf_def)

end
