(* ===== verification/GoError.thy ===== *)
theory GoError
  imports GoLib
begin

text \<open>
  Go error values and the functions of package \<open>errors\<close> the operator applies to them.

  An \<open>error\<close> is a tree. Leaves are the sentinel errors the operator declares with \<open>errors.New\<close>
  (compared by identity), an \<open>obs.ObsError\<close> returned by the OBS SDK, a Kubernetes API status error,
  and any other error without an \<open>Unwrap\<close> method. Inner nodes are what \<open>fmt.Errorf\<close> builds with one
  \<open>%w\<close> or with several, \<open>errors.Join\<close>, and the \<open>resolutionNotFoundError\<close> of the provider package.
  The texts are those of the \<open>Error()\<close> methods; the text of a foreign leaf is part of the value.
\<close>

section \<open>Error values\<close>

datatype sentinel =
    ErrProviderConfigNotFound
  | ErrCredentialsSecretNotFound
  | ErrMissingCredentials
  | ErrInvalidEndpoint
  | ErrBucketAlreadyExists
  | ErrProviderValidationFailed

fun sentinelText :: "sentinel \<Rightarrow> string" where
  "sentinelText ErrProviderConfigNotFound = ''provider config not found''"
| "sentinelText ErrCredentialsSecretNotFound = ''credentials secret not found''"
| "sentinelText ErrMissingCredentials = ''missing provider credentials''"
| "sentinelText ErrInvalidEndpoint = ''invalid OBS endpoint''"
| "sentinelText ErrBucketAlreadyExists = ''bucket already exists''"
| "sentinelText ErrProviderValidationFailed = ''provider validation failed''"

record ObsError =
  oeStatusCode :: int
  oeCode :: string
  oeMessage :: string
  oeText :: string \<comment> \<open>what its \<open>Error()\<close> method returns\<close>

datatype error =
    Sentinel sentinel
  | ObsErr ObsError
  | ApiStatusErr string string \<comment> \<open>reason and text of a Kubernetes API status error\<close>
  | LeafErr string \<comment> \<open>any other error without \<open>Unwrap\<close>\<close>
  | WrapErr string error \<comment> \<open>\<open>fmt.Errorf\<close> with one \<open>%w\<close>: text and wrapped error\<close>
  | WrapErrs string "error list" \<comment> \<open>\<open>fmt.Errorf\<close> with several \<open>%w\<close>\<close>
  | JoinErr "error list" \<comment> \<open>\<open>errors.Join\<close>\<close>
  | ResolutionNotFound sentinel error \<comment> \<open>\<open>resolutionNotFoundError{kind, err}\<close>\<close>

fun joinLines :: "string list \<Rightarrow> string" where
  "joinLines [] = []"
| "joinLines [x] = x"
| "joinLines (x # y # ys) = x @ CHR 0x0A # joinLines (y # ys)"

fun errText :: "error \<Rightarrow> string" where
  "errText (Sentinel s) = sentinelText s"
| "errText (ObsErr e) = oeText e"
| "errText (ApiStatusErr _ t) = t"
| "errText (LeafErr t) = t"
| "errText (WrapErr t _) = t"
| "errText (WrapErrs t _) = t"
| "errText (JoinErr es) = joinLines (map errText es)"
| "errText (ResolutionNotFound k e) = sentinelText k @ '': '' @ errText e"

text \<open>\<open>fmt.Errorf("prefix%w", err)\<close>.\<close>

definition wrapf :: "string \<Rightarrow> error \<Rightarrow> error" where
  "wrapf pre e = WrapErr (pre @ errText e) e"

section \<open>errors.Is, errors.As\<close>

text \<open>
  \<open>errors.Is(err, target)\<close> for a sentinel target: the node itself, the \<open>Is\<close> method of a
  \<open>resolutionNotFoundError\<close>, then the wrapped errors in depth-first order.
\<close>

fun errorsIs :: "error \<Rightarrow> sentinel \<Rightarrow> bool" where
  "errorsIs (Sentinel s) t \<longleftrightarrow> s = t"
| "errorsIs (ObsErr _) t \<longleftrightarrow> False"
| "errorsIs (ApiStatusErr _ _) t \<longleftrightarrow> False"
| "errorsIs (LeafErr _) t \<longleftrightarrow> False"
| "errorsIs (WrapErr _ e) t \<longleftrightarrow> errorsIs e t"
| "errorsIs (WrapErrs _ es) t \<longleftrightarrow> list_ex (\<lambda>e. errorsIs e t) es"
| "errorsIs (JoinErr es) t \<longleftrightarrow> list_ex (\<lambda>e. errorsIs e t) es"
| "errorsIs (ResolutionNotFound k e) t \<longleftrightarrow> t = k \<or> errorsIs e t"

text \<open>\<open>errors.As(err, &obsErr)\<close>: the first \<open>obs.ObsError\<close> of the tree in depth-first order.\<close>

fun firstSome :: "'a option list \<Rightarrow> 'a option" where
  "firstSome [] = None"
| "firstSome (Some x # _) = Some x"
| "firstSome (None # xs) = firstSome xs"

fun errorsAsObs :: "error \<Rightarrow> ObsError option" where
  "errorsAsObs (Sentinel _) = None"
| "errorsAsObs (ObsErr e) = Some e"
| "errorsAsObs (ApiStatusErr _ _) = None"
| "errorsAsObs (LeafErr _) = None"
| "errorsAsObs (WrapErr _ e) = errorsAsObs e"
| "errorsAsObs (WrapErrs _ es) = firstSome (map errorsAsObs es)"
| "errorsAsObs (JoinErr es) = firstSome (map errorsAsObs es)"
| "errorsAsObs (ResolutionNotFound _ e) = errorsAsObs e"

lemma errorsIs_wrapf [simp]: "errorsIs (wrapf p e) t \<longleftrightarrow> errorsIs e t"
  by (simp add: wrapf_def)

lemma errorsAsObs_wrapf [simp]: "errorsAsObs (wrapf p e) = errorsAsObs e"
  by (simp add: wrapf_def)

lemma errText_wrapf [simp]: "errText (wrapf p e) = p @ errText e"
  by (simp add: wrapf_def)

lemma firstSome_eq_None_iff: "firstSome xs = None \<longleftrightarrow> (\<forall>x \<in> set xs. x = None)"
  by (induction xs rule: firstSome.induct) auto

lemma firstSome_in_set: "firstSome xs = Some x \<Longrightarrow> Some x \<in> set xs"
  by (induction xs rule: firstSome.induct) auto

section \<open>Error trees as the errors they consist of\<close>

text \<open>
  The errors a tree gives the classifiers to look at: its leaves, and the kind of each
  \<open>resolutionNotFoundError\<close>. \<open>errors.Is\<close> is membership of the target.
\<close>

fun errNodes :: "error \<Rightarrow> error list" where
  "errNodes (WrapErr _ e) = errNodes e"
| "errNodes (WrapErrs _ es) = concat (map errNodes es)"
| "errNodes (JoinErr es) = concat (map errNodes es)"
| "errNodes (ResolutionNotFound k e) = Sentinel k # errNodes e"
| "errNodes e = [e]"

lemma errorsIs_iff_node: "errorsIs e t \<longleftrightarrow> Sentinel t \<in> set (errNodes e)"
  by (induction e rule: errNodes.induct) (auto simp: list_ex_iff)

lemma errorsAsObs_None_iff: "errorsAsObs e = None \<longleftrightarrow> (\<forall>x. ObsErr x \<notin> set (errNodes e))"
  by (induction e rule: errNodes.induct) (auto simp: firstSome_eq_None_iff)

lemma errorsAsObs_Some_node: "errorsAsObs e = Some x \<Longrightarrow> ObsErr x \<in> set (errNodes e)"
  by (induction e rule: errNodes.induct) (fastforce dest!: firstSome_in_set)+

text \<open>Trees without a multi-error: a chain of wrapped errors ending in a leaf.\<close>

fun errChain :: "error \<Rightarrow> bool" where
  "errChain (WrapErr _ e) \<longleftrightarrow> errChain e"
| "errChain (ResolutionNotFound _ e) \<longleftrightarrow> errChain e"
| "errChain (WrapErrs _ _) \<longleftrightarrow> False"
| "errChain (JoinErr _) \<longleftrightarrow> False"
| "errChain _ \<longleftrightarrow> True"

end
