(* ===== verification/ApiTypes.thy ===== *)
theory ApiTypes
  imports GoError
begin

text \<open>
  The data of the operator: the custom resources of \<open>api/v1alpha1\<close>, the parts of the Kubernetes
  object metadata and conditions the code reads or writes, the request and response types of the
  OBS SDK it uses, and the SDK's named constants.

  A Go \<open>string\<close>-based enum keeps its string. A pointer field is an \<open>option\<close>. \<open>time\<close> counts from
  Go's zero time, so \<open>0\<close> is the zero value of \<open>metav1.Time\<close>. The generation counters are only
  compared and copied, so they are unbounded. Metadata the operator never looks at (labels,
  annotations, owner references) is left out.
\<close>

type_synonym time = int

section \<open>Kubernetes metadata and conditions\<close>

record NamespacedName =
  nnNamespace :: string
  nnName :: string

record ObjectMeta =
  Name :: string
  Namespace :: string
  UID :: string
  ResourceVersion :: string
  Generation :: int
  DeletionTimestamp :: "time option"
  Finalizers :: "string list"

definition IsZeroTime :: "time option \<Rightarrow> bool" where
  "IsZeroTime t \<longleftrightarrow> t = None \<or> t = Some 0"

datatype ConditionStatus = ConditionTrue | ConditionFalse | ConditionUnknown

record Condition =
  cType :: string
  cStatus :: ConditionStatus
  cObservedGeneration :: int
  cLastTransitionTime :: time
  cReason :: string
  cMessage :: string

section \<open>Bucket\<close>

record BucketLoggingSpec =
  logTargetBucket :: string
  logTargetPrefix :: string
  logAgency :: string

record BucketServerSideEncryptionSpec =
  sseKMSKeyID :: string
  sseKMSProjectID :: string

record BucketSpec =
  specProviderConfigRef :: string
  specStorageClass :: string
  specACL :: string
  specVersioning :: bool
  specParallelFS :: bool
  specEnterpriseProjectID :: string
  specTags :: "(string, string) gomap option"
  specForceDestroy :: bool
  specLogging :: "BucketLoggingSpec option"
  specServerSideEncryption :: "BucketServerSideEncryptionSpec option"

record BucketStatus =
  stObservedGeneration :: int
  stRegion :: string
  stBucketDomainName :: string
  stBucketVersion :: string
  stLastSyncTime :: "time option"
  stConditions :: "Condition list"

record Bucket =
  bMeta :: ObjectMeta
  bSpec :: BucketSpec
  bStatus :: BucketStatus

abbreviation bucketName :: "Bucket \<Rightarrow> string" where
  "bucketName b \<equiv> Name (bMeta b)"

abbreviation deleting :: "Bucket \<Rightarrow> bool" where
  "deleting b \<equiv> \<not> IsZeroTime (DeletionTimestamp (bMeta b))"

section \<open>ProviderConfig and Secret\<close>

record ProviderConfigSpec =
  pcsRegion :: string
  pcsEndpoint :: string
  pcsCredentialsSecretRef :: string

record ProviderConfigStatus =
  pcObservedGeneration :: int
  pcLastValidationTime :: "time option"
  pcObservedProviderRevision :: string
  pcConditions :: "Condition list"

record ProviderConfig =
  pMeta :: ObjectMeta
  pSpec :: ProviderConfigSpec
  pStatus :: ProviderConfigStatus

record Secret =
  secMeta :: ObjectMeta
  secData :: "(string, string) gomap"

section \<open>OBS SDK data\<close>

record GetBucketMetadataOutput =
  mdVersion :: string

record CreateBucketInput =
  cbBucket :: string
  cbACL :: string
  cbIsFSFileInterface :: bool
  cbStorageClass :: string
  cbEpid :: string
  cbLocation :: string

record Grantee =
  granteeTypeOf :: string
  granteeIDOf :: string
  granteeURIOf :: string

record Grant =
  grantGrantee :: Grantee
  grantPermission :: string
  grantDelivered :: bool

record GetBucketAclOutput =
  aclOwnerID :: string
  aclGrants :: "Grant list"

record BucketLoggingStatus =
  blsTargetBucket :: string
  blsTargetPrefix :: string
  blsAgency :: string

record SetBucketLoggingConfigurationInput =
  sblBucket :: string
  sblStatus :: BucketLoggingStatus

record BucketEncryptionConfiguration =
  encSSEAlgorithm :: string
  encKMSMasterKeyID :: string
  encProjectID :: string

record Tag =
  tagKey :: string
  tagValue :: string

record ObjectToDelete =
  otdKey :: string
  otdVersionId :: string

record ListVersionsOutput =
  lvVersions :: "ObjectToDelete list" \<comment> \<open>key and version id of each version\<close>
  lvDeleteMarkers :: "ObjectToDelete list" \<comment> \<open>key and version id of each delete marker\<close>
  lvIsTruncated :: bool

record DeleteObjectsOutput =
  doErrors :: "string list"

text \<open>
  The constants of the OBS SDK are parameters of the model. \<open>sdkDocumented\<close> states the values the
  SDK documents; a statement that depends on them has it as a hypothesis.
\<close>

record obs_consts =
  StorageClassStandard :: string
  StorageClassWarm :: string
  StorageClassCold :: string
  AclPrivate :: string
  AclPublicRead :: string
  AclPublicReadWrite :: string
  AclLogDeliveryWrite :: string
  GranteeUser :: string
  GranteeGroup :: string
  GroupAllUsers :: string
  GroupLogDelivery :: string
  PermissionRead :: string
  PermissionWrite :: string
  PermissionReadAcp :: string
  PermissionFullControl :: string
  VersioningStatusEnabled :: string
  VersioningStatusSuspended :: string

definition sdkDocumented :: "obs_consts \<Rightarrow> bool" where
  "sdkDocumented K \<longleftrightarrow>
     StorageClassStandard K = ''STANDARD'' \<and> StorageClassWarm K = ''WARM'' \<and>
     StorageClassCold K = ''COLD'' \<and>
     AclPrivate K = ''private'' \<and> AclPublicRead K = ''public-read'' \<and>
     AclPublicReadWrite K = ''public-read-write'' \<and> AclLogDeliveryWrite K = ''log-delivery-write'' \<and>
     GranteeUser K = ''CanonicalUser'' \<and> GranteeGroup K = ''Group'' \<and>
     GroupAllUsers K = ''AllUsers'' \<and> GroupLogDelivery K = ''LogDelivery'' \<and>
     PermissionRead K = ''READ'' \<and> PermissionWrite K = ''WRITE'' \<and>
     PermissionReadAcp K = ''READ_ACP'' \<and> PermissionFullControl K = ''FULL_CONTROL'' \<and>
     VersioningStatusEnabled K = ''Enabled'' \<and> VersioningStatusSuspended K = ''Suspended''"

end
