(* ===== verification/Endpoint.thy ===== *)
theory Endpoint
  imports GoError
begin

text \<open>
  \<open>ResolveEndpoint\<close> of \<open>provider_resolver.go\<close>, with the parts of \<open>net/url\<close> (Go 1.26) it uses:
  \<open>url.Parse\<close> and \<open>(*URL).String\<close>.

  Two things of \<open>net/url\<close> are parameters (\<open>url_lib\<close>): how a host with a bracketed IP literal is
  parsed (it needs \<open>net/netip\<close>), and the text of a parse error, which only ends up in a message.
\<close>

section \<open>net/url\<close>

record url_lib =
  ulIPLiteral :: "string \<Rightarrow> string option" \<comment> \<open>host with a bracket: its unescaped form, or failure\<close>
  ulErrorText :: "string \<Rightarrow> string"

record URL =
  uScheme :: string
  uOpaque :: string
  uUser :: "(string \<times> string option) option" \<comment> \<open>user name, password\<close>
  uHost :: string
  uPath :: string
  uForceQuery :: bool
  uRawQuery :: string
  uFragment :: string
  uOmitHost :: bool

definition isLower :: "char \<Rightarrow> bool" where
  "isLower c \<longleftrightarrow> CHR ''a'' \<le> c \<and> c \<le> CHR ''z''"

definition isUpper :: "char \<Rightarrow> bool" where
  "isUpper c \<longleftrightarrow> CHR ''A'' \<le> c \<and> c \<le> CHR ''Z''"

definition isDigit :: "char \<Rightarrow> bool" where
  "isDigit c \<longleftrightarrow> CHR ''0'' \<le> c \<and> c \<le> CHR ''9''"

definition isAlnum :: "char \<Rightarrow> bool" where
  "isAlnum c \<longleftrightarrow> isLower c \<or> isUpper c \<or> isDigit c"

definition toLower :: "char \<Rightarrow> char" where
  "toLower c = (if isUpper c then char_of (of_char c + 32 :: nat) else c)"

definition stringContainsCTLByte :: "string \<Rightarrow> bool" where
  "stringContainsCTLByte s \<longleftrightarrow> list_ex (\<lambda>b. b < CHR '' '' \<or> b = CHR 0x7F) s"

text \<open>\<open>strings.Cut\<close> at a single byte.\<close>

definition Cut :: "char \<Rightarrow> string \<Rightarrow> string \<times> string" where
  "Cut c s = (takeWhile (\<lambda>x. x \<noteq> c) s, drop 1 (dropWhile (\<lambda>x. x \<noteq> c) s))"

fun getSchemeLoop :: "string \<Rightarrow> string \<Rightarrow> string \<Rightarrow> (string \<times> string) option" where
  "getSchemeLoop rawURL pre [] = Some ([], rawURL)"
| "getSchemeLoop rawURL pre (c # cs) =
     (if isLower c \<or> isUpper c then getSchemeLoop rawURL (pre @ [c]) cs
      else if isDigit c \<or> c \<in> set ''+-.'' then
        (if pre = [] then Some ([], rawURL) else getSchemeLoop rawURL (pre @ [c]) cs)
      else if c = CHR '':'' then (if pre = [] then None else Some (pre, cs))
      else Some ([], rawURL))"

definition getScheme :: "string \<Rightarrow> (string \<times> string) option" where
  "getScheme rawURL = getSchemeLoop rawURL [] rawURL"

datatype encoding = encodePath | encodeHost | encodeUserPassword | encodeFragment

definition shouldEscape :: "char \<Rightarrow> encoding \<Rightarrow> bool" where
  "shouldEscape c mode =
     (if isAlnum c then False
      else if mode = encodeHost \<and> c \<in> set (''!$&()*+,;=:[]<>'' @ [CHR 0x22, CHR 0x27]) then False
      else if c \<in> set ''-_.~'' then False
      else if c \<in> set ''$&+,/:;=?@'' then
        (case mode of
           encodePath \<Rightarrow> c = CHR ''?''
         | encodeUserPassword \<Rightarrow> c \<in> set ''@/?:''
         | encodeFragment \<Rightarrow> False
         | encodeHost \<Rightarrow> True)
      else if mode = encodeFragment \<and> c \<in> set ''!()*'' then False
      else True)"

definition unhex :: "char \<Rightarrow> nat option" where
  "unhex c =
     (if isDigit c then Some (of_char c - 48)
      else if CHR ''a'' \<le> c \<and> c \<le> CHR ''f'' then Some (of_char c - 87)
      else if CHR ''A'' \<le> c \<and> c \<le> CHR ''F'' then Some (of_char c - 55)
      else None)"

fun unescape :: "encoding \<Rightarrow> string \<Rightarrow> string option" where
  "unescape mode [] = Some []"
| "unescape mode (c # cs) =
     (if c = CHR ''%'' then
        (case cs of
           h # l # rest \<Rightarrow>
             (case (unhex h, unhex l) of
                (Some x, Some y) \<Rightarrow>
                  if mode = encodeHost \<and> x < 8 \<and> [h, l] \<noteq> ''25'' then None
                  else map_option (\<lambda>r. char_of (16 * x + y) # r) (unescape mode rest)
              | _ \<Rightarrow> None)
         | _ \<Rightarrow> None)
      else if mode = encodeHost \<and> of_char c < (0x80 :: nat) \<and> shouldEscape c mode then None
      else map_option (\<lambda>r. c # r) (unescape mode cs))"

definition upperHex :: "nat \<Rightarrow> char" where
  "upperHex n = ''0123456789ABCDEF'' ! n"

definition escape :: "encoding \<Rightarrow> string \<Rightarrow> string" where
  "escape mode s = concat (map (\<lambda>c.
     if shouldEscape c mode then [CHR ''%'', upperHex (of_char c div 16), upperHex (of_char c mod 16)]
     else [c]) s)"

definition validOptionalPort :: "string \<Rightarrow> bool" where
  "validOptionalPort port \<longleftrightarrow>
     (case port of [] \<Rightarrow> True | c # cs \<Rightarrow> c = CHR '':'' \<and> list_all isDigit cs)"

definition parseHost :: "url_lib \<Rightarrow> string \<Rightarrow> string option" where
  "parseHost U host =
     (if CHR ''['' \<in> set host then ulIPLiteral U host
      else if \<not> validOptionalPort (dropWhile (\<lambda>c. c \<noteq> CHR '':'') host) then None
      else unescape encodeHost host)"

definition validUserinfo :: "string \<Rightarrow> bool" where
  "validUserinfo s \<longleftrightarrow> list_all (\<lambda>c. isAlnum c \<or> c \<in> set (''-._:~!$&()*+,;=%@'' @ [CHR 0x27])) s"

definition parseUserinfo :: "string \<Rightarrow> (string \<times> string option) option" where
  "parseUserinfo userinfo =
     (if \<not> validUserinfo userinfo then None
      else if CHR '':'' \<notin> set userinfo then
        map_option (\<lambda>u. (u, None)) (unescape encodeUserPassword userinfo)
      else (case Cut (CHR '':'') userinfo of (username, password) \<Rightarrow>
        (case (unescape encodeUserPassword username, unescape encodeUserPassword password) of
           (Some u, Some p) \<Rightarrow> Some (u, Some p)
         | _ \<Rightarrow> None)))"

text \<open>The authority is split at its last \<open>@\<close>.\<close>

definition parseAuthority :: "url_lib \<Rightarrow> string \<Rightarrow> ((string \<times> string option) option \<times> string) option" where
  "parseAuthority U authority =
     (if CHR ''@'' \<notin> set authority then map_option (\<lambda>h. (None, h)) (parseHost U authority)
      else
        (let hostPart = rev (takeWhile (\<lambda>c. c \<noteq> CHR ''@'') (rev authority));
             userinfo = rev (drop 1 (dropWhile (\<lambda>c. c \<noteq> CHR ''@'') (rev authority)))
         in case (parseHost U hostPart, parseUserinfo userinfo) of
              (Some h, Some u) \<Rightarrow> Some (Some u, h)
            | _ \<Rightarrow> None))"

definition emptyURL :: URL where
  "emptyURL = \<lparr>uScheme = [], uOpaque = [], uUser = None, uHost = [], uPath = [], uForceQuery = False,
     uRawQuery = [], uFragment = [], uOmitHost = False\<rparr>"

definition setPath :: "URL \<Rightarrow> string \<Rightarrow> URL option" where
  "setPath u p = map_option (\<lambda>path. u\<lparr>uPath := path\<rparr>) (unescape encodePath p)"

text \<open>From the scheme-less rest to the URL: query, authority and path.\<close>

definition parseRest :: "url_lib \<Rightarrow> URL \<Rightarrow> string \<Rightarrow> URL option" where
  "parseRest U u rest0 =
     (let force = (rest0 \<noteq> [] \<and> last rest0 = CHR ''?'' \<and> count_list rest0 (CHR ''?'') = 1);
          rest = (if force then butlast rest0 else fst (Cut (CHR ''?'') rest0));
          u = u\<lparr>uForceQuery := force, uRawQuery := (if force then [] else snd (Cut (CHR ''?'') rest0))\<rparr>
      in if \<not> prefix ''/'' rest \<and> uScheme u \<noteq> [] then Some (u\<lparr>uOpaque := rest\<rparr>)
         else if \<not> prefix ''/'' rest \<and> CHR '':'' \<in> set (fst (Cut (CHR ''/'') rest)) then None
         else if (uScheme u \<noteq> [] \<or> \<not> prefix ''///'' rest) \<and> prefix ''//'' rest then
           (let a = drop 2 rest;
                authority = takeWhile (\<lambda>c. c \<noteq> CHR ''/'') a;
                path = dropWhile (\<lambda>c. c \<noteq> CHR ''/'') a
            in case parseAuthority U authority of
                 None \<Rightarrow> None
               | Some (user, host) \<Rightarrow> setPath (u\<lparr>uUser := user, uHost := host\<rparr>) path)
         else setPath (u\<lparr>uOmitHost := (uScheme u \<noteq> [] \<and> prefix ''/'' rest)\<rparr>) rest)"

definition urlParseNoFrag :: "url_lib \<Rightarrow> string \<Rightarrow> URL option" where
  "urlParseNoFrag U rawURL =
     (if stringContainsCTLByte rawURL then None
      else if rawURL = ''*'' then Some (emptyURL\<lparr>uPath := ''*''\<rparr>)
      else (case getScheme rawURL of
              None \<Rightarrow> None
            | Some (scheme, rest) \<Rightarrow> parseRest U (emptyURL\<lparr>uScheme := map toLower scheme\<rparr>) rest))"

definition urlParse :: "url_lib \<Rightarrow> string \<Rightarrow> URL option" where
  "urlParse U rawURL =
     (case Cut (CHR ''#'') rawURL of (u, frag) \<Rightarrow>
        (case urlParseNoFrag U u of
           None \<Rightarrow> None
         | Some url \<Rightarrow>
             if frag = [] then Some url
             else map_option (\<lambda>f. url\<lparr>uFragment := f\<rparr>) (unescape encodeFragment frag)))"

definition userinfoString :: "string \<times> string option \<Rightarrow> string" where
  "userinfoString ui =
     (case ui of (u, p) \<Rightarrow>
        escape encodeUserPassword u @
        (case p of None \<Rightarrow> [] | Some pw \<Rightarrow> CHR '':'' # escape encodeUserPassword pw))"

text \<open>
  \<open>(*URL).String\<close> for a URL whose path and fragment are empty, as \<open>ResolveEndpoint\<close> leaves them.
\<close>

definition urlString :: "URL \<Rightarrow> string" where
  "urlString u =
     (if uScheme u \<noteq> [] then uScheme u @ '':'' else []) @
     (if uOpaque u \<noteq> [] then uOpaque u
      else if uScheme u \<noteq> [] \<or> uHost u \<noteq> [] \<or> uUser u \<noteq> None then
        (if uOmitHost u \<and> uHost u = [] \<and> uUser u = None then []
         else (if uHost u \<noteq> [] \<or> uUser u \<noteq> None then ''//'' else []) @
              (case uUser u of None \<Rightarrow> [] | Some ui \<Rightarrow> userinfoString ui @ ''@'') @
              escape encodeHost (uHost u))
      else []) @
     (if uForceQuery u \<or> uRawQuery u \<noteq> [] then CHR ''?'' # uRawQuery u else [])"

section \<open>ResolveEndpoint\<close>

definition invalidEndpoint :: "string \<Rightarrow> error" where
  "invalidEndpoint msg =
     WrapErr (sentinelText ErrInvalidEndpoint @ '': '' @ msg) (Sentinel ErrInvalidEndpoint)"

definition ResolveEndpoint :: "url_lib \<Rightarrow> string \<Rightarrow> string \<Rightarrow> error + string" where
  "ResolveEndpoint U region0 endpoint0 =
     (let region = TrimSpace region0;
          e1 = TrimSpace endpoint0;
          e2 = (if e1 = [] then ''https://obs.'' @ region @ ''.otc.t-systems.com'' else e1);
          endpoint = (if \<not> Contains e2 ''://'' then ''https://'' @ e2 else e2)
      in case urlParse U endpoint of
           None \<Rightarrow> Inl (invalidEndpoint (ulErrorText U endpoint))
         | Some parsed \<Rightarrow>
             if uScheme parsed \<noteq> ''https'' then Inl (invalidEndpoint ''endpoint scheme must be https'')
             else if uHost parsed = [] then Inl (invalidEndpoint ''endpoint host is required'')
             else if uPath parsed \<noteq> [] \<and> uPath parsed \<noteq> ''/'' then
               Inl (invalidEndpoint ''endpoint path must be empty'')
             else if uRawQuery parsed \<noteq> [] \<or> uFragment parsed \<noteq> [] then
               Inl (invalidEndpoint ''endpoint query and fragment are not supported'')
             else Inr (TrimRightByte
               (urlString (parsed\<lparr>uPath := [], uRawQuery := [], uFragment := []\<rparr>)) (CHR ''/'')))"

section \<open>Escaping\<close>

definition plainChar :: "char \<Rightarrow> bool" where
  "plainChar c \<longleftrightarrow> c \<notin> set ''/?#''"

lemma upperHex_plain:
  assumes "n < 16"
  shows "plainChar (upperHex n)"
proof -
  have "upperHex n \<in> set ''0123456789ABCDEF''"
    unfolding upperHex_def using assms by (intro nth_mem) simp
  then show ?thesis by (auto simp: plainChar_def)
qed

lemma shouldEscape_reserved:
  "shouldEscape (CHR ''/'') encodeHost" "shouldEscape (CHR ''?'') encodeHost"
  "shouldEscape (CHR ''#'') encodeHost" "shouldEscape (CHR ''/'') encodeUserPassword"
  "shouldEscape (CHR ''?'') encodeUserPassword" "shouldEscape (CHR ''#'') encodeUserPassword"
  by code_simp+

lemma escape_plain:
  assumes "\<And>c. \<not> plainChar c \<Longrightarrow> shouldEscape c mode"
  shows "list_all plainChar (escape mode s)"
proof (induction s)
  case (Cons c s)
  have "of_char c div 16 < (16 :: nat)"
    by (rule less_mult_imp_div_less) simp
  then have "plainChar (upperHex (of_char c div 16))" "plainChar (upperHex (of_char c mod 16))"
    by (rule upperHex_plain) (rule upperHex_plain, simp)
  moreover have "plainChar (CHR ''%'')" by (simp add: plainChar_def)
  ultimately show ?case
    using Cons assms [of c] by (auto simp: escape_def)
qed (simp add: escape_def)

lemma escape_host_plain: "list_all plainChar (escape encodeHost s)"
  by (rule escape_plain) (auto simp: plainChar_def shouldEscape_reserved)

lemma escape_user_plain: "list_all plainChar (escape encodeUserPassword s)"
  by (rule escape_plain) (auto simp: plainChar_def shouldEscape_reserved)

lemma userinfoString_plain: "list_all plainChar (userinfoString ui)"
  using escape_user_plain by (simp add: userinfoString_def plainChar_def split: prod.splits option.splits)

lemma escape_eq_Nil: "escape mode s = [] \<longleftrightarrow> s = []"
  by (cases s) (auto simp: escape_def)

text \<open>A string of unreserved characters is left alone by escaping and unescaping.\<close>

definition hostChar :: "char \<Rightarrow> bool" where
  "hostChar c \<longleftrightarrow> isAlnum c \<or> c \<in> set ''.-''"

lemma escape_id: "(\<And>c. c \<in> set s \<Longrightarrow> \<not> shouldEscape c mode) \<Longrightarrow> escape mode s = s"
  by (induction s) (auto simp: escape_def)

lemma unescape_id:
  "(\<And>c. c \<in> set s \<Longrightarrow> c \<noteq> CHR ''%'' \<and> \<not> shouldEscape c encodeHost) \<Longrightarrow> unescape encodeHost s = Some s"
  by (induction s) auto

section \<open>What an accepted endpoint looks like\<close>

lemma setPath_same:
  "setPath u p = Some v \<Longrightarrow> uScheme v = uScheme u \<and> uOpaque v = uOpaque u \<and> uHost v = uHost u"
  by (auto simp: setPath_def)

lemma parseRest_host:
  assumes "parseRest U u rest = Some v" "uOpaque u = []" "uHost u = []" "uHost v \<noteq> []"
  shows "uOpaque v = []"
  using assms unfolding parseRest_def Let_def
  by (auto split: if_splits option.splits dest!: setPath_same)

lemma urlParse_host:
  assumes "urlParse U raw = Some v" "uHost v \<noteq> []"
  shows "uOpaque v = []"
  using assms
  by (auto simp: urlParse_def urlParseNoFrag_def emptyURL_def split: prod.splits option.splits if_splits
      dest!: parseRest_host)

lemma TrimRightByte_id: "s \<noteq> [] \<Longrightarrow> last s \<noteq> c \<Longrightarrow> TrimRightByte s c = s"
  by (cases s rule: rev_cases) (auto simp: TrimRightByte_def)

definition plainAuthority :: "string \<Rightarrow> bool" where
  "plainAuthority auth \<longleftrightarrow> auth \<noteq> [] \<and> list_all plainChar auth"

lemma urlString_https:
  assumes "uScheme u = ''https''" "uHost u \<noteq> []" "uOpaque u = []" "uRawQuery u = []"
  shows "\<exists>auth. plainAuthority auth \<and>
    urlString u = ''https://'' @ auth @ (if uForceQuery u then ''?'' else [])"
proof -
  let ?auth = "(case uUser u of None \<Rightarrow> [] | Some ui \<Rightarrow> userinfoString ui @ ''@'') @ escape encodeHost (uHost u)"
  have "plainAuthority ?auth"
    using assms(2) escape_host_plain userinfoString_plain
    by (simp add: plainAuthority_def escape_eq_Nil plainChar_def split: option.splits)
  moreover have "urlString u = ''https://'' @ ?auth @ (if uForceQuery u then ''?'' else [])"
    using assms by (simp add: urlString_def)
  ultimately show ?thesis by blast
qed

lemma ResolveEndpoint_shape:
  assumes "ResolveEndpoint U region endpoint = Inr x"
  shows "\<exists>auth q. plainAuthority auth \<and> (q = [] \<or> q = ''?'') \<and> x = ''https://'' @ auth @ q"
proof -
  from assms obtain raw u where u: "urlParse U raw = Some u" "uScheme u = ''https''" "uHost u \<noteq> []"
    and x: "x = TrimRightByte (urlString (u\<lparr>uPath := [], uRawQuery := [], uFragment := []\<rparr>)) (CHR ''/'')"
    by (auto simp: ResolveEndpoint_def Let_def split: option.splits if_splits)
  let ?u = "u\<lparr>uPath := [], uRawQuery := [], uFragment := []\<rparr>"
  have "uOpaque u = []" by (rule urlParse_host [OF u(1,3)])
  with u urlString_https [of ?u] obtain auth where auth: "plainAuthority auth"
    and s: "urlString ?u = ''https://'' @ auth @ (if uForceQuery ?u then ''?'' else [])" by auto
  have "last (urlString ?u) \<noteq> CHR ''/''"
    using auth unfolding s by (auto simp: plainAuthority_def list_all_iff plainChar_def)
  then have "x = urlString ?u" unfolding x by (intro TrimRightByte_id) (simp_all add: s)
  with auth s show ?thesis by auto
qed

lemma ResolveEndpoint_error:
  "ResolveEndpoint U region endpoint = Inl e \<Longrightarrow> errorsIs e ErrInvalidEndpoint \<and> errChain e"
  by (auto simp: ResolveEndpoint_def invalidEndpoint_def Let_def split: option.splits if_splits)

section \<open>Endpoints the CRD admits\<close>

text \<open>
  The CRD admits an endpoint that matches
  \<open>^(https://)?[A-Za-z0-9.-]+(:[0-9]+)?/?$\<close> and a region that matches
  \<open>^[a-z0-9]+(-[a-z0-9]+)*$\<close>. \<open>admittedEndpoint\<close> is the first pattern with its parts named; for the
  region it is enough that its characters are lower case letters, digits and hyphens.
\<close>

definition portText :: "string \<Rightarrow> bool" where
  "portText p \<longleftrightarrow> p = [] \<or> (\<exists>ds. p = CHR '':'' # ds \<and> ds \<noteq> [] \<and> list_all isDigit ds)"

definition admittedEndpoint :: "string \<Rightarrow> string \<Rightarrow> string \<Rightarrow> bool" where
  "admittedEndpoint host port endpoint \<longleftrightarrow>
     host \<noteq> [] \<and> list_all hostChar host \<and> portText port \<and>
     (\<exists>pre \<in> {[], ''https://''}. \<exists>suf \<in> {[], ''/''}. endpoint = pre @ host @ port @ suf)"

definition urlChar :: "char \<Rightarrow> bool" where
  "urlChar c \<longleftrightarrow> hostChar c \<or> c = CHR '':'' \<or> c = CHR ''/''"

lemma hostChar_code:
  assumes "hostChar c"
  shows "of_char c \<in> ({48..57} \<union> {65..90} \<union> {97..122} \<union> {45, 46} :: nat set)"
  using assms
  by (auto simp: hostChar_def isAlnum_def isLower_def isUpper_def isDigit_def less_eq_char_def)

lemma hostChar_not_sep: "hostChar c \<Longrightarrow> c \<noteq> CHR ''/'' \<and> c \<noteq> CHR '':''"
  by (auto dest!: hostChar_code)

lemma urlChar_code:
  assumes "urlChar c"
  shows "of_char c \<in> ({48..57} \<union> {65..90} \<union> {97..122} \<union> {45, 46, 47, 58} :: nat set)"
  using assms hostChar_code by (auto simp: urlChar_def)

lemma urlChar_not_special:
  assumes "urlChar c"
  shows "c \<noteq> CHR ''?''" "c \<noteq> CHR ''#''" "c \<noteq> CHR ''@''" "c \<noteq> CHR ''[''" "c \<noteq> CHR ''%''"
    "\<not> (c < CHR '' '' \<or> c = CHR 0x7F)"
  using urlChar_code [OF assms] by (auto simp: less_char_def)

lemma urlChar_no_escape:
  assumes "urlChar c" "c \<noteq> CHR ''/''"
  shows "\<not> shouldEscape c encodeHost"
  using assms by (auto simp: urlChar_def shouldEscape_def hostChar_def)

lemma spaceRunes_chars:
  "list_all (\<lambda>e. e \<noteq> [] \<and> list_all (\<lambda>c. of_char c < (33 :: nat) \<or> 127 < (of_char c :: nat)) e) spaceRunes"
  by code_simp

lemma TrimSpace_visible:
  assumes "\<And>c. c \<in> set s \<Longrightarrow> 33 \<le> (of_char c :: nat) \<and> of_char c \<le> (127 :: nat)"
  shows "TrimSpace s = s"
proof -
  have no: "\<not> prefix e t" if "e \<in> set spaceRunes \<or> e \<in> set (map rev spaceRunes)" "set t \<subseteq> set s" for e t
  proof
    assume p: "prefix e t"
    have all: "e \<noteq> [] \<and> (\<forall>c \<in> set e. of_char c < (33 :: nat) \<or> 127 < (of_char c :: nat))"
      if "e \<in> set spaceRunes" for e
      using that spaceRunes_chars unfolding list_all_iff by blast
    from that(1) have "e \<noteq> []" "\<forall>c \<in> set e. of_char c < (33 :: nat) \<or> 127 < (of_char c :: nat)"
      using all [of e] all [of "rev e"] by auto
    moreover from p that(2) have "set e \<subseteq> set s" using set_mono_prefix by blast
    ultimately have "\<exists>c \<in> set s. of_char c < (33 :: nat) \<or> 127 < (of_char c :: nat)"
      by (cases e) auto
    with assms show False by fastforce
  qed
  have "stripFront spaceRunes s = s"
    by (rule stripFront_id) (use no in blast)
  moreover have "stripFront (map rev spaceRunes) (rev s) = rev s"
    by (rule stripFront_id) (use no in simp)
  ultimately show ?thesis by (simp add: TrimSpace_def)
qed

lemma TrimSpace_urlChars:
  assumes "list_all urlChar s"
  shows "TrimSpace s = s"
proof (rule TrimSpace_visible)
  fix c
  assume "c \<in> set s"
  with assms have "urlChar c" by (simp add: list_all_iff)
  from urlChar_code [OF this] show "33 \<le> (of_char c :: nat) \<and> of_char c \<le> (127 :: nat)" by auto
qed

lemma Cut_absent:
  assumes "c \<notin> set s"
  shows "Cut c s = (s, [])"
proof -
  have "\<forall>x \<in> set s. x \<noteq> c" using assms by blast
  then have tw: "takeWhile (\<lambda>x. x \<noteq> c) s = s" and dw: "dropWhile (\<lambda>x. x \<noteq> c) s = []"
    by (simp_all only: takeWhile_eq_all_conv dropWhile_eq_Nil_conv)
  show ?thesis unfolding Cut_def tw dw by simp
qed

lemma portText_chars: "portText p \<Longrightarrow> list_all (\<lambda>c. urlChar c \<and> c \<noteq> CHR ''/'') p"
proof -
  have "urlChar c \<and> c \<noteq> CHR ''/''" if "isDigit c" for c
    using that hostChar_not_sep [of c] by (simp add: urlChar_def hostChar_def isAlnum_def)
  moreover have "urlChar (CHR '':'')" by (simp add: urlChar_def)
  ultimately show "portText p \<Longrightarrow> list_all (\<lambda>c. urlChar c \<and> c \<noteq> CHR ''/'') p"
    unfolding portText_def list_all_iff by fastforce
qed

lemma hostPort_chars:
  assumes "list_all hostChar host" "portText port"
  shows "list_all (\<lambda>c. urlChar c \<and> c \<noteq> CHR ''/'') (host @ port)"
  using assms portText_chars hostChar_not_sep by (auto simp: list_all_iff urlChar_def)

lemma https_urlChars: "list_all urlChar ''https://''"
  by code_simp

lemma endpoint_urlChars:
  assumes "list_all hostChar host" "portText port" "suf = [] \<or> suf = ''/''"
  shows "list_all urlChar (''https://'' @ host @ port @ suf)" "list_all urlChar (host @ port @ suf)"
proof -
  have "list_all urlChar (host @ port)"
    using hostPort_chars [OF assms(1,2)] by (rule list.pred_mono_strong) simp
  moreover have "list_all urlChar suf"
    using assms(3) https_urlChars by auto
  ultimately show *: "list_all urlChar (host @ port @ suf)" by simp
  show "list_all urlChar (''https://'' @ host @ port @ suf)"
    using * https_urlChars unfolding list_all_append by blast
qed

lemma parseHost_admitted:
  assumes "list_all hostChar host" "portText port"
  shows "parseHost U (host @ port) = Some (host @ port)"
proof -
  have ch: "list_all (\<lambda>c. urlChar c \<and> c \<noteq> CHR ''/'') (host @ port)"
    by (rule hostPort_chars [OF assms])
  then have no: "CHR ''['' \<notin> set (host @ port)"
    using urlChar_not_special(4) by (auto simp: list_all_iff)
  have "dropWhile (\<lambda>c. c \<noteq> CHR '':'') (host @ port) = dropWhile (\<lambda>c. c \<noteq> CHR '':'') port"
    using assms(1) hostChar_not_sep by (intro dropWhile_append2) (simp add: list_all_iff)
  also have "\<dots> = port"
    using assms(2) by (auto simp: portText_def)
  finally have "dropWhile (\<lambda>c. c \<noteq> CHR '':'') (host @ port) = port" .
  moreover have "validOptionalPort port"
    using assms(2) by (auto simp: portText_def validOptionalPort_def)
  moreover have "unescape encodeHost (host @ port) = Some (host @ port)"
  proof (rule unescape_id)
    fix c
    assume "c \<in> set (host @ port)"
    with ch have "urlChar c" "c \<noteq> CHR ''/''" unfolding list_all_iff by blast+
    then show "c \<noteq> CHR ''%'' \<and> \<not> shouldEscape c encodeHost"
      by (simp add: urlChar_not_special urlChar_no_escape)
  qed
  ultimately show ?thesis using no by (simp add: parseHost_def)
qed

lemma getScheme_https: "getScheme (''https:'' @ rest) = Some (''https'', rest)"
  by (simp add: getScheme_def isLower_def isUpper_def isDigit_def less_eq_char_def)

lemma toLower_https: "map toLower ''https'' = ''https''"
  by (simp add: toLower_def isUpper_def less_eq_char_def)

lemma parseRest_admitted:
  assumes "list_all hostChar host" "portText port" "suf = [] \<or> suf = ''/''"
    "uOpaque u = []" "uScheme u \<noteq> []"
  shows "parseRest U u (''//'' @ host @ port @ suf) =
    Some (u\<lparr>uForceQuery := False, uRawQuery := [], uUser := None, uHost := host @ port, uPath := suf\<rparr>)"
proof -
  have ch: "list_all (\<lambda>c. urlChar c \<and> c \<noteq> CHR ''/'') (host @ port)"
    by (rule hostPort_chars [OF assms(1,2)])
  let ?rest = "''//'' @ host @ port @ suf"
  have "list_all urlChar ?rest"
    using endpoint_urlChars [OF assms(1-3)] by simp
  then have q: "CHR ''?'' \<notin> set ?rest"
    using urlChar_not_special(1) unfolding list_all_iff by blast
  have at: "CHR ''@'' \<notin> set (host @ port)"
    using ch urlChar_not_special(3) unfolding list_all_iff by blast
  have force: "\<not> (?rest \<noteq> [] \<and> last ?rest = CHR ''?'' \<and> count_list ?rest (CHR ''?'') = 1)"
    using q last_in_set by metis
  have cut: "Cut (CHR ''?'') ?rest = (?rest, [])" by (rule Cut_absent [OF q])
  have slash: "\<forall>c \<in> set (host @ port). c \<noteq> CHR ''/''" using ch unfolding list_all_iff by blast
  have suf: "takeWhile (\<lambda>c. c \<noteq> CHR ''/'') suf = []" "dropWhile (\<lambda>c. c \<noteq> CHR ''/'') suf = suf"
    using assms(3) by auto
  have tw: "takeWhile (\<lambda>c. c \<noteq> CHR ''/'') (host @ port @ suf) = host @ port"
    and dw: "dropWhile (\<lambda>c. c \<noteq> CHR ''/'') (host @ port @ suf) = suf"
    using takeWhile_append2 [of "host @ port" "\<lambda>c. c \<noteq> CHR ''/''" suf]
      dropWhile_append2 [of "host @ port" "\<lambda>c. c \<noteq> CHR ''/''" suf] slash
    unfolding suf append_assoc append_Nil2 by blast+
  have auth: "parseAuthority U (host @ port) = Some (None, host @ port)"
    using at parseHost_admitted [OF assms(1,2)] by (simp add: parseAuthority_def)
  have path: "unescape encodePath suf = Some suf"
    using assms(3) by auto
  show ?thesis
    unfolding parseRest_def Let_def if_not_P [OF force] cut
    using assms(5) tw dw auth path force by (simp add: setPath_def)
qed

lemma ResolveEndpoint_prefixed:
  assumes "host \<noteq> []" "list_all hostChar host" "portText port" "suf = [] \<or> suf = ''/''"
    "endpoint = ''https://'' @ host @ port @ suf"
  shows "urlParse U endpoint = Some (emptyURL\<lparr>uScheme := ''https'', uHost := host @ port, uPath := suf\<rparr>)"
proof -
  have ch: "list_all urlChar endpoint"
    using endpoint_urlChars [OF assms(2-4)] assms(5) by simp
  have "CHR ''#'' \<notin> set endpoint" using ch urlChar_not_special(2) unfolding list_all_iff by blast
  then have cut: "Cut (CHR ''#'') endpoint = (endpoint, [])" by (rule Cut_absent)
  have ctl: "\<not> stringContainsCTLByte endpoint"
    using ch urlChar_not_special(6) unfolding stringContainsCTLByte_def list_ex_iff list_all_iff by blast
  have "endpoint = ''https:'' @ (''//'' @ host @ port @ suf)" using assms(5) by simp
  then have sch: "getScheme endpoint = Some (''https'', ''//'' @ host @ port @ suf)"
    using getScheme_https by metis
  have "endpoint \<noteq> ''*''" using assms(5) by simp
  then show ?thesis
    using cut ctl sch parseRest_admitted [OF assms(2-4), of "emptyURL\<lparr>uScheme := ''https''\<rparr>" U]
    by (simp add: urlParse_def urlParseNoFrag_def toLower_https [simplified] emptyURL_def)
qed

lemma ResolveEndpoint_parsed:
  assumes "host \<noteq> []" "list_all hostChar host" "portText port" "suf = [] \<or> suf = ''/''"
    "urlParse U e = Some (emptyURL\<lparr>uScheme := ''https'', uHost := host @ port, uPath := suf\<rparr>)"
    "TrimSpace endpoint \<noteq> []"
    "e = (if Contains (TrimSpace endpoint) ''://'' then TrimSpace endpoint else ''https://'' @ TrimSpace endpoint)"
  shows "ResolveEndpoint U region endpoint = Inr (''https://'' @ host @ port)"
proof -
  have ch: "list_all (\<lambda>c. urlChar c \<and> c \<noteq> CHR ''/'') (host @ port)"
    by (rule hostPort_chars [OF assms(2,3)])
  have esc: "escape encodeHost (host @ port) = host @ port"
    using ch urlChar_no_escape unfolding list_all_iff by (intro escape_id) blast
  have "last (host @ port) \<in> set (host @ port)" using assms(1) by (intro last_in_set) simp
  then have last: "last (host @ port) \<noteq> CHR ''/''"
    using ch unfolding list_all_iff by blast
  have "urlString (emptyURL\<lparr>uScheme := ''https'', uHost := host @ port\<rparr>) = ''https://'' @ host @ port"
    using assms(1) esc by (simp add: urlString_def emptyURL_def)
  moreover have "TrimRightByte (''https://'' @ host @ port) (CHR ''/'') = ''https://'' @ host @ port"
    using last assms(1) by (intro TrimRightByte_id) auto
  ultimately show ?thesis
    using assms by (auto simp: ResolveEndpoint_def Let_def emptyURL_def)
qed

lemma no_scheme_separator:
  assumes "list_all hostChar host" "portText port" "suf = [] \<or> suf = ''/''"
  shows "\<not> Contains (host @ port @ suf) ''://''"
proof
  assume "Contains (host @ port @ suf) ''://''"
  then obtain p q where pq: "host @ port @ suf = p @ CHR '':'' # ''//'' @ q"
    by (auto simp: Contains_iff)
  have h: "CHR '':'' \<notin> set host" using assms(1) hostChar_not_sep unfolding list_all_iff by blast
  have f: "CHR '':'' \<notin> set suf" using assms(3) by auto
  show False
  proof (cases port)
    case Nil
    then have "CHR '':'' \<in> set (host @ suf)" using pq by (metis append_Nil in_set_conv_decomp)
    with h f show False by simp
  next
    case (Cons c ds)
    with assms(2) have c: "c = CHR '':''" "ds \<noteq> []" "list_all isDigit ds" by (auto simp: portText_def)
    have dig: "isDigit d \<Longrightarrow> d \<noteq> CHR '':'' \<and> d \<noteq> CHR ''/''" for d
      using hostChar_not_sep [of d] by (simp add: hostChar_def isAlnum_def)
    then have "CHR '':'' \<notin> set (ds @ suf)" using c(3) f unfolding list_all_iff by auto
    moreover have "host @ CHR '':'' # (ds @ suf) = p @ CHR '':'' # ''//'' @ q"
      using pq Cons c(1) by simp
    ultimately have "ds @ suf = ''//'' @ q" using append_sep_unique h by metis
    with c(2) have "hd ds = CHR ''/''" by (cases ds) auto
    with c(2,3) dig show False by (cases ds) auto
  qed
qed

lemma Contains_https: "Contains (''https://'' @ s) ''://''"
  unfolding Contains_iff by (intro exI [of _ "''https''"] exI [of _ s]) simp

lemma admittedEndpoint_resolves:
  assumes "admittedEndpoint host port endpoint"
  shows "ResolveEndpoint U region endpoint = Inr (''https://'' @ host @ port)"
proof -
  from assms obtain pre suf where h: "host \<noteq> []" "list_all hostChar host" "portText port"
    and pre: "pre = [] \<or> pre = ''https://''" and suf: "suf = [] \<or> suf = ''/''"
    and e: "endpoint = pre @ host @ port @ suf"
    unfolding admittedEndpoint_def by blast
  have "list_all urlChar endpoint"
    using endpoint_urlChars [OF h(2,3) suf] pre unfolding e by auto
  then have trim: "TrimSpace endpoint = endpoint" by (rule TrimSpace_urlChars)
  have "(if Contains endpoint ''://'' then endpoint else ''https://'' @ endpoint) = ''https://'' @ host @ port @ suf"
    using pre Contains_https [of "host @ port @ suf"] no_scheme_separator [OF h(2,3) suf] unfolding e by auto
  then have e': "''https://'' @ host @ port @ suf =
      (if Contains (TrimSpace endpoint) ''://'' then TrimSpace endpoint else ''https://'' @ TrimSpace endpoint)"
    unfolding trim by (rule sym)
  have "TrimSpace endpoint \<noteq> []" using trim e h(1) by simp
  then show ?thesis
    by (rule ResolveEndpoint_parsed [OF h suf ResolveEndpoint_prefixed [OF h suf refl] _ e'])
qed

lemma defaultEndpoint_resolves:
  assumes "list_all hostChar region" "TrimSpace endpoint = []"
  shows "ResolveEndpoint U region endpoint = Inr (''https://obs.'' @ region @ ''.otc.t-systems.com'')"
proof -
  let ?host = "''obs.'' @ region @ ''.otc.t-systems.com''"
  have lit: "list_all hostChar ''obs.''" "list_all hostChar ''.otc.t-systems.com''" by code_simp+
  have h: "?host \<noteq> []" "list_all hostChar ?host" using lit assms(1) unfolding list_all_append by simp_all
  have adm: "admittedEndpoint ?host [] (''https://'' @ ?host)"
    using h unfolding admittedEndpoint_def by (auto simp: portText_def)
  have "list_all urlChar region" using assms(1) by (rule list.pred_mono_strong) (simp add: urlChar_def)
  then have "TrimSpace region = region" by (rule TrimSpace_urlChars)
  moreover have "TrimSpace (''https://'' @ ?host) = ''https://'' @ ?host"
    using endpoint_urlChars(1) [OF h(2), of "[]" "[]"] by (intro TrimSpace_urlChars) (simp add: portText_def)
  ultimately have "ResolveEndpoint U region endpoint = ResolveEndpoint U region (''https://'' @ ?host)"
    using assms(2) by (simp add: ResolveEndpoint_def)
  with admittedEndpoint_resolves [OF adm] show ?thesis by simp
qed

end
