(* ===== verification/World.thy ===== *)
theory World
  imports ApiTypes Endpoint
begin

text \<open>
  The boundary of the program: the services and libraries it calls, as parameters of the model,
  and the state its functions work on.

  \<open>env\<close> bundles what is not code of the repository: the SDK constants, the pure helpers of the
  Kubernetes libraries and of \<open>net/url\<close>, the Kubernetes API client, the OBS SDK client and its constructor, the
  clock and the cancellation state of the request context. Every effectful parameter is a function
  of an opaque world \<open>'w\<close> (the API server, the OBS service, other clients, time), so nothing is
  assumed about what a call returns or changes unless a theorem says so. \<open>'c\<close> is the type of SDK
  client objects; a client pointer is a \<open>'c option\<close>.

  The state \<open>st\<close> of a run is the world, the provider cache of the process, and the trace of the
  calls made so far. The trace is history only: no definition reads it.
\<close>

section \<open>Provider data kept by the process\<close>

record Credentials =
  crAccessKeyID :: string
  crSecretAccessKey :: string
  crSecurityToken :: string

record 'c ResolvedClient =
  rcOBS :: "'c option"
  rcProviderConfig :: NamespacedName
  rcCredentialsSecret :: NamespacedName
  rcRegion :: string
  rcEndpoint :: string
  rcProviderRevision :: string
  rcFromCache :: bool

record cacheKey =
  ckProviderConfig :: NamespacedName
  ckProviderUID :: string
  ckCredentialsSecret :: NamespacedName
  ckSecretUID :: string
  ckCredentialsHash :: string
  ckRegion :: string
  ckEndpoint :: string

record 'c cacheEntry =
  ceKey :: cacheKey
  ceResolved :: "'c ResolvedClient"

record ('c, 'w) Cache =
  cacheClients :: "(NamespacedName, 'c cacheEntry) gomap"
  cacheCloseClient :: "('c \<Rightarrow> 'w \<Rightarrow> 'w) option"

section \<open>Calls\<close>

text \<open>The requests of the OBS SDK client.\<close>

datatype obs_req =
    RListBuckets
  | RGetBucketMetadata string
  | RCreateBucket CreateBucketInput
  | RDeleteBucket string
  | RGetBucketStoragePolicy string
  | RSetBucketStoragePolicy string string
  | RGetBucketAcl string
  | RSetBucketAcl string string
  | RGetBucketVersioning string
  | RSetBucketVersioning string string
  | RGetBucketTagging string
  | RSetBucketTagging string "Tag list"
  | RDeleteBucketTagging string
  | RGetBucketLogging string
  | RSetBucketLogging SetBucketLoggingConfigurationInput
  | RGetBucketEncryption string
  | RSetBucketEncryption string BucketEncryptionConfiguration
  | RDeleteBucketEncryption string
  | RListVersions string
  | RDeleteObjects string "ObjectToDelete list"

fun reqBucket :: "obs_req \<Rightarrow> string option" where
  "reqBucket RListBuckets = None"
| "reqBucket (RGetBucketMetadata b) = Some b"
| "reqBucket (RCreateBucket i) = Some (cbBucket i)"
| "reqBucket (RDeleteBucket b) = Some b"
| "reqBucket (RGetBucketStoragePolicy b) = Some b"
| "reqBucket (RSetBucketStoragePolicy b _) = Some b"
| "reqBucket (RGetBucketAcl b) = Some b"
| "reqBucket (RSetBucketAcl b _) = Some b"
| "reqBucket (RGetBucketVersioning b) = Some b"
| "reqBucket (RSetBucketVersioning b _) = Some b"
| "reqBucket (RGetBucketTagging b) = Some b"
| "reqBucket (RSetBucketTagging b _) = Some b"
| "reqBucket (RDeleteBucketTagging b) = Some b"
| "reqBucket (RGetBucketLogging b) = Some b"
| "reqBucket (RSetBucketLogging i) = Some (sblBucket i)"
| "reqBucket (RGetBucketEncryption b) = Some b"
| "reqBucket (RSetBucketEncryption b _) = Some b"
| "reqBucket (RDeleteBucketEncryption b) = Some b"
| "reqBucket (RListVersions b) = Some b"
| "reqBucket (RDeleteObjects b _) = Some b"

text \<open>Requests that only read.\<close>

fun readOnlyReq :: "obs_req \<Rightarrow> bool" where
  "readOnlyReq RListBuckets \<longleftrightarrow> True"
| "readOnlyReq (RGetBucketMetadata _) \<longleftrightarrow> True"
| "readOnlyReq (RGetBucketStoragePolicy _) \<longleftrightarrow> True"
| "readOnlyReq (RGetBucketAcl _) \<longleftrightarrow> True"
| "readOnlyReq (RGetBucketVersioning _) \<longleftrightarrow> True"
| "readOnlyReq (RGetBucketTagging _) \<longleftrightarrow> True"
| "readOnlyReq (RGetBucketLogging _) \<longleftrightarrow> True"
| "readOnlyReq (RGetBucketEncryption _) \<longleftrightarrow> True"
| "readOnlyReq (RListVersions _) \<longleftrightarrow> True"
| "readOnlyReq _ \<longleftrightarrow> False"

text \<open>Options of the SDK's client constructor that the operator passes.\<close>

datatype obs_option = WithSecurityToken string | WithSignatureObs | WithRegion string

datatype 'c event =
    GetBucketEv NamespacedName "error + Bucket"
  | GetProviderConfigEv NamespacedName "error + ProviderConfig"
  | GetSecretEv NamespacedName "error + Secret"
  | PatchBucketEv Bucket Bucket "error option" \<comment> \<open>original, modified, failure\<close>
  | PatchBucketStatusEv Bucket Bucket "error option"
  | PatchProviderConfigStatusEv ProviderConfig ProviderConfig "error option"
  | ListBucketsEv string string string
  | ListProviderConfigsEv string string string
  | NewClientEv Credentials string string "error + 'c option"
  | CloseClientEv 'c
  | ObsEv "'c option" obs_req "error option" \<comment> \<open>client, request, failure\<close>

type_synonym ('w, 'a) action = "'w \<Rightarrow> (error + 'a) \<times> 'w"

section \<open>The environment\<close>

record k8s_lib =
  IsNotFound :: "error \<Rightarrow> bool"
  ContainsFinalizer :: "string list \<Rightarrow> string \<Rightarrow> bool"
  AddFinalizer :: "string list \<Rightarrow> string \<Rightarrow> string list"
  RemoveFinalizer :: "string list \<Rightarrow> string \<Rightarrow> string list"
  SetStatusCondition :: "time \<Rightarrow> Condition list \<Rightarrow> Condition \<Rightarrow> Condition list"

record 'w k8s_api =
  apiGetBucket :: "NamespacedName \<Rightarrow> ('w, Bucket) action"
  apiGetProviderConfig :: "NamespacedName \<Rightarrow> ('w, ProviderConfig) action"
  apiGetSecret :: "NamespacedName \<Rightarrow> ('w, Secret) action"
  apiPatchBucket :: "Bucket \<Rightarrow> Bucket \<Rightarrow> ('w, Bucket) action"
  apiPatchBucketStatus :: "Bucket \<Rightarrow> Bucket \<Rightarrow> ('w, Bucket) action"
  apiPatchProviderConfigStatus :: "ProviderConfig \<Rightarrow> ProviderConfig \<Rightarrow> ('w, ProviderConfig) action"
  apiListBucketResources :: "string \<Rightarrow> string \<Rightarrow> string \<Rightarrow> ('w, Bucket list) action"
  apiListProviderConfigs :: "string \<Rightarrow> string \<Rightarrow> string \<Rightarrow> ('w, ProviderConfig list) action"
  apiNow :: "'w \<Rightarrow> time \<times> 'w"
  apiCtxErr :: "'w \<Rightarrow> error option \<times> 'w"

record ('c, 'w) obs_api =
  apiNew :: "string \<Rightarrow> string \<Rightarrow> string \<Rightarrow> obs_option list \<Rightarrow> ('w, 'c option) action"
  apiClose :: "'c \<Rightarrow> 'w \<Rightarrow> 'w"
  apiListBuckets :: "'c option \<Rightarrow> ('w, unit) action"
  apiGetBucketMetadata :: "'c option \<Rightarrow> string \<Rightarrow> ('w, GetBucketMetadataOutput) action"
  apiCreateBucket :: "'c option \<Rightarrow> CreateBucketInput \<Rightarrow> ('w, unit) action"
  apiDeleteBucket :: "'c option \<Rightarrow> string \<Rightarrow> ('w, unit) action"
  apiGetBucketStoragePolicy :: "'c option \<Rightarrow> string \<Rightarrow> ('w, string) action"
  apiSetBucketStoragePolicy :: "'c option \<Rightarrow> string \<Rightarrow> string \<Rightarrow> ('w, unit) action"
  apiGetBucketAcl :: "'c option \<Rightarrow> string \<Rightarrow> ('w, GetBucketAclOutput option) action"
  apiSetBucketAcl :: "'c option \<Rightarrow> string \<Rightarrow> string \<Rightarrow> ('w, unit) action"
  apiGetBucketVersioning :: "'c option \<Rightarrow> string \<Rightarrow> ('w, string) action"
  apiSetBucketVersioning :: "'c option \<Rightarrow> string \<Rightarrow> string \<Rightarrow> ('w, unit) action"
  apiGetBucketTagging :: "'c option \<Rightarrow> string \<Rightarrow> ('w, Tag list) action"
  apiSetBucketTagging :: "'c option \<Rightarrow> string \<Rightarrow> Tag list \<Rightarrow> ('w, unit) action"
  apiDeleteBucketTagging :: "'c option \<Rightarrow> string \<Rightarrow> ('w, unit) action"
  apiGetBucketLogging :: "'c option \<Rightarrow> string \<Rightarrow> ('w, BucketLoggingStatus option) action"
  apiSetBucketLogging :: "'c option \<Rightarrow> SetBucketLoggingConfigurationInput \<Rightarrow> ('w, unit) action"
  apiGetBucketEncryption :: "'c option \<Rightarrow> string \<Rightarrow> ('w, BucketEncryptionConfiguration option) action"
  apiSetBucketEncryption :: "'c option \<Rightarrow> string \<Rightarrow> BucketEncryptionConfiguration \<Rightarrow> ('w, unit) action"
  apiDeleteBucketEncryption :: "'c option \<Rightarrow> string \<Rightarrow> ('w, unit) action"
  apiListVersions :: "'c option \<Rightarrow> string \<Rightarrow> ('w, ListVersionsOutput) action"
  apiDeleteObjects :: "'c option \<Rightarrow> string \<Rightarrow> ObjectToDelete list \<Rightarrow> ('w, DeleteObjectsOutput) action"

record ('c, 'w) env =
  sdk :: obs_consts
  lib :: k8s_lib
  k8s :: "'w k8s_api"
  obs :: "('c, 'w) obs_api"
  urllib :: url_lib

record ('c, 'w) st =
  stWorld :: 'w
  stCache :: "('c, 'w) Cache option"
  stTrace :: "'c event list"

type_synonym ('c, 'w, 'a) prog = "(('c, 'w) st, 'a) state"

section \<open>Performing calls\<close>

definition call :: "('w \<Rightarrow> 'a \<times> 'w) \<Rightarrow> ('a \<Rightarrow> 'c event) \<Rightarrow> ('c, 'w, 'a) prog" where
  "call f ev = State (\<lambda>s. case f (stWorld s) of
     (r, w) \<Rightarrow> (r, s\<lparr>stWorld := w, stTrace := stTrace s @ [ev r]\<rparr>))"

fun failure :: "error + 'a \<Rightarrow> error option" where
  "failure (Inl e) = Some e"
| "failure (Inr _) = None"

definition obsCall :: "'c option \<Rightarrow> obs_req \<Rightarrow> ('w, 'a) action \<Rightarrow> ('c, 'w, error + 'a) prog" where
  "obsCall c req f = call f (\<lambda>r. ObsEv c req (failure r))"

text \<open>Reading the clock or the context leaves no event.\<close>

definition quiet :: "('w \<Rightarrow> 'a \<times> 'w) \<Rightarrow> ('c, 'w, 'a) prog" where
  "quiet f = State (\<lambda>s. case f (stWorld s) of (r, w) \<Rightarrow> (r, s\<lparr>stWorld := w\<rparr>))"

definition getCache :: "('c, 'w, ('c, 'w) Cache option) prog" where
  "getCache = State (\<lambda>s. (stCache s, s))"

definition setCache :: "('c, 'w) Cache option \<Rightarrow> ('c, 'w, unit) prog" where
  "setCache c = State (\<lambda>s. ((), s\<lparr>stCache := c\<rparr>))"

lemma run_call: "run_state (call f ev) s =
  (case f (stWorld s) of (r, w) \<Rightarrow> (r, s\<lparr>stWorld := w, stTrace := stTrace s @ [ev r]\<rparr>))"
  by (simp add: call_def)

lemma run_obsCall: "run_state (obsCall c req f) s =
  (case f (stWorld s) of
     (r, w) \<Rightarrow> (r, s\<lparr>stWorld := w, stTrace := stTrace s @ [ObsEv c req (failure r)]\<rparr>))"
  by (simp add: obsCall_def run_call)

lemma run_quiet: "run_state (quiet f) s = (case f (stWorld s) of (r, w) \<Rightarrow> (r, s\<lparr>stWorld := w\<rparr>))"
  by (simp add: quiet_def)

lemma run_getCache: "run_state getCache s = (stCache s, s)"
  by (simp add: getCache_def)

lemma run_setCache: "run_state (setCache c) s = ((), s\<lparr>stCache := c\<rparr>)"
  by (simp add: setCache_def)

lemmas run_prims = run_call run_obsCall run_quiet run_getCache run_setCache

lemma run_obsCallD:
  "run_state (obsCall c q f) s = (r, t) \<Longrightarrow>
     \<exists>w. f (stWorld s) = (r, w) \<and> t = s\<lparr>stWorld := w, stTrace := stTrace s @ [ObsEv c q (failure r)]\<rparr>"
  by (auto simp: run_obsCall split: prod.splits)

lemma run_obsCall_bindD:
  "run_state (State_Monad.bind (obsCall c q f) k) s = (x, t) \<Longrightarrow>
     \<exists>r w. f (stWorld s) = (r, w) \<and>
       run_state (k r) (s\<lparr>stWorld := w, stTrace := stTrace s @ [ObsEv c q (failure r)]\<rparr>) = (x, t)"
  by (auto simp: run_obsCall split: prod.splits)

lemma failure_eq_None_iff: "failure r = None \<longleftrightarrow> (\<exists>x. r = Inr x)"
  by (cases r) auto

lemma failure_eq_Some_iff: "failure r = Some e \<longleftrightarrow> r = Inl e"
  by (cases r) auto

section \<open>What a program emits\<close>

text \<open>
  \<open>emits m Q\<close>: whatever the environment does, a run of \<open>m\<close> only extends the trace, and its result
  and the events it adds satisfy \<open>Q\<close>. The rules below are a verification condition generator for
  such statements: \<open>emits_bind\<close> needs no intermediate assertion.
\<close>

definition emits :: "('c, 'w, 'a) prog \<Rightarrow> ('a \<Rightarrow> 'c event list \<Rightarrow> bool) \<Rightarrow> bool" where
  "emits m Q \<longleftrightarrow> (\<forall>s x t. run_state m s = (x, t) \<longrightarrow> (\<exists>evs. stTrace t = stTrace s @ evs \<and> Q x evs))"

definition emitted :: "('c, 'w, 'a) prog \<Rightarrow> ('c, 'w) st \<Rightarrow> 'c event list" where
  "emitted m s = drop (length (stTrace s)) (stTrace (snd (run_state m s)))"

named_theorems emits_intros \<open>rules for what programs emit\<close>

lemma emitsD: "emits m Q \<Longrightarrow> run_state m s = (x, t) \<Longrightarrow> \<exists>evs. stTrace t = stTrace s @ evs \<and> Q x evs"
  by (simp add: emits_def)

lemma emits_return [emits_intros]: "Q x [] \<Longrightarrow> emits (ret x) Q"
  by (auto simp: emits_def)

lemma emits_bind [emits_intros]:
  assumes "emits m (\<lambda>x e1. emits (k x) (\<lambda>y e2. Q y (e1 @ e2)))"
  shows "emits (State_Monad.bind m k) Q"
  unfolding emits_def
proof (intro allI impI)
  fix s y u
  assume "run_state (State_Monad.bind m k) s = (y, u)"
  then obtain x t where 1: "run_state m s = (x, t)" and 2: "run_state (k x) t = (y, u)"
    by (auto split: prod.splits)
  from assms 1 obtain e1 where e1: "stTrace t = stTrace s @ e1"
    and k: "emits (k x) (\<lambda>y e2. Q y (e1 @ e2))"
    by (blast dest: emitsD)
  from k 2 obtain e2 where "stTrace u = stTrace t @ e2" "Q y (e1 @ e2)"
    by (blast dest: emitsD)
  with e1 show "\<exists>evs. stTrace u = stTrace s @ evs \<and> Q y evs" by auto
qed

lemma emits_call [emits_intros]: "(\<And>r. Q r [ev r]) \<Longrightarrow> emits (call f ev) Q"
  by (auto simp: emits_def run_call split: prod.splits)

lemma emits_obsCall [emits_intros]:
  "(\<And>r. Q r [ObsEv c req (failure r)]) \<Longrightarrow> emits (obsCall c req f) Q"
  by (simp add: obsCall_def emits_call)

lemma emits_quiet [emits_intros]: "(\<And>r. Q r []) \<Longrightarrow> emits (quiet f) Q"
  by (auto simp: emits_def run_quiet split: prod.splits)

lemma emits_getCache [emits_intros]: "(\<And>c. Q c []) \<Longrightarrow> emits getCache Q"
  by (auto simp: emits_def run_getCache)

lemma emits_setCache [emits_intros]: "Q () [] \<Longrightarrow> emits (setCache c) Q"
  by (auto simp: emits_def run_setCache)

lemma emits_if [emits_intros]:
  "(b \<Longrightarrow> emits m Q) \<Longrightarrow> (\<not> b \<Longrightarrow> emits n Q) \<Longrightarrow> emits (if b then m else n) Q"
  by simp

lemma emits_case_sum [emits_intros]:
  "(\<And>e. r = Inl e \<Longrightarrow> emits (f e) Q) \<Longrightarrow> (\<And>x. r = Inr x \<Longrightarrow> emits (g x) Q) \<Longrightarrow>
   emits (case r of Inl e \<Rightarrow> f e | Inr x \<Rightarrow> g x) Q"
  by (simp split: sum.splits)

lemma emits_case_option [emits_intros]:
  "(r = None \<Longrightarrow> emits f Q) \<Longrightarrow> (\<And>x. r = Some x \<Longrightarrow> emits (g x) Q) \<Longrightarrow>
   emits (case r of None \<Rightarrow> f | Some x \<Rightarrow> g x) Q"
  by (simp split: option.splits)

lemma emits_case_prod [emits_intros]:
  "(\<And>x y. p = (x, y) \<Longrightarrow> emits (f x y) Q) \<Longrightarrow> emits (case p of (x, y) \<Rightarrow> f x y) Q"
  by (simp split: prod.splits)

lemma emits_let [emits_intros]: "emits (f x) Q \<Longrightarrow> emits (Let x f) Q"
  by simp

lemma emits_mono: "emits m R \<Longrightarrow> (\<And>x evs. R x evs \<Longrightarrow> Q x evs) \<Longrightarrow> emits m Q"
  unfolding emits_def by meson

lemma emits_conj: "emits m Q \<Longrightarrow> emits m R \<Longrightarrow> emits m (\<lambda>x evs. Q x evs \<and> R x evs)"
  unfolding emits_def by (metis same_append_eq)

lemma emits_emitted: "emits m Q \<Longrightarrow> Q (fst (run_state m s)) (emitted m s)"
  unfolding emits_def emitted_def
  by (metis append_eq_conv_conj prod.collapse)

lemma emits_run:
  "emits m Q \<Longrightarrow> run_state m s = (x, t) \<Longrightarrow> stTrace t = stTrace s @ emitted m s \<and> Q x (emitted m s)"
  using emits_emitted [of m Q s] unfolding emits_def emitted_def
  by (metis append_eq_conv_conj fst_conv snd_conv)

text \<open>Every event a program emits satisfies a predicate.\<close>

abbreviation emitsOnly :: "('c event \<Rightarrow> bool) \<Rightarrow> ('c, 'w, 'a) prog \<Rightarrow> bool" where
  "emitsOnly P m \<equiv> emits m (\<lambda>_ evs. list_all P evs)"

lemma emitsOnly_emitted: "emitsOnly P m \<Longrightarrow> e \<in> set (emitted m s) \<Longrightarrow> P e"
  using emits_emitted [of m "\<lambda>_ evs. list_all P evs" s] by (auto simp: list_all_iff)

text \<open>The OBS requests of a trace.\<close>

fun obsRequests :: "'c event list \<Rightarrow> obs_req list" where
  "obsRequests [] = []"
| "obsRequests (ObsEv _ q _ # evs) = q # obsRequests evs"
| "obsRequests (_ # evs) = obsRequests evs"

lemma obsRequests_set: "set (obsRequests evs) = {q. \<exists>c x. ObsEv c q x \<in> set evs}"
  by (induction evs rule: obsRequests.induct) auto

end
