(* ===== verification/BucketErrors.thy ===== *)
theory BucketErrors
  imports World
begin

text \<open>
  The error classification of \<open>internal/controller/bucket_controller.go\<close>: the predicates on OBS
  errors, the test whether a reconcile error is one the user must correct (so that it is reported
  and not retried), and the \<open>Ready\<close> condition an error is turned into.
\<close>

section \<open>Constants\<close>

definition bucketFinalizer :: string where
  "bucketFinalizer = ''buckets.obs.wilaris.de/finalizer''"

definition bucketReadyCondition :: string where
  "bucketReadyCondition = ''Ready''"

definition conditionReasonCredentialsSecretNotFound :: string where
  "conditionReasonCredentialsSecretNotFound = ''CredentialsSecretNotFound''"

definition obsBucketAlreadyExistsCode :: string where
  "obsBucketAlreadyExistsCode = ''BucketAlreadyExists''"

definition obsBucketAlreadyOwnedByYou :: string where
  "obsBucketAlreadyOwnedByYou = ''BucketAlreadyOwnedByYou''"

definition obsNoSuchTagSetCode :: string where
  "obsNoSuchTagSetCode = ''NoSuchTagSet''"

definition obsNoSuchEncryptionConfigCode :: string where
  "obsNoSuchEncryptionConfigCode = ''NoSuchEncryptionConfiguration''"

definition obsFsNotSupportCode :: string where
  "obsFsNotSupportCode = ''FsNotSupport''"

section \<open>Predicates on OBS errors\<close>

definition isBucketNotFound :: "error \<Rightarrow> bool" where
  "isBucketNotFound err =
     (case errorsAsObs err of
        None \<Rightarrow> False
      | Some obsErr \<Rightarrow> oeStatusCode obsErr = 404 \<or> oeCode obsErr = ''NoSuchBucket'')"

definition isBucketCode :: "error \<Rightarrow> string \<Rightarrow> bool" where
  "isBucketCode err code =
     (case errorsAsObs err of None \<Rightarrow> False | Some obsErr \<Rightarrow> oeCode obsErr = code)"

definition isBucketNotEmpty :: "error \<Rightarrow> bool" where
  "isBucketNotEmpty err = isBucketCode err ''BucketNotEmpty''"

definition isCreateBucketConflict :: "error \<Rightarrow> bool" where
  "isCreateBucketConflict err =
     (case errorsAsObs err of
        None \<Rightarrow> False
      | Some obsErr \<Rightarrow>
          oeStatusCode obsErr = 409 \<or> oeCode obsErr = obsBucketAlreadyExistsCode \<or>
          oeCode obsErr = obsBucketAlreadyOwnedByYou)"

definition isNonRetryableOBSRequestError :: "error \<Rightarrow> bool" where
  "isNonRetryableOBSRequestError err =
     (case errorsAsObs err of
        None \<Rightarrow> False
      | Some obsErr \<Rightarrow>
          if oeStatusCode obsErr \<in> set [404, 408, 409, 429] then False
          else 400 \<le> oeStatusCode obsErr \<and> oeStatusCode obsErr < 500)"

lemmas obsErrorTests = isBucketNotFound_def isBucketCode_def isBucketNotEmpty_def
  isCreateBucketConflict_def isNonRetryableOBSRequestError_def

text \<open>The tests look through wrapping, as \<open>errors.As\<close> does.\<close>

lemma obsErrorTests_wrapf [simp]:
  "isBucketNotFound (wrapf p e) = isBucketNotFound e"
  "isBucketCode (wrapf p e) code = isBucketCode e code"
  "isBucketNotEmpty (wrapf p e) = isBucketNotEmpty e"
  "isCreateBucketConflict (wrapf p e) = isCreateBucketConflict e"
  "isNonRetryableOBSRequestError (wrapf p e) = isNonRetryableOBSRequestError e"
  by (simp_all add: obsErrorTests)

section \<open>Errors the user has to correct\<close>

definition isUserCorrectableBucketErrorType :: "error \<Rightarrow> bool" where
  "isUserCorrectableBucketErrorType err \<longleftrightarrow>
     errorsIs err ErrProviderConfigNotFound \<or>
     errorsIs err ErrCredentialsSecretNotFound \<or>
     errorsIs err ErrMissingCredentials \<or>
     errorsIs err ErrInvalidEndpoint \<or>
     errorsIs err ErrBucketAlreadyExists \<or>
     isNonRetryableOBSRequestError err"

fun isMultiError :: "error \<Rightarrow> bool" where
  "isMultiError (WrapErrs _ _) \<longleftrightarrow> True"
| "isMultiError (JoinErr _) \<longleftrightarrow> True"
| "isMultiError _ \<longleftrightarrow> False"

text \<open>
  The recursion of \<open>isUserCorrectableBucketError\<close> and \<open>allBucketErrorsUserCorrectable\<close> on a
  non-nil error: a multi-error needs all its children correctable, a wrapped multi-error is its
  child, any other wrapper is tested itself before its child.
\<close>

fun correctable :: "error \<Rightarrow> bool"
  and allBucketErrorsUserCorrectable :: "error list \<Rightarrow> bool" where
  "correctable (WrapErrs _ es) \<longleftrightarrow> es \<noteq> [] \<and> allBucketErrorsUserCorrectable es"
| "correctable (JoinErr es) \<longleftrightarrow> es \<noteq> [] \<and> allBucketErrorsUserCorrectable es"
| "correctable (WrapErr t e) \<longleftrightarrow>
     (if isMultiError e then correctable e
      else if isUserCorrectableBucketErrorType (WrapErr t e) then True
      else correctable e)"
| "correctable (ResolutionNotFound k e) \<longleftrightarrow>
     (if isMultiError e then correctable e
      else if isUserCorrectableBucketErrorType (ResolutionNotFound k e) then True
      else correctable e)"
| "correctable (Sentinel s) \<longleftrightarrow> isUserCorrectableBucketErrorType (Sentinel s)"
| "correctable (ObsErr x) \<longleftrightarrow> isUserCorrectableBucketErrorType (ObsErr x)"
| "correctable (ApiStatusErr r t) \<longleftrightarrow> isUserCorrectableBucketErrorType (ApiStatusErr r t)"
| "correctable (LeafErr t) \<longleftrightarrow> isUserCorrectableBucketErrorType (LeafErr t)"
| "allBucketErrorsUserCorrectable [] \<longleftrightarrow> True"
| "allBucketErrorsUserCorrectable (e # es) \<longleftrightarrow> correctable e \<and> allBucketErrorsUserCorrectable es"

definition isUserCorrectableBucketError :: "error option \<Rightarrow> bool" where
  "isUserCorrectableBucketError err = (case err of None \<Rightarrow> False | Some e \<Rightarrow> correctable e)"

section \<open>The Ready condition\<close>

definition bucketReadyConditionMessage :: "error \<Rightarrow> string" where
  "bucketReadyConditionMessage err =
     (case errorsAsObs err of
        None \<Rightarrow> errText err
      | Some obsErr \<Rightarrow> if oeMessage obsErr \<noteq> [] then oeMessage obsErr else errText err)"

definition bucketReadyReason :: "k8s_lib \<Rightarrow> error \<Rightarrow> string" where
  "bucketReadyReason L err =
     (if errorsIs err ErrProviderConfigNotFound then ''ProviderConfigNotFound''
      else if errorsIs err ErrCredentialsSecretNotFound then conditionReasonCredentialsSecretNotFound
      else if IsNotFound L err then ''ProviderConfigNotFound''
      else if errorsIs err ErrMissingCredentials then ''CredentialsSecretInvalid''
      else if errorsIs err ErrInvalidEndpoint then ''InvalidEndpoint''
      else if errorsIs err ErrBucketAlreadyExists then ''BucketAlreadyExists''
      else if isBucketNotEmpty err then ''BucketNotEmpty''
      else if isBucketNotFound err then ''BucketNotFound''
      else if isNonRetryableOBSRequestError err then ''RequestRejected''
      else ''ReconcileFailed'')"

definition bucketReadyStatusCondition :: "k8s_lib \<Rightarrow> Bucket \<Rightarrow> error option \<Rightarrow> Condition" where
  "bucketReadyStatusCondition L bucket err =
     (let condition =
        \<lparr>cType = bucketReadyCondition, cStatus = ConditionTrue,
         cObservedGeneration = Generation (bMeta bucket), cLastTransitionTime = 0,
         cReason = ''BucketReady'', cMessage = ''OBS bucket is reconciled''\<rparr>
      in case err of
           None \<Rightarrow> condition
         | Some e \<Rightarrow>
             condition\<lparr>cStatus := ConditionFalse, cMessage := bucketReadyConditionMessage e,
                       cReason := bucketReadyReason L e\<rparr>)"

section \<open>What the classification computes\<close>

definition correctableSentinels :: "sentinel set" where
  "correctableSentinels =
     {ErrProviderConfigNotFound, ErrCredentialsSecretNotFound, ErrMissingCredentials,
      ErrInvalidEndpoint, ErrBucketAlreadyExists}"

lemma correctableType_iff:
  "isUserCorrectableBucketErrorType e \<longleftrightarrow>
     (\<exists>s \<in> correctableSentinels. Sentinel s \<in> set (errNodes e)) \<or> isNonRetryableOBSRequestError e"
  by (auto simp: isUserCorrectableBucketErrorType_def correctableSentinels_def errorsIs_iff_node)

lemma correctable_all_iff: "allBucketErrorsUserCorrectable es \<longleftrightarrow> (\<forall>e \<in> set es. correctable e)"
  by (induction es) auto

lemma errChain_not_multi: "errChain e \<Longrightarrow> \<not> isMultiError e"
  by (cases e) auto

text \<open>On a chain of wrapped errors the test is just the type test of the outermost error.\<close>

lemma correctable_chain: "errChain e \<Longrightarrow> correctable e \<longleftrightarrow> isUserCorrectableBucketErrorType e"
proof (induction e rule: errChain.induct)
  case (1 t e)
  then show ?case
    using errChain_not_multi [of e]
    by (auto simp: correctableType_iff isNonRetryableOBSRequestError_def)
next
  case (2 k e)
  then show ?case
    using errChain_not_multi [of e]
    by (auto simp: correctableType_iff isNonRetryableOBSRequestError_def)
qed auto

lemma correctable_wrapf_chain: "errChain e \<Longrightarrow> correctable (wrapf p e) = correctable e"
  by (simp add: wrapf_def correctable_chain correctableType_iff isNonRetryableOBSRequestError_def
      errChain_not_multi)

lemma nonRetryable_firstSome:
  assumes "es \<noteq> []" "\<forall>e \<in> set es. \<exists>x. errorsAsObs e = Some x \<and> isNonRetryableOBSRequestError (ObsErr x)"
  shows "\<exists>x. firstSome (map errorsAsObs es) = Some x \<and> isNonRetryableOBSRequestError (ObsErr x)"
  using assms by (cases es) auto

text \<open>
  A correctable error without one of the sentinels owes it to its first OBS error, at whatever
  depth the multi-errors are.
\<close>

lemma correctable_obs:
  "correctable e \<Longrightarrow> (\<forall>s \<in> correctableSentinels. Sentinel s \<notin> set (errNodes e)) \<Longrightarrow>
     \<exists>x. errorsAsObs e = Some x \<and> isNonRetryableOBSRequestError (ObsErr x)"
  "allBucketErrorsUserCorrectable es \<Longrightarrow>
     (\<forall>e \<in> set es. \<forall>s \<in> correctableSentinels. Sentinel s \<notin> set (errNodes e)) \<Longrightarrow>
     \<forall>e \<in> set es. \<exists>x. errorsAsObs e = Some x \<and> isNonRetryableOBSRequestError (ObsErr x)"
proof (induction e and es rule: correctable_allBucketErrorsUserCorrectable.induct)
  case (1 t es)
  then show ?case by (auto intro!: nonRetryable_firstSome)
next
  case (2 es)
  then show ?case by (auto intro!: nonRetryable_firstSome)
next
  case (3 t e)
  then show ?case
    by (auto simp: correctableType_iff isNonRetryableOBSRequestError_def
        split: if_splits option.splits)
next
  case (4 k e)
  then show ?case
    by (auto simp: correctableType_iff isNonRetryableOBSRequestError_def
        split: if_splits option.splits)
qed (auto simp: correctableType_iff isNonRetryableOBSRequestError_def)

lemma correctable_reason:
  assumes "correctable e"
  shows "bucketReadyReason L e \<noteq> ''ReconcileFailed''"
proof (cases "\<exists>s \<in> correctableSentinels. Sentinel s \<in> set (errNodes e)")
  case True
  then show ?thesis
    by (auto simp: bucketReadyReason_def correctableSentinels_def errorsIs_iff_node
        conditionReasonCredentialsSecretNotFound_def)
next
  case False
  with assms obtain x where "errorsAsObs e = Some x" "isNonRetryableOBSRequestError (ObsErr x)"
    using correctable_obs(1) by blast
  then have "isNonRetryableOBSRequestError e"
    by (simp add: isNonRetryableOBSRequestError_def)
  then show ?thesis
    by (simp add: bucketReadyReason_def conditionReasonCredentialsSecretNotFound_def)
qed

end
