(* ===== verification/BucketAcl.thy ===== *)
theory BucketAcl
  imports ApiTypes
begin

text \<open>
  Recognising a canned ACL in the grants OBS returns: \<open>flattenObsBucketCannedACL\<close>,
  \<open>obsBucketACLMatches\<close> and \<open>normalizeObsBucketGrantURI\<close> of \<open>bucket_controller.go\<close>.

  The lemmas characterise the recogniser: it accepts a grant list for a canned ACL exactly when the
  list has the length of the canned grant set and its signatures are that set, in any order. So a
  bucket reported \<open>private\<close> grants nothing to anybody but its owner, and the grants OBS sets for a
  canned ACL are recognised however they are ordered and whichever form of group URI is returned.
\<close>

record obsBucketGrantSignature =
  sigGranteeType :: string
  sigGranteeID :: string
  sigGranteeURI :: string
  sigPermission :: string
  sigDelivered :: bool

definition normalizeObsBucketGrantURI :: "obs_consts \<Rightarrow> string \<Rightarrow> string \<Rightarrow> string" where
  "normalizeObsBucketGrantURI K granteeType granteeURI =
     (if granteeType = GranteeUser K then []
      else if granteeURI = [] then []
      else last (Split (CHR ''/'') granteeURI))"

definition grantSignature :: "obs_consts \<Rightarrow> Grant \<Rightarrow> obsBucketGrantSignature" where
  "grantSignature K grant =
     \<lparr>sigGranteeType = granteeTypeOf (grantGrantee grant),
      sigGranteeID = granteeIDOf (grantGrantee grant),
      sigGranteeURI = normalizeObsBucketGrantURI K (granteeTypeOf (grantGrantee grant))
        (granteeURIOf (grantGrantee grant)),
      sigPermission = grantPermission grant,
      sigDelivered = grantDelivered grant\<rparr>"

definition obsBucketACLMatches :: "obs_consts \<Rightarrow> Grant list \<Rightarrow> obsBucketGrantSignature list \<Rightarrow> bool" where
  "obsBucketACLMatches K actual expected \<longleftrightarrow>
     (if length actual \<noteq> length expected then False
      else list_all (\<lambda>sig. sig \<in> set (map (grantSignature K) actual)) expected)"

definition ownerGrant :: "obs_consts \<Rightarrow> string \<Rightarrow> obsBucketGrantSignature" where
  "ownerGrant K owner =
     \<lparr>sigGranteeType = GranteeUser K, sigGranteeID = owner, sigGranteeURI = [],
      sigPermission = PermissionFullControl K, sigDelivered = False\<rparr>"

definition groupGrant :: "obs_consts \<Rightarrow> string \<Rightarrow> string \<Rightarrow> obsBucketGrantSignature" where
  "groupGrant K grp permission =
     \<lparr>sigGranteeType = GranteeGroup K, sigGranteeID = [], sigGranteeURI = grp,
      sigPermission = permission, sigDelivered = False\<rparr>"

definition flattenObsBucketCannedACL ::
  "obs_consts \<Rightarrow> GetBucketAclOutput option \<Rightarrow> string option" where
  "flattenObsBucketCannedACL K out =
     (case out of
        None \<Rightarrow> None
      | Some acl \<Rightarrow>
          if aclOwnerID acl = [] then None
          else
            let owner = ownerGrant K (aclOwnerID acl);
                publicRead = groupGrant K (GroupAllUsers K) (PermissionRead K);
                publicWrite = groupGrant K (GroupAllUsers K) (PermissionWrite K);
                logDeliveryWrite = groupGrant K (GroupLogDelivery K) (PermissionWrite K);
                logDeliveryReadACP = groupGrant K (GroupLogDelivery K) (PermissionReadAcp K);
                grants = aclGrants acl
            in if obsBucketACLMatches K grants [owner] then Some (AclPrivate K)
               else if obsBucketACLMatches K grants [owner, publicRead] then Some (AclPublicRead K)
               else if obsBucketACLMatches K grants [owner, publicRead, publicWrite]
                 then Some (AclPublicReadWrite K)
               else if obsBucketACLMatches K grants [owner, logDeliveryWrite, logDeliveryReadACP]
                 then Some (AclLogDeliveryWrite K)
               else None)"

section \<open>The grants of a canned ACL\<close>

text \<open>The signatures a canned ACL stands for, by its name.\<close>

definition cannedSignatures :: "obs_consts \<Rightarrow> string \<Rightarrow> string \<Rightarrow> obsBucketGrantSignature list option" where
  "cannedSignatures K owner acl =
     (if acl = AclPrivate K then Some [ownerGrant K owner]
      else if acl = AclPublicRead K
        then Some [ownerGrant K owner, groupGrant K (GroupAllUsers K) (PermissionRead K)]
      else if acl = AclPublicReadWrite K
        then Some [ownerGrant K owner, groupGrant K (GroupAllUsers K) (PermissionRead K),
                   groupGrant K (GroupAllUsers K) (PermissionWrite K)]
      else if acl = AclLogDeliveryWrite K
        then Some [ownerGrant K owner, groupGrant K (GroupLogDelivery K) (PermissionWrite K),
                   groupGrant K (GroupLogDelivery K) (PermissionReadAcp K)]
      else None)"

lemmas cannedGrantDefs = ownerGrant_def groupGrant_def cannedSignatures_def

lemma cannedSignatures_distinct:
  "sdkDocumented K \<Longrightarrow> cannedSignatures K owner acl = Some sigs \<Longrightarrow> distinct sigs"
  by (auto simp: sdkDocumented_def cannedGrantDefs split: if_splits)

lemma cannedSignatures_length:
  "cannedSignatures K owner acl = Some sigs \<Longrightarrow> 0 < length sigs \<and> length sigs \<le> 3"
  by (auto simp: cannedSignatures_def split: if_splits)

text \<open>With distinct expected signatures the match is equality of the signature sets.\<close>

lemma obsBucketACLMatches_iff:
  assumes "distinct expected"
  shows "obsBucketACLMatches K actual expected \<longleftrightarrow>
    length actual = length expected \<and> set (map (grantSignature K) actual) = set expected"
  (is "?L \<longleftrightarrow> ?R")
proof
  assume ?L
  then have len: "length actual = length expected"
    and sub: "set expected \<subseteq> set (map (grantSignature K) actual)"
    by (auto simp: obsBucketACLMatches_def list_all_iff split: if_splits)
  have "set (map (grantSignature K) actual) = set expected"
    by (rule set_eq_of_distinct_subset [OF assms sub]) (simp add: len)
  with len show ?R by simp
next
  assume ?R
  then show ?L by (auto simp: obsBucketACLMatches_def list_all_iff)
qed

lemma obsBucketACLMatches_unique:
  assumes "distinct xs" "distinct ys"
    "obsBucketACLMatches K g xs" "obsBucketACLMatches K g ys"
  shows "set xs = set ys"
  using assms by (simp add: obsBucketACLMatches_iff)

lemma flatten_sound:
  assumes "sdkDocumented K" "flattenObsBucketCannedACL K (Some out) = Some acl"
  shows "\<exists>sigs. cannedSignatures K (aclOwnerID out) acl = Some sigs \<and> aclOwnerID out \<noteq> [] \<and>
    obsBucketACLMatches K (aclGrants out) sigs"
  using assms
  by (auto simp: flattenObsBucketCannedACL_def cannedSignatures_def Let_def sdkDocumented_def
      split: if_splits)

lemma cannedSignatures_set_inject:
  assumes "sdkDocumented K" "cannedSignatures K owner a = Some xs" "cannedSignatures K owner b = Some ys"
    "set xs = set ys"
  shows "a = b"
  using assms
  by (auto simp: sdkDocumented_def cannedGrantDefs doubleton_eq_iff insert_eq_iff split: if_splits)

lemma flatten_complete:
  assumes K: "sdkDocumented K" and owner: "aclOwnerID out \<noteq> []"
    and canned: "cannedSignatures K (aclOwnerID out) acl = Some sigs"
    and match: "obsBucketACLMatches K (aclGrants out) sigs"
  shows "flattenObsBucketCannedACL K (Some out) = Some acl"
proof -
  have "\<exists>acl'. flattenObsBucketCannedACL K (Some out) = Some acl'"
    using K owner canned match
    by (auto simp: flattenObsBucketCannedACL_def cannedSignatures_def Let_def split: if_splits)
  then obtain acl' where acl': "flattenObsBucketCannedACL K (Some out) = Some acl'" by blast
  from flatten_sound [OF K acl'] obtain sigs' where
    canned': "cannedSignatures K (aclOwnerID out) acl' = Some sigs'"
    and match': "obsBucketACLMatches K (aclGrants out) sigs'" by blast
  have "set sigs = set sigs'"
    by (rule obsBucketACLMatches_unique [OF cannedSignatures_distinct [OF K canned]
          cannedSignatures_distinct [OF K canned'] match match'])
  then have "acl = acl'"
    by (rule cannedSignatures_set_inject [OF K canned canned'])
  with acl' show ?thesis by simp
qed

text \<open>Group URIs are compared by their last path segment.\<close>

lemma normalize_group_uri:
  assumes "t \<noteq> GranteeUser K" "grp \<noteq> []" "CHR ''/'' \<notin> set grp"
  shows "normalizeObsBucketGrantURI K t grp = grp"
    and "normalizeObsBucketGrantURI K t (pre @ CHR ''/'' # grp) = grp"
  using assms by (simp_all add: normalizeObsBucketGrantURI_def Split_no_sep Split_append_sep)

end
