(* ===== verification/BucketSettings.thy ===== *)
theory BucketSettings
  imports BucketErrors BucketAcl
begin

text \<open>
  The desired state of a bucket and the six update steps of \<open>bucket_controller.go\<close>: each reads one
  setting from OBS, compares it with the spec and writes it only when it differs. \<open>update\<close> runs
  them in order and stops at the first error.
\<close>

section \<open>Desired values\<close>

definition bucketEncryptionAlgorithm :: string where
  "bucketEncryptionAlgorithm = ''kms''"

definition normalizeStorageClass :: "obs_consts \<Rightarrow> string \<Rightarrow> string" where
  "normalizeStorageClass K class =
     (if class = ''STANDARD_IA'' then StorageClassWarm K
      else if class = ''GLACIER'' then StorageClassCold K
      else class)"

definition bucketStorageClass :: "obs_consts \<Rightarrow> Bucket \<Rightarrow> string" where
  "bucketStorageClass K bucket =
     (if specStorageClass (bSpec bucket) = [] then StorageClassStandard K
      else specStorageClass (bSpec bucket))"

definition bucketACL :: "obs_consts \<Rightarrow> Bucket \<Rightarrow> string" where
  "bucketACL K bucket =
     (if specACL (bSpec bucket) = [] then AclPrivate K else specACL (bSpec bucket))"

definition loggingInput :: "Bucket \<Rightarrow> SetBucketLoggingConfigurationInput" where
  "loggingInput bucket =
     (let input = \<lparr>sblBucket = bucketName bucket,
                   sblStatus = \<lparr>blsTargetBucket = [], blsTargetPrefix = [], blsAgency = []\<rparr>\<rparr>
      in case specLogging (bSpec bucket) of
           None \<Rightarrow> input
         | Some l \<Rightarrow> input\<lparr>sblStatus := \<lparr>blsTargetBucket = logTargetBucket l,
             blsTargetPrefix = logTargetPrefix l, blsAgency = logAgency l\<rparr>\<rparr>)"

definition loggingMatches :: "BucketLoggingStatus option \<Rightarrow> BucketLoggingStatus \<Rightarrow> bool" where
  "loggingMatches current desired \<longleftrightarrow>
     (case current of
        None \<Rightarrow> blsTargetBucket desired = [] \<and> blsTargetPrefix desired = [] \<and> blsAgency desired = []
      | Some cur \<Rightarrow> blsTargetBucket cur = blsTargetBucket desired \<and>
          blsTargetPrefix cur = blsTargetPrefix desired \<and> blsAgency cur = blsAgency desired)"

definition encryptionConfig :: "BucketServerSideEncryptionSpec \<Rightarrow> BucketEncryptionConfiguration" where
  "encryptionConfig spec =
     \<lparr>encSSEAlgorithm = bucketEncryptionAlgorithm, encKMSMasterKeyID = sseKMSKeyID spec,
      encProjectID = sseKMSProjectID spec\<rparr>"

definition encryptionMatches ::
  "BucketEncryptionConfiguration option \<Rightarrow> BucketEncryptionConfiguration \<Rightarrow> bool" where
  "encryptionMatches current desired \<longleftrightarrow>
     (case current of
        None \<Rightarrow> False
      | Some cur \<Rightarrow> encSSEAlgorithm cur = encSSEAlgorithm desired \<and>
          encKMSMasterKeyID cur = encKMSMasterKeyID desired \<and> encProjectID cur = encProjectID desired)"

lemma sblBucket_loggingInput [simp]: "sblBucket (loggingInput b) = bucketName b"
  by (simp add: loggingInput_def Let_def split: option.splits)

section \<open>Tags\<close>

text \<open>Building the map of the tags read: a later tag with the same key replaces an earlier one.\<close>

definition tagsToMap :: "Tag list \<Rightarrow> (string, string) gomap" where
  "tagsToMap ts = fold (\<lambda>t m. AList.update (tagKey t) (tagValue t) m) ts []"

definition tagsFromMap :: "(string, string) gomap \<Rightarrow> Tag list" where
  "tagsFromMap src =
     map (\<lambda>key. \<lparr>tagKey = key, tagValue = mapLookup src key\<rparr>) (sort (map fst src))"

definition desiredTags :: "Bucket \<Rightarrow> (string, string) gomap" where
  "desiredTags bucket = (case specTags (bSpec bucket) of None \<Rightarrow> [] | Some m \<Rightarrow> m)"

definition bucketTags :: "('c, 'w) env \<Rightarrow> 'c option \<Rightarrow> string \<Rightarrow>
    ('c, 'w, error + (string, string) gomap) prog" where
  "bucketTags E c nm = do {
     r \<leftarrow> obsCall c (RGetBucketTagging nm) (apiGetBucketTagging (obs E) c nm);
     ret (case r of
            Inl err \<Rightarrow> if isBucketCode err obsNoSuchTagSetCode \<or> isBucketNotFound err then Inr []
                      else Inl (wrapf ''read bucket tags: '' err)
          | Inr tags \<Rightarrow> Inr (tagsToMap tags))
   }"

section \<open>The update steps\<close>

definition reconcileBucketStorageClass ::
  "('c, 'w) env \<Rightarrow> 'c option \<Rightarrow> Bucket \<Rightarrow> ('c, 'w, error option) prog" where
  "reconcileBucketStorageClass E c bucket = do {
     let desired = normalizeStorageClass (sdk E) (bucketStorageClass (sdk E) bucket);
     r \<leftarrow> obsCall c (RGetBucketStoragePolicy (bucketName bucket))
           (apiGetBucketStoragePolicy (obs E) c (bucketName bucket));
     case r of
       Inl err \<Rightarrow> ret (Some (wrapf ''read bucket storage class: '' err))
     | Inr current \<Rightarrow>
         if normalizeStorageClass (sdk E) current = desired then ret None
         else do {
           w \<leftarrow> obsCall c (RSetBucketStoragePolicy (bucketName bucket) desired)
                 (apiSetBucketStoragePolicy (obs E) c (bucketName bucket) desired);
           case w of
             Inl err \<Rightarrow> ret (Some (wrapf ''set bucket storage class: '' err))
           | Inr _ \<Rightarrow> ret None
         }
   }"

definition reconcileBucketACL ::
  "('c, 'w) env \<Rightarrow> 'c option \<Rightarrow> Bucket \<Rightarrow> ('c, 'w, error option) prog" where
  "reconcileBucketACL E c bucket = do {
     let desired = bucketACL (sdk E) bucket;
     r \<leftarrow> obsCall c (RGetBucketAcl (bucketName bucket)) (apiGetBucketAcl (obs E) c (bucketName bucket));
     case r of
       Inl err \<Rightarrow> ret (Some (wrapf ''read bucket acl: '' err))
     | Inr current \<Rightarrow>
         if flattenObsBucketCannedACL (sdk E) current = Some desired then ret None
         else do {
           w \<leftarrow> obsCall c (RSetBucketAcl (bucketName bucket) desired)
                 (apiSetBucketAcl (obs E) c (bucketName bucket) desired);
           case w of
             Inl err \<Rightarrow> ret (Some (wrapf ''set bucket acl: '' err))
           | Inr _ \<Rightarrow> ret None
         }
   }"

definition reconcileBucketVersioning ::
  "('c, 'w) env \<Rightarrow> 'c option \<Rightarrow> Bucket \<Rightarrow> ('c, 'w, error option) prog" where
  "reconcileBucketVersioning E c bucket = do {
     let desired = (if specVersioning (bSpec bucket) then VersioningStatusEnabled (sdk E)
                    else VersioningStatusSuspended (sdk E));
     r \<leftarrow> obsCall c (RGetBucketVersioning (bucketName bucket))
           (apiGetBucketVersioning (obs E) c (bucketName bucket));
     case r of
       Inl err \<Rightarrow> ret (Some (wrapf ''read bucket versioning: '' err))
     | Inr current \<Rightarrow>
         if current = desired then ret None
         else do {
           w \<leftarrow> obsCall c (RSetBucketVersioning (bucketName bucket) desired)
                 (apiSetBucketVersioning (obs E) c (bucketName bucket) desired);
           case w of
             Inl err \<Rightarrow> ret (Some (wrapf ''set bucket versioning: '' err))
           | Inr _ \<Rightarrow> ret None
         }
   }"

definition reconcileBucketTags ::
  "('c, 'w) env \<Rightarrow> 'c option \<Rightarrow> Bucket \<Rightarrow> ('c, 'w, error option) prog" where
  "reconcileBucketTags E c bucket = do {
     let desired = desiredTags bucket;
     r \<leftarrow> bucketTags E c (bucketName bucket);
     case r of
       Inl err \<Rightarrow> ret (Some err)
     | Inr current \<Rightarrow>
         if mapsEqual current desired then ret None
         else if desired = [] then do {
           w \<leftarrow> obsCall c (RDeleteBucketTagging (bucketName bucket))
                 (apiDeleteBucketTagging (obs E) c (bucketName bucket));
           case w of
             Inl err \<Rightarrow>
               if \<not> isBucketCode err obsNoSuchTagSetCode \<and> \<not> isBucketNotFound err
               then ret (Some (wrapf ''delete bucket tags: '' err))
               else ret None
           | Inr _ \<Rightarrow> ret None
         }
         else do {
           w \<leftarrow> obsCall c (RSetBucketTagging (bucketName bucket) (tagsFromMap desired))
                 (apiSetBucketTagging (obs E) c (bucketName bucket) (tagsFromMap desired));
           case w of
             Inl err \<Rightarrow> ret (Some (wrapf ''set bucket tags: '' err))
           | Inr _ \<Rightarrow> ret None
         }
   }"

definition reconcileBucketLogging ::
  "('c, 'w) env \<Rightarrow> 'c option \<Rightarrow> Bucket \<Rightarrow> ('c, 'w, error option) prog" where
  "reconcileBucketLogging E c bucket = do {
     r \<leftarrow> obsCall c (RGetBucketLogging (bucketName bucket))
           (apiGetBucketLogging (obs E) c (bucketName bucket));
     case r of
       Inl err \<Rightarrow> ret (Some (wrapf ''read bucket logging: '' err))
     | Inr current \<Rightarrow> do {
         let desired = loggingInput bucket;
         if loggingMatches current (sblStatus desired) then ret None
         else do {
           w \<leftarrow> obsCall c (RSetBucketLogging desired) (apiSetBucketLogging (obs E) c desired);
           case w of
             Inl err \<Rightarrow> ret (Some (wrapf ''set bucket logging: '' err))
           | Inr _ \<Rightarrow> ret None
         }
       }
   }"

text \<open>
  The encryption step treats a missing configuration, an unsupported file system bucket and a
  missing bucket as ``no encryption configured'' when it reads.
\<close>

definition encryptionReadTolerated :: "error \<Rightarrow> bool" where
  "encryptionReadTolerated err \<longleftrightarrow>
     isBucketCode err obsNoSuchEncryptionConfigCode \<or> isBucketCode err obsFsNotSupportCode \<or>
     isBucketNotFound err"

definition reconcileBucketEncryption ::
  "('c, 'w) env \<Rightarrow> 'c option \<Rightarrow> Bucket \<Rightarrow> ('c, 'w, error option) prog" where
  "reconcileBucketEncryption E c bucket = do {
     r \<leftarrow> obsCall c (RGetBucketEncryption (bucketName bucket))
           (apiGetBucketEncryption (obs E) c (bucketName bucket));
     case (case r of
             Inl err \<Rightarrow> if \<not> encryptionReadTolerated err
                       then Inl (wrapf ''read bucket encryption: '' err) else Inr None
           | Inr cur \<Rightarrow> Inr cur) of
       Inl err \<Rightarrow> ret (Some err)
     | Inr current \<Rightarrow>
         (case specServerSideEncryption (bSpec bucket) of
            None \<Rightarrow>
              if current = None then ret None
              else do {
                w \<leftarrow> obsCall c (RDeleteBucketEncryption (bucketName bucket))
                      (apiDeleteBucketEncryption (obs E) c (bucketName bucket));
                case w of
                  Inl err \<Rightarrow>
                    if \<not> isBucketCode err obsNoSuchEncryptionConfigCode \<and> \<not> isBucketNotFound err
                    then ret (Some (wrapf ''delete bucket encryption: '' err))
                    else ret None
                | Inr _ \<Rightarrow> ret None
              }
          | Some spec \<Rightarrow> do {
              let desired = encryptionConfig spec;
              if encryptionMatches current desired then ret None
              else do {
                w \<leftarrow> obsCall c (RSetBucketEncryption (bucketName bucket) desired)
                      (apiSetBucketEncryption (obs E) c (bucketName bucket) desired);
                case w of
                  Inl err \<Rightarrow> ret (Some (wrapf ''set bucket encryption: '' err))
                | Inr _ \<Rightarrow> ret None
              }
            })
   }"

primrec runSteps :: "('s, error option) state list \<Rightarrow> ('s, error option) state" where
  "runSteps [] = ret None"
| "runSteps (step # steps) = do {
     r \<leftarrow> step;
     case r of Some err \<Rightarrow> ret (Some err) | None \<Rightarrow> runSteps steps
   }"

definition updateSteps :: "('c, 'w) env \<Rightarrow> 'c option \<Rightarrow> Bucket \<Rightarrow> ('c, 'w, error option) prog list" where
  "updateSteps E c bucket =
     [reconcileBucketStorageClass E c bucket, reconcileBucketACL E c bucket,
      reconcileBucketVersioning E c bucket, reconcileBucketTags E c bucket,
      reconcileBucketLogging E c bucket, reconcileBucketEncryption E c bucket]"

definition update :: "('c, 'w) env \<Rightarrow> 'c option \<Rightarrow> Bucket \<Rightarrow> ('c, 'w, error option) prog" where
  "update E c bucket = runSteps (updateSteps E c bucket)"

lemmas stepDefs = reconcileBucketStorageClass_def reconcileBucketACL_def
  reconcileBucketVersioning_def reconcileBucketTags_def reconcileBucketLogging_def
  reconcileBucketEncryption_def bucketTags_def

end
