(* ===== verification/BucketUpdate.thy ===== *)
theory BucketUpdate
  imports BucketSettings
begin

text \<open>
  The requests \<open>update\<close> sends.

  \<open>setting_step\<close> is the contract the six update steps share: one read request, then at most one
  write request, both for the step's own setting of the step's own bucket, and an error is the
  wrapped failure of the step's last request. Each step is an interpretation of the locale, and
  the requests of \<open>update\<close> follow from the contract alone.
\<close>

section \<open>The contract of an update step\<close>

datatype setting =
    StorageClassSetting | AclSetting | VersioningSetting | TagsSetting | LoggingSetting
  | EncryptionSetting

fun reqSetting :: "obs_req \<Rightarrow> setting option" where
  "reqSetting (RGetBucketStoragePolicy _) = Some StorageClassSetting"
| "reqSetting (RSetBucketStoragePolicy _ _) = Some StorageClassSetting"
| "reqSetting (RGetBucketAcl _) = Some AclSetting"
| "reqSetting (RSetBucketAcl _ _) = Some AclSetting"
| "reqSetting (RGetBucketVersioning _) = Some VersioningSetting"
| "reqSetting (RSetBucketVersioning _ _) = Some VersioningSetting"
| "reqSetting (RGetBucketTagging _) = Some TagsSetting"
| "reqSetting (RSetBucketTagging _ _) = Some TagsSetting"
| "reqSetting (RDeleteBucketTagging _) = Some TagsSetting"
| "reqSetting (RGetBucketLogging _) = Some LoggingSetting"
| "reqSetting (RSetBucketLogging _) = Some LoggingSetting"
| "reqSetting (RGetBucketEncryption _) = Some EncryptionSetting"
| "reqSetting (RSetBucketEncryption _ _) = Some EncryptionSetting"
| "reqSetting (RDeleteBucketEncryption _) = Some EncryptionSetting"
| "reqSetting _ = None"

definition reqFor :: "string \<Rightarrow> setting \<Rightarrow> obs_req \<Rightarrow> bool" where
  "reqFor nm S q \<longleftrightarrow> reqSetting q = Some S \<and> reqBucket q = Some nm"

definition stepTrace :: "'c option \<Rightarrow> string \<Rightarrow> setting \<Rightarrow> 'c event list \<Rightarrow> bool" where
  "stepTrace c nm S evs \<longleftrightarrow>
     (\<exists>q e. readOnlyReq q \<and> reqFor nm S q \<and>
        (evs = [ObsEv c q e] \<or>
         (\<exists>q' e'. \<not> readOnlyReq q' \<and> reqFor nm S q' \<and> evs = [ObsEv c q e, ObsEv c q' e'])))"

definition lastFailure :: "'c event list \<Rightarrow> error \<Rightarrow> bool" where
  "lastFailure evs err \<longleftrightarrow> evs \<noteq> [] \<and> (\<exists>c q x p. last evs = ObsEv c q (Some x) \<and> err = wrapf p x)"

locale setting_step =
  fixes step :: "('c, 'w, error option) prog"
    and c :: "'c option"
    and nm :: string
    and S :: setting
  assumes step_emits:
    "emits step (\<lambda>r evs. stepTrace c nm S evs \<and> (\<forall>err. r = Some err \<longrightarrow> lastFailure evs err))"
begin

lemma step_trace: "emits step (\<lambda>r evs. stepTrace c nm S evs)"
  by (rule emits_mono [OF step_emits]) simp

lemma step_at_most_one_write:
  "emits step (\<lambda>r evs. length (filter (\<lambda>e. \<exists>c q x. e = ObsEv c q x \<and> \<not> readOnlyReq q) evs) \<le> 1)"
  by (rule emits_mono [OF step_trace]) (auto simp: stepTrace_def)

lemma step_then:
  assumes rest: "emits (runSteps steps) R"
    and stop: "\<And>evs err. stepTrace c nm S evs \<Longrightarrow> lastFailure evs err \<Longrightarrow> Q (Some err) evs"
    and go: "\<And>evs r evs'. stepTrace c nm S evs \<Longrightarrow> R r evs' \<Longrightarrow> Q r (evs @ evs')"
  shows "emits (runSteps (step # steps)) Q"
proof -
  have "emits (case r of Some err \<Rightarrow> ret (Some err) | None \<Rightarrow> runSteps steps) (\<lambda>y e2. Q y (evs @ e2))"
    if "stepTrace c nm S evs" "\<forall>err. r = Some err \<longrightarrow> lastFailure evs err" for r evs
    using that stop go by (cases r) (auto intro!: emits_return emits_mono [OF rest])
  then have "emits step (\<lambda>r evs. emits (case r of Some err \<Rightarrow> ret (Some err) | None \<Rightarrow> runSteps steps)
      (\<lambda>y e2. Q y (evs @ e2)))"
    by (intro emits_mono [OF step_emits]) auto
  then show ?thesis by (simp add: emits_bind)
qed

end

lemmas stepTraceDefs = stepTrace_def reqFor_def lastFailure_def

interpretation storageStep: setting_step
  "reconcileBucketStorageClass E c b" c "bucketName b" StorageClassSetting for E c b
  by unfold_locales
     (auto intro!: emits_intros simp: reconcileBucketStorageClass_def stepTraceDefs
        split: sum.splits)

interpretation aclStep: setting_step
  "reconcileBucketACL E c b" c "bucketName b" AclSetting for E c b
  by unfold_locales
     (auto intro!: emits_intros simp: reconcileBucketACL_def stepTraceDefs split: sum.splits)

interpretation versioningStep: setting_step
  "reconcileBucketVersioning E c b" c "bucketName b" VersioningSetting for E c b
  by unfold_locales
     (auto intro!: emits_intros simp: reconcileBucketVersioning_def stepTraceDefs split: sum.splits)

interpretation tagsStep: setting_step
  "reconcileBucketTags E c b" c "bucketName b" TagsSetting for E c b
  by unfold_locales
     (auto intro!: emits_intros simp: reconcileBucketTags_def bucketTags_def stepTraceDefs
        split: sum.splits if_splits)

interpretation loggingStep: setting_step
  "reconcileBucketLogging E c b" c "bucketName b" LoggingSetting for E c b
  by unfold_locales
     (auto intro!: emits_intros simp: reconcileBucketLogging_def stepTraceDefs
        split: sum.splits option.splits)

interpretation encryptionStep: setting_step
  "reconcileBucketEncryption E c b" c "bucketName b" EncryptionSetting for E c b
  by unfold_locales
     (auto intro!: emits_intros simp: reconcileBucketEncryption_def stepTraceDefs
        split: sum.splits if_splits option.splits)

section \<open>The requests of an update\<close>

text \<open>
  The events of \<open>update\<close> are one block per step, in the order of the steps; the blocks stop early
  exactly when a step failed, with that step's error.
\<close>

lemma runSteps_emits:
  assumes "list_all2 (\<lambda>S step. setting_step step c nm S) Ss steps"
  shows "emits (runSteps steps) (\<lambda>r evs. \<exists>blocks.
    evs = concat blocks \<and> length blocks \<le> length Ss \<and>
    list_all2 (stepTrace c nm) (take (length blocks) Ss) blocks \<and>
    (r = None \<longrightarrow> length blocks = length Ss) \<and>
    (\<forall>err. r = Some err \<longrightarrow> blocks \<noteq> [] \<and> lastFailure (last blocks) err))"
  using assms
proof (induction Ss steps rule: list_all2_induct)
  case Nil
  then show ?case by (simp add: emits_return)
next
  case (Cons S Ss step steps)
  show ?case
  proof (rule setting_step.step_then [OF Cons(1) Cons(3)], goal_cases)
    case (1 evs err)
    then show ?case by (intro exI [of _ "[evs]"]) simp
  next
    case (2 evs r evs')
    then obtain blocks where "evs' = concat blocks" "length blocks \<le> length Ss"
      "list_all2 (stepTrace c nm) (take (length blocks) Ss) blocks"
      "r = None \<longrightarrow> length blocks = length Ss"
      "\<forall>err. r = Some err \<longrightarrow> blocks \<noteq> [] \<and> lastFailure (last blocks) err" by blast
    with 2(1) show ?case by (intro exI [of _ "evs # blocks"]) auto
  qed
qed

definition settingOrder :: "setting list" where
  "settingOrder = [StorageClassSetting, AclSetting, VersioningSetting, TagsSetting, LoggingSetting,
     EncryptionSetting]"

lemma updateSteps_contract:
  "list_all2 (\<lambda>S step. setting_step step c (bucketName b) S) settingOrder (updateSteps E c b)"
  by (simp add: settingOrder_def updateSteps_def storageStep.setting_step_axioms
      aclStep.setting_step_axioms versioningStep.setting_step_axioms tagsStep.setting_step_axioms
      loggingStep.setting_step_axioms encryptionStep.setting_step_axioms)

lemma update_emits:
  "emits (update E c b) (\<lambda>r evs. \<exists>blocks.
    evs = concat blocks \<and> length blocks \<le> length settingOrder \<and>
    list_all2 (stepTrace c (bucketName b)) (take (length blocks) settingOrder) blocks \<and>
    (r = None \<longrightarrow> length blocks = length settingOrder) \<and>
    (\<forall>err. r = Some err \<longrightarrow> blocks \<noteq> [] \<and> lastFailure (last blocks) err))"
  unfolding update_def by (rule runSteps_emits [OF updateSteps_contract])

text \<open>Every request of an update names the bucket and concerns one of its settings.\<close>

lemma update_emitsOnly:
  "emitsOnly (\<lambda>e. \<exists>q x S. e = ObsEv c q x \<and> reqFor (bucketName b) S q) (update E c b)"
proof (rule emits_mono [OF update_emits], elim exE conjE)
  fix r evs blocks
  assume evs: "evs = concat blocks"
    and "list_all2 (stepTrace c (bucketName b)) (take (length blocks) settingOrder) blocks"
  then have "\<exists>S. stepTrace c (bucketName b) S block" if "block \<in> set blocks" for block
    using that list_all2_ex_left by metis
  then show "list_all (\<lambda>e. \<exists>q x S. e = ObsEv c q x \<and> reqFor (bucketName b) S q) evs"
    unfolding evs by (fastforce simp: stepTrace_def list_all_iff)
qed

end
