(* ===== verification/BucketConverge.thy ===== *)
theory BucketConverge
  imports BucketUpdate
begin

text \<open>
  Convergence of \<open>update\<close>.

  \<open>obsReads\<close> and \<open>obsWrites\<close> state what the OBS API documents for the settings of one bucket: a
  read that succeeds returns the stored setting, a write that succeeds stores the requested one and
  leaves the other settings alone. \<open>view\<close> is the abstraction of the world to these settings, and
  \<open>converged\<close> says that they are what the spec asks for. Under the two hypotheses an \<open>update\<close> without
  error leaves the bucket converged, and an \<open>update\<close> of a converged bucket sends no write request.
\<close>

section \<open>Tags\<close>

lemma tagsToMap_fold:
  "map_of (fold (\<lambda>t m. AList.update (tagKey t) (tagValue t) m) ts m) =
     map_of m ++ map_of (rev (map (\<lambda>t. (tagKey t, tagValue t)) ts))"
  by (induction ts arbitrary: m) (auto simp: update_conv' map_add_upd_left fun_eq_iff map_add_def
      split: option.splits)

lemma map_of_tagsToMap: "map_of (tagsToMap ts) = map_of (rev (map (\<lambda>t. (tagKey t, tagValue t)) ts))"
  by (simp add: tagsToMap_def tagsToMap_fold)

lemma gomap_wf_tagsToMap: "gomap_wf (tagsToMap ts)"
proof -
  have "gomap_wf (fold (\<lambda>t m. AList.update (tagKey t) (tagValue t) m) ts m)" if "gomap_wf m" for m
    using that by (induction ts arbitrary: m) auto
  then show ?thesis by (simp add: tagsToMap_def gomap_wf_def)
qed

lemma map_of_tagsToMap_distinct:
  assumes "distinct (map tagKey ts)"
  shows "map_of (tagsToMap ts) = map_of (map (\<lambda>t. (tagKey t, tagValue t)) ts)"
proof -
  have "distinct (map fst (map (\<lambda>t. (tagKey t, tagValue t)) ts))"
    using assms by (simp add: comp_def)
  then show ?thesis
    unfolding map_of_tagsToMap by (subst map_of_inject_set) (auto simp: comp_def simp flip: rev_map)
qed

lemma tagsFromMap_keys: "map tagKey (tagsFromMap m) = sort (map fst m)"
  by (simp add: tagsFromMap_def comp_def)

lemma tagsFromMap_pairs:
  assumes "gomap_wf m"
  shows "set (map (\<lambda>t. (tagKey t, tagValue t)) (tagsFromMap m)) = set m"
  using assms
  by (force simp: tagsFromMap_def mapLookup_def gomap_wf_def image_iff split: option.splits
      dest: map_of_SomeD)

lemma tags_roundtrip:
  assumes "gomap_wf m" "mset ts = mset (tagsFromMap m)"
  shows "map_of (tagsToMap ts) = map_of m"
proof -
  have "mset (map tagKey ts) = mset (sort (map fst m))"
    using assms(2) tagsFromMap_keys by (metis mset_map)
  then have d: "distinct (map tagKey ts)"
    using assms(1) by (metis distinct_sort gomap_wf_def mset_eq_imp_distinct_iff)
  have "set (map (\<lambda>t. (tagKey t, tagValue t)) ts) = set m"
    using tagsFromMap_pairs [OF assms(1)] assms(2) by (metis list.set_map set_mset_mset)
  then show ?thesis
    using assms(1) d
    by (simp add: map_of_tagsToMap_distinct gomap_wf_def comp_def map_of_inject_set)
qed

lemma tagsFromMap_deterministic:
  assumes "gomap_wf m1" "gomap_wf m2" "map_of m1 = map_of m2"
  shows "tagsFromMap m1 = tagsFromMap m2"
proof -
  have "set m1 = set m2"
    using assms by (intro map_of_eq_imp_set_eq) (auto simp: gomap_wf_def)
  then have "sort (map fst m1) = sort (map fst m2)"
    using assms(1,2) by (intro sorted_distinct_set_unique) (auto simp: gomap_wf_def)
  with assms(3) show ?thesis
    by (simp add: tagsFromMap_def mapLookup_def)
qed


section \<open>Convergence\<close>

record settingsView =
  svStorageClass :: string
  svAcl :: "GetBucketAclOutput option"
  svVersioning :: string
  svTags :: "Tag list"
  svLogging :: "BucketLoggingStatus option"
  svEncryption :: "BucketEncryptionConfiguration option"

definition readLaw :: "('w \<Rightarrow> settingsView) \<Rightarrow> ('w, 'a) action \<Rightarrow> (settingsView \<Rightarrow> 'a) \<Rightarrow> bool" where
  "readLaw view act field \<longleftrightarrow>
     (\<forall>w r w'. act w = (r, w') \<longrightarrow> view w' = view w \<and> (\<forall>x. r = Inr x \<longrightarrow> x = field (view w)))"

definition tagsAbsentError :: "error \<Rightarrow> bool" where
  "tagsAbsentError e \<longleftrightarrow> isBucketCode e obsNoSuchTagSetCode \<or> isBucketNotFound e"

definition encryptionAbsentError :: "error \<Rightarrow> bool" where
  "encryptionAbsentError e \<longleftrightarrow> isBucketCode e obsNoSuchEncryptionConfigCode \<or> isBucketNotFound e"

definition obsReads :: "('c, 'w) env \<Rightarrow> 'c option \<Rightarrow> string \<Rightarrow> ('w \<Rightarrow> settingsView) \<Rightarrow> bool" where
  "obsReads E c nm view \<longleftrightarrow>
     readLaw view (apiGetBucketStoragePolicy (obs E) c nm) svStorageClass \<and>
     readLaw view (apiGetBucketAcl (obs E) c nm) svAcl \<and>
     readLaw view (apiGetBucketVersioning (obs E) c nm) svVersioning \<and>
     readLaw view (apiGetBucketTagging (obs E) c nm) svTags \<and>
     readLaw view (apiGetBucketLogging (obs E) c nm) svLogging \<and>
     readLaw view (apiGetBucketEncryption (obs E) c nm) svEncryption \<and>
     (\<forall>w e w'. apiGetBucketTagging (obs E) c nm w = (Inl e, w') \<longrightarrow> tagsAbsentError e \<longrightarrow>
        svTags (view w) = []) \<and>
     (\<forall>w e w'. apiGetBucketEncryption (obs E) c nm w = (Inl e, w') \<longrightarrow> encryptionReadTolerated e \<longrightarrow>
        svEncryption (view w) = None)"

definition storageWriteLaw :: "('c, 'w) env \<Rightarrow> 'c option \<Rightarrow> string \<Rightarrow> ('w \<Rightarrow> settingsView) \<Rightarrow> bool" where
  "storageWriteLaw E c nm view \<longleftrightarrow>
     (\<forall>cls w w'. apiSetBucketStoragePolicy (obs E) c nm cls w = (Inr (), w') \<longrightarrow>
        (\<exists>x. normalizeStorageClass (sdk E) x = normalizeStorageClass (sdk E) cls \<and>
             view w' = (view w)\<lparr>svStorageClass := x\<rparr>))"

definition aclWriteLaw :: "('c, 'w) env \<Rightarrow> 'c option \<Rightarrow> string \<Rightarrow> ('w \<Rightarrow> settingsView) \<Rightarrow> bool" where
  "aclWriteLaw E c nm view \<longleftrightarrow>
     (\<forall>acl w w'. apiSetBucketAcl (obs E) c nm acl w = (Inr (), w') \<longrightarrow>
        (\<exists>owner grants sigs. owner \<noteq> [] \<and> cannedSignatures (sdk E) owner acl = Some sigs \<and>
             mset (map (grantSignature (sdk E)) grants) = mset sigs \<and>
             view w' = (view w)\<lparr>svAcl := Some \<lparr>aclOwnerID = owner, aclGrants = grants\<rparr>\<rparr>))"

definition versioningWriteLaw :: "('c, 'w) env \<Rightarrow> 'c option \<Rightarrow> string \<Rightarrow> ('w \<Rightarrow> settingsView) \<Rightarrow> bool" where
  "versioningWriteLaw E c nm view \<longleftrightarrow>
     (\<forall>v w w'. apiSetBucketVersioning (obs E) c nm v w = (Inr (), w') \<longrightarrow>
        view w' = (view w)\<lparr>svVersioning := v\<rparr>)"

definition tagsWriteLaw :: "('c, 'w) env \<Rightarrow> 'c option \<Rightarrow> string \<Rightarrow> ('w \<Rightarrow> settingsView) \<Rightarrow> bool" where
  "tagsWriteLaw E c nm view \<longleftrightarrow>
     (\<forall>ts w w'. apiSetBucketTagging (obs E) c nm ts w = (Inr (), w') \<longrightarrow>
        (\<exists>ts'. mset ts' = mset ts \<and> view w' = (view w)\<lparr>svTags := ts'\<rparr>)) \<and>
     (\<forall>r w w'. apiDeleteBucketTagging (obs E) c nm w = (r, w') \<longrightarrow>
        (r = Inr () \<or> (\<exists>e. r = Inl e \<and> tagsAbsentError e)) \<longrightarrow> view w' = (view w)\<lparr>svTags := []\<rparr>)"

definition loggingWriteLaw :: "('c, 'w) env \<Rightarrow> 'c option \<Rightarrow> string \<Rightarrow> ('w \<Rightarrow> settingsView) \<Rightarrow> bool" where
  "loggingWriteLaw E c nm view \<longleftrightarrow>
     (\<forall>i w w'. sblBucket i = nm \<longrightarrow> apiSetBucketLogging (obs E) c i w = (Inr (), w') \<longrightarrow>
        (\<exists>x. (x = Some (sblStatus i) \<or>
              x = None \<and> sblStatus i = \<lparr>blsTargetBucket = [], blsTargetPrefix = [], blsAgency = []\<rparr>) \<and>
             view w' = (view w)\<lparr>svLogging := x\<rparr>))"

definition encryptionWriteLaw :: "('c, 'w) env \<Rightarrow> 'c option \<Rightarrow> string \<Rightarrow> ('w \<Rightarrow> settingsView) \<Rightarrow> bool" where
  "encryptionWriteLaw E c nm view \<longleftrightarrow>
     (\<forall>cfg w w'. apiSetBucketEncryption (obs E) c nm cfg w = (Inr (), w') \<longrightarrow>
        view w' = (view w)\<lparr>svEncryption := Some cfg\<rparr>) \<and>
     (\<forall>r w w'. apiDeleteBucketEncryption (obs E) c nm w = (r, w') \<longrightarrow>
        (r = Inr () \<or> (\<exists>e. r = Inl e \<and> encryptionAbsentError e)) \<longrightarrow>
        view w' = (view w)\<lparr>svEncryption := None\<rparr>)"

definition obsWrites :: "('c, 'w) env \<Rightarrow> 'c option \<Rightarrow> string \<Rightarrow> ('w \<Rightarrow> settingsView) \<Rightarrow> bool" where
  "obsWrites E c nm view \<longleftrightarrow>
     storageWriteLaw E c nm view \<and> aclWriteLaw E c nm view \<and> versioningWriteLaw E c nm view \<and>
     tagsWriteLaw E c nm view \<and> loggingWriteLaw E c nm view \<and> encryptionWriteLaw E c nm view"

definition wantStorageClass :: "obs_consts \<Rightarrow> Bucket \<Rightarrow> string \<Rightarrow> bool" where
  "wantStorageClass K b x \<longleftrightarrow>
     normalizeStorageClass K x = normalizeStorageClass K (bucketStorageClass K b)"

definition wantAcl :: "obs_consts \<Rightarrow> Bucket \<Rightarrow> GetBucketAclOutput option \<Rightarrow> bool" where
  "wantAcl K b x \<longleftrightarrow> flattenObsBucketCannedACL K x = Some (bucketACL K b)"

definition wantVersioning :: "obs_consts \<Rightarrow> Bucket \<Rightarrow> string \<Rightarrow> bool" where
  "wantVersioning K b x \<longleftrightarrow>
     x = (if specVersioning (bSpec b) then VersioningStatusEnabled K else VersioningStatusSuspended K)"

definition wantTags :: "Bucket \<Rightarrow> Tag list \<Rightarrow> bool" where
  "wantTags b x \<longleftrightarrow> map_of (tagsToMap x) = map_of (desiredTags b)"

definition wantLogging :: "Bucket \<Rightarrow> BucketLoggingStatus option \<Rightarrow> bool" where
  "wantLogging b x \<longleftrightarrow> loggingMatches x (sblStatus (loggingInput b))"

definition wantEncryption :: "Bucket \<Rightarrow> BucketEncryptionConfiguration option \<Rightarrow> bool" where
  "wantEncryption b x \<longleftrightarrow> x = map_option encryptionConfig (specServerSideEncryption (bSpec b))"

definition converged :: "obs_consts \<Rightarrow> Bucket \<Rightarrow> settingsView \<Rightarrow> bool" where
  "converged K b v \<longleftrightarrow>
     wantStorageClass K b (svStorageClass v) \<and> wantAcl K b (svAcl v) \<and>
     wantVersioning K b (svVersioning v) \<and> wantTags b (svTags v) \<and> wantLogging b (svLogging v) \<and>
     wantEncryption b (svEncryption v)"

lemmas wantDefs = wantStorageClass_def wantAcl_def wantVersioning_def wantTags_def wantLogging_def
  wantEncryption_def

lemma sv_same [simp]:
  "\<exists>x. v = v\<lparr>svStorageClass := x\<rparr>" "\<exists>x. v = v\<lparr>svAcl := x\<rparr>" "\<exists>x. v = v\<lparr>svVersioning := x\<rparr>"
  "\<exists>x. v = v\<lparr>svTags := x\<rparr>" "\<exists>x. v = v\<lparr>svLogging := x\<rparr>" "\<exists>x. v = v\<lparr>svEncryption := x\<rparr>"
  by (rule exI [of _ "svStorageClass v"], simp) (rule exI [of _ "svAcl v"], simp,
    rule exI [of _ "svVersioning v"], simp, rule exI [of _ "svTags v"], simp,
    rule exI [of _ "svLogging v"], simp, rule exI [of _ "svEncryption v"], simp)

lemma readLawD:
  "readLaw view act field \<Longrightarrow> act w = (r, w') \<Longrightarrow> view w' = view w \<and> (\<forall>x. r = Inr x \<longrightarrow> x = field (view w))"
  by (simp add: readLaw_def)

lemma normalizeStorageClass_idem:
  "sdkDocumented K \<Longrightarrow> normalizeStorageClass K (normalizeStorageClass K x) = normalizeStorageClass K x"
  by (simp add: normalizeStorageClass_def sdkDocumented_def)

lemma storage_establishes:
  assumes "sdkDocumented (sdk E)" "obsReads E c (bucketName b) view" "obsWrites E c (bucketName b) view"
    "run_state (reconcileBucketStorageClass E c b) s = (None, t)"
  shows "wantStorageClass (sdk E) b (svStorageClass (view (stWorld t))) \<and>
    (\<exists>x. view (stWorld t) = (view (stWorld s))\<lparr>svStorageClass := x\<rparr>)"
proof -
  have R: "readLaw view (apiGetBucketStoragePolicy (obs E) c (bucketName b)) svStorageClass"
    using assms(2) by (simp add: obsReads_def)
  have W: "\<exists>x. normalizeStorageClass (sdk E) x = normalizeStorageClass (sdk E) cls \<and>
             view w' = (view w)\<lparr>svStorageClass := x\<rparr>"
    if "apiSetBucketStoragePolicy (obs E) c (bucketName b) cls w = (Inr (), w')" for cls w w'
    using assms(3) that by (simp add: obsWrites_def storageWriteLaw_def)
  obtain r w where r: "apiGetBucketStoragePolicy (obs E) c (bucketName b) (stWorld s) = (r, w)" by fastforce
  show ?thesis
    using assms(4) readLawD [OF R r]
    by (simp add: reconcileBucketStorageClass_def run_obsCall Let_def r)
       (auto simp: wantStorageClass_def normalizeStorageClass_idem [OF assms(1)]
         split: sum.splits if_splits prod.splits dest!: run_obsCallD W)
qed

lemma canned_flatten:
  assumes "sdkDocumented K" "owner \<noteq> []" "cannedSignatures K owner acl = Some sigs"
    "mset (map (grantSignature K) grants) = mset sigs"
  shows "flattenObsBucketCannedACL K (Some \<lparr>aclOwnerID = owner, aclGrants = grants\<rparr>) = Some acl"
proof -
  have "length grants = length sigs"
    using mset_eq_length [OF assms(4)] by simp
  moreover have "set (map (grantSignature K) grants) = set sigs"
    using assms(4) by (rule mset_eq_setD)
  ultimately have "obsBucketACLMatches K grants sigs"
    by (simp add: obsBucketACLMatches_iff [OF cannedSignatures_distinct [OF assms(1,3)]])
  then show ?thesis
    using assms by (intro flatten_complete) auto
qed

lemma acl_establishes:
  assumes "sdkDocumented (sdk E)" "obsReads E c (bucketName b) view" "obsWrites E c (bucketName b) view"
    "run_state (reconcileBucketACL E c b) s = (None, t)"
  shows "wantAcl (sdk E) b (svAcl (view (stWorld t))) \<and>
    (\<exists>x. view (stWorld t) = (view (stWorld s))\<lparr>svAcl := x\<rparr>)"
proof -
  have R: "readLaw view (apiGetBucketAcl (obs E) c (bucketName b)) svAcl"
    using assms(2) by (simp add: obsReads_def)
  have W: "\<exists>x. flattenObsBucketCannedACL (sdk E) x = Some acl \<and> view w' = (view w)\<lparr>svAcl := x\<rparr>"
    if "apiSetBucketAcl (obs E) c (bucketName b) acl w = (Inr (), w')" for acl w w'
  proof -
    have "aclWriteLaw E c (bucketName b) view" using assms(3) by (simp add: obsWrites_def)
    from this [unfolded aclWriteLaw_def, rule_format, OF that] obtain owner grants sigs where "owner \<noteq> []"
      "cannedSignatures (sdk E) owner acl = Some sigs"
      "mset (map (grantSignature (sdk E)) grants) = mset sigs"
      "view w' = (view w)\<lparr>svAcl := Some \<lparr>aclOwnerID = owner, aclGrants = grants\<rparr>\<rparr>"
      by (elim exE conjE)
    with canned_flatten [OF assms(1)] show ?thesis by blast
  qed
  obtain r w where r: "apiGetBucketAcl (obs E) c (bucketName b) (stWorld s) = (r, w)" by fastforce
  show ?thesis
    using assms(4) readLawD [OF R r]
    by (simp add: reconcileBucketACL_def run_obsCall Let_def r)
       (auto simp: wantAcl_def
         split: sum.splits if_splits prod.splits dest!: run_obsCallD W)
qed

lemma versioning_establishes:
  assumes "obsReads E c (bucketName b) view" "obsWrites E c (bucketName b) view"
    "run_state (reconcileBucketVersioning E c b) s = (None, t)"
  shows "wantVersioning (sdk E) b (svVersioning (view (stWorld t))) \<and>
    (\<exists>x. view (stWorld t) = (view (stWorld s))\<lparr>svVersioning := x\<rparr>)"
proof -
  have R: "readLaw view (apiGetBucketVersioning (obs E) c (bucketName b)) svVersioning"
    using assms(1) by (simp add: obsReads_def)
  have W: "view w' = (view w)\<lparr>svVersioning := v\<rparr>"
    if "apiSetBucketVersioning (obs E) c (bucketName b) v w = (Inr (), w')" for v w w'
    using assms(2) that by (simp add: obsWrites_def versioningWriteLaw_def)
  obtain r w where r: "apiGetBucketVersioning (obs E) c (bucketName b) (stWorld s) = (r, w)" by fastforce
  show ?thesis
    using assms(3) readLawD [OF R r]
    by (simp add: reconcileBucketVersioning_def run_obsCall Let_def r)
       (auto simp: wantVersioning_def
         split: sum.splits if_splits prod.splits dest!: run_obsCallD W)
qed

lemma tags_establishes:
  assumes "obsReads E c (bucketName b) view" "obsWrites E c (bucketName b) view"
    "gomap_wf (desiredTags b)" "run_state (reconcileBucketTags E c b) s = (None, t)"
  shows "wantTags b (svTags (view (stWorld t))) \<and>
    (\<exists>x. view (stWorld t) = (view (stWorld s))\<lparr>svTags := x\<rparr>)"
proof -
  have R: "view w' = view w \<and> (\<forall>x. r = Inr x \<longrightarrow> x = svTags (view w)) \<and>
      (\<forall>e. r = Inl e \<longrightarrow> tagsAbsentError e \<longrightarrow> svTags (view w) = [])"
    if "apiGetBucketTagging (obs E) c (bucketName b) w = (r, w')" for r w w'
    using assms(1) that by (auto simp: obsReads_def readLaw_def)
  have W: "\<exists>x. map_of (tagsToMap x) = map_of (desiredTags b) \<and> view w' = (view w)\<lparr>svTags := x\<rparr>"
    if "apiSetBucketTagging (obs E) c (bucketName b) (tagsFromMap (desiredTags b)) w = (Inr (), w')" for w w'
  proof -
    have "tagsWriteLaw E c (bucketName b) view" using assms(2) by (simp add: obsWrites_def)
    from this [unfolded tagsWriteLaw_def, THEN conjunct1, rule_format, OF that] obtain ts where "mset ts = mset (tagsFromMap (desiredTags b))"
      "view w' = (view w)\<lparr>svTags := ts\<rparr>"
      by (elim exE conjE)
    with tags_roundtrip [OF assms(3)] show ?thesis by blast
  qed
  have D: "r = Inr () \<or> (\<exists>e. r = Inl e \<and> tagsAbsentError e) \<longrightarrow> view w' = (view w)\<lparr>svTags := []\<rparr>"
    if "apiDeleteBucketTagging (obs E) c (bucketName b) w = (r, w')" for r w w'
    using assms(2) that by (simp add: obsWrites_def tagsWriteLaw_def)
  have nil: "tagsToMap [] = []" by (simp add: tagsToMap_def)
  obtain r w where r: "apiGetBucketTagging (obs E) c (bucketName b) (stWorld s) = (r, w)" by fastforce
  show ?thesis
    using assms(4) R [OF r]
    by (simp add: reconcileBucketTags_def bucketTags_def run_obsCall Let_def r)
       (auto simp: wantTags_def nil assms(3) mapsEqual_iff gomap_wf_tagsToMap tagsAbsentError_def
         split: sum.splits if_splits prod.splits dest!: run_obsCallD W D)
qed

lemma logging_establishes:
  assumes "obsReads E c (bucketName b) view" "obsWrites E c (bucketName b) view"
    "run_state (reconcileBucketLogging E c b) s = (None, t)"
  shows "wantLogging b (svLogging (view (stWorld t))) \<and>
    (\<exists>x. view (stWorld t) = (view (stWorld s))\<lparr>svLogging := x\<rparr>)"
proof -
  have R: "readLaw view (apiGetBucketLogging (obs E) c (bucketName b)) svLogging"
    using assms(1) by (simp add: obsReads_def)
  have W: "\<exists>x. loggingMatches x (sblStatus i) \<and> view w' = (view w)\<lparr>svLogging := x\<rparr>"
    if "apiSetBucketLogging (obs E) c i w = (Inr (), w')" "sblBucket i = bucketName b" for i w w'
  proof -
    have "loggingWriteLaw E c (bucketName b) view" using assms(2) by (simp add: obsWrites_def)
    from this [unfolded loggingWriteLaw_def, rule_format, OF that(2) that(1)] obtain x where
      x: "x = Some (sblStatus i) \<or>
          x = None \<and> sblStatus i = \<lparr>blsTargetBucket = [], blsTargetPrefix = [], blsAgency = []\<rparr>"
      and "view w' = (view w)\<lparr>svLogging := x\<rparr>" by (elim exE conjE)
    moreover from x have "loggingMatches x (sblStatus i)" by (auto simp: loggingMatches_def)
    ultimately show ?thesis by blast
  qed
  obtain r w where r: "apiGetBucketLogging (obs E) c (bucketName b) (stWorld s) = (r, w)" by fastforce
  show ?thesis
    using assms(3) readLawD [OF R r]
    by (simp add: reconcileBucketLogging_def run_obsCall Let_def r)
       (auto simp: wantLogging_def Let_def
         split: sum.splits if_splits prod.splits dest!: run_obsCallD W)
qed

lemma encryption_establishes:
  assumes "obsReads E c (bucketName b) view" "obsWrites E c (bucketName b) view"
    "run_state (reconcileBucketEncryption E c b) s = (None, t)"
  shows "wantEncryption b (svEncryption (view (stWorld t))) \<and>
    (\<exists>x. view (stWorld t) = (view (stWorld s))\<lparr>svEncryption := x\<rparr>)"
proof -
  have R: "view w' = view w \<and> (\<forall>x. r = Inr x \<longrightarrow> x = svEncryption (view w)) \<and>
      (\<forall>e. r = Inl e \<longrightarrow> encryptionReadTolerated e \<longrightarrow> svEncryption (view w) = None)"
    if "apiGetBucketEncryption (obs E) c (bucketName b) w = (r, w')" for r w w'
    using assms(1) that by (auto simp: obsReads_def readLaw_def)
  have W: "view w' = (view w)\<lparr>svEncryption := Some cfg\<rparr>"
    if "apiSetBucketEncryption (obs E) c (bucketName b) cfg w = (Inr (), w')" for cfg w w'
    using assms(2) that by (simp add: obsWrites_def encryptionWriteLaw_def)
  have D: "r = Inr () \<or> (\<exists>e. r = Inl e \<and> encryptionAbsentError e) \<longrightarrow>
      view w' = (view w)\<lparr>svEncryption := None\<rparr>"
    if "apiDeleteBucketEncryption (obs E) c (bucketName b) w = (r, w')" for r w w'
    using assms(2) that by (simp add: obsWrites_def encryptionWriteLaw_def)
  have M: "encryptionMatches x (encryptionConfig spec) \<longleftrightarrow> x = Some (encryptionConfig spec)" for x spec
    by (cases x) (auto simp: encryptionMatches_def encryptionConfig_def)
  obtain r w where r: "apiGetBucketEncryption (obs E) c (bucketName b) (stWorld s) = (r, w)" by fastforce
  show ?thesis
    using assms(3) R [OF r]
    by (simp add: reconcileBucketEncryption_def run_obsCall Let_def r)
       (auto simp: wantEncryption_def Let_def M encryptionAbsentError_def
         split: sum.splits if_splits prod.splits option.splits dest!: run_obsCallD W D)
qed


text \<open>All six steps together: each establishes its own setting and leaves the others alone.\<close>

lemma runSteps_Cons_None:
  "run_state (runSteps (m # ms)) s = (None, t) \<longleftrightarrow>
     (\<exists>u. run_state m s = (None, u) \<and> run_state (runSteps ms) u = (None, t))"
  by (auto split: prod.splits option.splits)

lemma update_establishes:
  assumes "sdkDocumented (sdk E)" "obsReads E c (bucketName b) view" "obsWrites E c (bucketName b) view"
    "gomap_wf (desiredTags b)" "run_state (update E c b) s = (None, t)"
  shows "converged (sdk E) b (view (stWorld t))"
proof -
  obtain s1 s2 s3 s4 s5 where
    "run_state (reconcileBucketStorageClass E c b) s = (None, s1)"
    "run_state (reconcileBucketACL E c b) s1 = (None, s2)"
    "run_state (reconcileBucketVersioning E c b) s2 = (None, s3)"
    "run_state (reconcileBucketTags E c b) s3 = (None, s4)"
    "run_state (reconcileBucketLogging E c b) s4 = (None, s5)"
    "run_state (reconcileBucketEncryption E c b) s5 = (None, t)"
    using assms(5) unfolding update_def updateSteps_def
    by (auto simp only: runSteps_Cons_None) (auto simp: runSteps.simps(1))
  note steps = storage_establishes [OF assms(1-3) this(1)] acl_establishes [OF assms(1-3) this(2)]
    versioning_establishes [OF assms(2,3) this(3)] tags_establishes [OF assms(2-4) this(4)]
    logging_establishes [OF assms(2,3) this(5)] encryption_establishes [OF assms(2,3) this(6)]
  then show ?thesis by (auto simp: converged_def)
qed

text \<open>
  An \<open>update\<close> of a converged bucket: each step reads, finds the setting as wanted and stops, so the
  settings do not change and no write request is sent.
\<close>

definition onlyReads :: "('w \<Rightarrow> settingsView) \<Rightarrow> ('c, 'w) st \<Rightarrow> ('c, 'w) st \<Rightarrow> bool" where
  "onlyReads view s t \<longleftrightarrow> view (stWorld t) = view (stWorld s) \<and>
     (\<exists>evs. stTrace t = stTrace s @ evs \<and> list_all (\<lambda>e. \<exists>c q x. e = ObsEv c q x \<and> readOnlyReq q) evs)"

lemma onlyReads_refl: "onlyReads view s s"
  by (simp add: onlyReads_def)

lemma onlyReads_trans: "onlyReads view s t \<Longrightarrow> onlyReads view t u \<Longrightarrow> onlyReads view s u"
  by (force simp: onlyReads_def)

lemma onlyReads_run:
  assumes "readLaw view f field" "f (stWorld s) = (r, w)" "readOnlyReq q"
  shows "onlyReads view s (s\<lparr>stWorld := w, stTrace := stTrace s @ [ObsEv c q x]\<rparr>)"
  using readLawD [OF assms(1,2)] assms(3) by (simp add: onlyReads_def)

lemma storage_noop:
  assumes "obsReads E c (bucketName b) view" "converged (sdk E) b (view (stWorld s))"
    "run_state (reconcileBucketStorageClass E c b) s = (x, t)"
  shows "onlyReads view s t"
proof -
  have R: "readLaw view (apiGetBucketStoragePolicy (obs E) c (bucketName b)) svStorageClass"
    using assms(1) by (simp add: obsReads_def)
  obtain r w where r: "apiGetBucketStoragePolicy (obs E) c (bucketName b) (stWorld s) = (r, w)" by fastforce
  show ?thesis
    using assms(2,3) readLawD [OF R r] onlyReads_run [OF R r]
    by (simp add: reconcileBucketStorageClass_def run_obsCall Let_def r converged_def wantStorageClass_def)
       (auto split: sum.splits if_splits)
qed

lemma acl_noop:
  assumes "obsReads E c (bucketName b) view" "converged (sdk E) b (view (stWorld s))"
    "run_state (reconcileBucketACL E c b) s = (x, t)"
  shows "onlyReads view s t"
proof -
  have R: "readLaw view (apiGetBucketAcl (obs E) c (bucketName b)) svAcl"
    using assms(1) by (simp add: obsReads_def)
  obtain r w where r: "apiGetBucketAcl (obs E) c (bucketName b) (stWorld s) = (r, w)" by fastforce
  show ?thesis
    using assms(2,3) readLawD [OF R r] onlyReads_run [OF R r]
    by (simp add: reconcileBucketACL_def run_obsCall Let_def r converged_def wantAcl_def)
       (auto split: sum.splits if_splits)
qed

lemma versioning_noop:
  assumes "obsReads E c (bucketName b) view" "converged (sdk E) b (view (stWorld s))"
    "run_state (reconcileBucketVersioning E c b) s = (x, t)"
  shows "onlyReads view s t"
proof -
  have R: "readLaw view (apiGetBucketVersioning (obs E) c (bucketName b)) svVersioning"
    using assms(1) by (simp add: obsReads_def)
  obtain r w where r: "apiGetBucketVersioning (obs E) c (bucketName b) (stWorld s) = (r, w)" by fastforce
  show ?thesis
    using assms(2,3) readLawD [OF R r] onlyReads_run [OF R r]
    by (simp add: reconcileBucketVersioning_def run_obsCall Let_def r converged_def wantVersioning_def)
       (auto split: sum.splits if_splits)
qed

lemma tags_noop:
  assumes "obsReads E c (bucketName b) view" "converged (sdk E) b (view (stWorld s))"
    "gomap_wf (desiredTags b)" "run_state (reconcileBucketTags E c b) s = (x, t)"
  shows "onlyReads view s t"
proof -
  have R: "readLaw view (apiGetBucketTagging (obs E) c (bucketName b)) svTags"
    using assms(1) by (simp add: obsReads_def)
  have A: "svTags (view w) = []"
    if "apiGetBucketTagging (obs E) c (bucketName b) w = (Inl e, w')" "tagsAbsentError e" for e w w'
    using assms(1) that by (auto simp: obsReads_def)
  have nil: "tagsToMap [] = []" by (simp add: tagsToMap_def)
  have eq: "mapsEqual (tagsToMap (svTags (view (stWorld s)))) (desiredTags b)"
    using assms(2,3) by (simp add: converged_def wantTags_def mapsEqual_iff gomap_wf_tagsToMap)
  obtain r w where r: "apiGetBucketTagging (obs E) c (bucketName b) (stWorld s) = (r, w)" by fastforce
  show ?thesis
    using assms(4) readLawD [OF R r] onlyReads_run [OF R r] eq A [of "stWorld s", unfolded r]
    by (simp add: reconcileBucketTags_def bucketTags_def run_obsCall Let_def r)
       (auto simp: nil tagsAbsentError_def split: sum.splits if_splits)
qed

lemma logging_noop:
  assumes "obsReads E c (bucketName b) view" "converged (sdk E) b (view (stWorld s))"
    "run_state (reconcileBucketLogging E c b) s = (x, t)"
  shows "onlyReads view s t"
proof -
  have R: "readLaw view (apiGetBucketLogging (obs E) c (bucketName b)) svLogging"
    using assms(1) by (simp add: obsReads_def)
  obtain r w where r: "apiGetBucketLogging (obs E) c (bucketName b) (stWorld s) = (r, w)" by fastforce
  show ?thesis
    using assms(2,3) readLawD [OF R r] onlyReads_run [OF R r]
    by (simp add: reconcileBucketLogging_def run_obsCall Let_def r converged_def wantLogging_def)
       (auto simp: Let_def split: sum.splits if_splits)
qed

lemma encryption_noop:
  assumes "obsReads E c (bucketName b) view" "converged (sdk E) b (view (stWorld s))"
    "run_state (reconcileBucketEncryption E c b) s = (x, t)"
  shows "onlyReads view s t"
proof -
  have R: "readLaw view (apiGetBucketEncryption (obs E) c (bucketName b)) svEncryption"
    using assms(1) by (simp add: obsReads_def)
  have A: "svEncryption (view w) = None"
    if "apiGetBucketEncryption (obs E) c (bucketName b) w = (Inl e, w')" "encryptionReadTolerated e" for e w w'
    using assms(1) that by (auto simp: obsReads_def)
  have M: "encryptionMatches x (encryptionConfig spec) \<longleftrightarrow> x = Some (encryptionConfig spec)" for x spec
    by (cases x) (auto simp: encryptionMatches_def encryptionConfig_def)
  obtain r w where r: "apiGetBucketEncryption (obs E) c (bucketName b) (stWorld s) = (r, w)" by fastforce
  show ?thesis
    using assms(2,3) readLawD [OF R r] onlyReads_run [OF R r] A [of "stWorld s", unfolded r]
    by (simp add: reconcileBucketEncryption_def run_obsCall Let_def r converged_def wantEncryption_def)
       (auto simp: M split: sum.splits if_splits option.splits)
qed

lemma runSteps_noop:
  assumes "\<forall>m \<in> set ms. \<forall>s x t. I (view (stWorld s)) \<longrightarrow> run_state m s = (x, t) \<longrightarrow> onlyReads view s t"
    "I (view (stWorld s))" "run_state (runSteps ms) s = (x, t)"
  shows "onlyReads view s t"
  using assms
proof (induction ms arbitrary: s x t)
  case Nil
  then show ?case by (simp add: onlyReads_refl)
next
  case (Cons m ms)
  obtain y u where m: "run_state m s = (y, u)" by fastforce
  with Cons.prems have su: "onlyReads view s u" by simp
  then have "I (view (stWorld u))" using Cons.prems(2) by (simp add: onlyReads_def)
  then have "onlyReads view u t" if "y = None"
    using Cons that m by simp
  with su m Cons.prems(3) show ?case
    by (cases y) (auto intro: onlyReads_trans)
qed

lemma update_noop:
  assumes "obsReads E c (bucketName b) view" "converged (sdk E) b (view (stWorld s))"
    "gomap_wf (desiredTags b)" "run_state (update E c b) s = (x, t)"
  shows "onlyReads view s t"
proof (rule runSteps_noop [where I = "converged (sdk E) b" and view = view and s = s, OF _ assms(2)])
  show "run_state (runSteps (updateSteps E c b)) s = (x, t)"
    using assms(4) by (simp add: update_def)
  show "\<forall>m\<in>set (updateSteps E c b). \<forall>s x t.
      converged (sdk E) b (view (stWorld s)) \<longrightarrow> run_state m s = (x, t) \<longrightarrow> onlyReads view s t"
    using storage_noop [OF assms(1)] acl_noop [OF assms(1)] versioning_noop [OF assms(1)]
      tags_noop [OF assms(1) _ assms(3)] logging_noop [OF assms(1)] encryption_noop [OF assms(1)]
    unfolding updateSteps_def by simp
qed

end
