(* ===== verification/BucketLifecycle.thy ===== *)
theory BucketLifecycle
  imports BucketConverge
begin

text \<open>
  The operations on the bucket as a whole: \<open>observe\<close>, \<open>create\<close>, \<open>delete\<close> and the loop
  \<open>deleteAllBucketObjects\<close> that empties a bucket before it is deleted.

  The loop of \<open>deleteAllBucketObjects\<close> ends only when OBS says so, so its model has fuel: \<open>None\<close> is
  ``still running''. More fuel never changes a result, and \<open>emptyBucket_terminates\<close> shows how much is
  enough when listing and deleting behave as documented.
\<close>

section \<open>Operations\<close>

record bucketObservation =
  obExists :: bool
  obMetadata :: "GetBucketMetadataOutput option"

definition observe :: "('c, 'w) env \<Rightarrow> 'c option \<Rightarrow> Bucket \<Rightarrow> ('c, 'w, error + bucketObservation) prog" where
  "observe E c bucket = do {
     r \<leftarrow> obsCall c (RGetBucketMetadata (bucketName bucket))
           (apiGetBucketMetadata (obs E) c (bucketName bucket));
     case r of
       Inl err \<Rightarrow>
         if isBucketNotFound err then ret (Inr \<lparr>obExists = False, obMetadata = None\<rparr>)
         else ret (Inl (wrapf (''observe bucket '' @ bucketName bucket @ '': '') err))
     | Inr metadata \<Rightarrow> ret (Inr \<lparr>obExists = True, obMetadata = Some metadata\<rparr>)
   }"

definition createInput :: "obs_consts \<Rightarrow> Bucket \<Rightarrow> string \<Rightarrow> CreateBucketInput" where
  "createInput K bucket region =
     \<lparr>cbBucket = bucketName bucket, cbACL = bucketACL K bucket,
      cbIsFSFileInterface = specParallelFS (bSpec bucket), cbStorageClass = bucketStorageClass K bucket,
      cbEpid = (if specEnterpriseProjectID (bSpec bucket) \<noteq> [] then specEnterpriseProjectID (bSpec bucket)
                else []),
      cbLocation = region\<rparr>"

definition create ::
  "('c, 'w) env \<Rightarrow> 'c option \<Rightarrow> Bucket \<Rightarrow> string \<Rightarrow> ('c, 'w, error option) prog" where
  "create E c bucket region = do {
     let input = createInput (sdk E) bucket region;
     r \<leftarrow> obsCall c (RCreateBucket input) (apiCreateBucket (obs E) c input);
     case r of
       Inl err \<Rightarrow>
         if isCreateBucketConflict err
         then ret (Some (WrapErr (sentinelText ErrBucketAlreadyExists @ '': create bucket '' @
                bucketName bucket @ '': '' @ errText err) (Sentinel ErrBucketAlreadyExists)))
         else ret (Some (wrapf (''create bucket '' @ bucketName bucket @ '': '') err))
     | Inr _ \<Rightarrow> ret None
   }"

definition objectsToDelete :: "ListVersionsOutput \<Rightarrow> ObjectToDelete list" where
  "objectsToDelete output =
     map (\<lambda>v. \<lparr>otdKey = otdKey v, otdVersionId = otdVersionId v\<rparr>) (lvVersions output) @
     map (\<lambda>m. \<lparr>otdKey = otdKey m, otdVersionId = otdVersionId m\<rparr>) (lvDeleteMarkers output)"

fun deleteAllBucketObjects ::
  "nat \<Rightarrow> ('c, 'w) env \<Rightarrow> 'c option \<Rightarrow> string \<Rightarrow> ('c, 'w, error option option) prog" where
  "deleteAllBucketObjects 0 E c nm = ret None"
| "deleteAllBucketObjects (Suc n) E c nm = do {
     ctxErr \<leftarrow> quiet (apiCtxErr (k8s E));
     case ctxErr of
       Some err \<Rightarrow> ret (Some (Some err))
     | None \<Rightarrow> do {
         r \<leftarrow> obsCall c (RListVersions nm) (apiListVersions (obs E) c nm);
         case r of
           Inl err \<Rightarrow> ret (Some (Some (wrapf ''list bucket object versions: '' err)))
         | Inr output \<Rightarrow> do {
             let objects = objectsToDelete output;
             if objects = [] then ret (Some None)
             else do {
               d \<leftarrow> obsCall c (RDeleteObjects nm objects) (apiDeleteObjects (obs E) c nm objects);
               case d of
                 Inl err \<Rightarrow> ret (Some (Some (wrapf ''delete bucket object versions: '' err)))
               | Inr deleteOutput \<Rightarrow>
                   if doErrors deleteOutput \<noteq> [] then
                     ret (Some (Some (LeafErr (''delete bucket object versions: OBS returned '' @
                       SprintInt (int (length (doErrors deleteOutput))) @ '' object deletion errors''))))
                   else if length objects < 1000 \<and> \<not> lvIsTruncated output then ret (Some None)
                   else deleteAllBucketObjects n E c nm
             }
           }
       }
   }"

definition delete ::
  "nat \<Rightarrow> ('c, 'w) env \<Rightarrow> 'c option \<Rightarrow> Bucket \<Rightarrow> ('c, 'w, error option option) prog" where
  "delete n E c bucket = do {
     let nm = bucketName bucket;
     r \<leftarrow> obsCall c (RDeleteBucket nm) (apiDeleteBucket (obs E) c nm);
     case r of
       Inr _ \<Rightarrow> ret (Some None)
     | Inl err \<Rightarrow>
         if isBucketNotFound err then ret (Some None)
         else if isBucketNotEmpty err \<and> specForceDestroy (bSpec bucket) then do {
           d \<leftarrow> deleteAllBucketObjects n E c nm;
           case d of
             None \<Rightarrow> ret None
           | Some (Some destroyErr) \<Rightarrow> ret (Some (Some destroyErr))
           | Some None \<Rightarrow> do {
               r2 \<leftarrow> obsCall c (RDeleteBucket nm) (apiDeleteBucket (obs E) c nm);
               case r2 of
                 Inr _ \<Rightarrow> ret (Some None)
               | Inl err2 \<Rightarrow> ret (Some (Some (wrapf (''delete bucket '' @ nm @ '': '') err2)))
             }
         }
         else ret (Some (Some (wrapf (''delete bucket '' @ nm @ '': '') err)))
   }"

section \<open>Fuel\<close>

lemma deleteAllBucketObjects_fuel:
  "n \<le> m \<Longrightarrow> fuel_le (deleteAllBucketObjects n E c nm) (deleteAllBucketObjects m E c nm)"
proof (induction n arbitrary: m)
  case (Suc n)
  then obtain m' where m: "m = Suc m'" "n \<le> m'" by (cases m) auto
  show ?case
    unfolding m deleteAllBucketObjects.simps Let_def
    by (intro fuel_intros Suc.IH [OF m(2)])
qed (simp add: fuel_return_None)

lemma delete_fuel: "n \<le> m \<Longrightarrow> fuel_le (delete n E c b) (delete m E c b)"
  unfolding delete_def Let_def
  by (intro fuel_intros fuel_bind_fuel deleteAllBucketObjects_fuel) (auto intro!: fuel_refl)

section \<open>What the operations send\<close>

lemma observe_emits:
  "emits (observe E c b) (\<lambda>r evs. \<exists>x. evs = [ObsEv c (RGetBucketMetadata (bucketName b)) x] \<and>
     (case r of
        Inr ob \<Rightarrow> obExists ob = (x = None) \<and> obExists ob = (obMetadata ob \<noteq> None) \<and>
                 (\<forall>e. x = Some e \<longrightarrow> isBucketNotFound e)
      | Inl err \<Rightarrow> \<exists>e p. x = Some e \<and> \<not> isBucketNotFound e \<and> err = wrapf p e))"
  by (auto intro!: emits_intros simp: observe_def split: sum.splits)

lemma create_emits:
  "emits (create E c b region) (\<lambda>r evs. \<exists>x.
     evs = [ObsEv c (RCreateBucket (createInput (sdk E) b region)) x] \<and> (r = None \<longleftrightarrow> x = None) \<and>
     (\<forall>err. r = Some err \<longrightarrow>
        (\<exists>e. x = Some e \<and> isCreateBucketConflict e \<and> errorsIs err ErrBucketAlreadyExists \<and> errChain err) \<or>
        (\<exists>e p. x = Some e \<and> \<not> isCreateBucketConflict e \<and> err = wrapf p e)))"
  by (auto intro!: emits_intros simp: create_def Let_def split: sum.splits)

text \<open>The requests of the emptying loop.\<close>

definition emptyingReq :: "string \<Rightarrow> obs_req \<Rightarrow> bool" where
  "emptyingReq nm q \<longleftrightarrow> q = RListVersions nm \<or> (\<exists>os. q = RDeleteObjects nm os \<and> os \<noteq> [])"

lemma deleteAllBucketObjects_emits:
  "emitsOnly (\<lambda>e. \<exists>q x. e = ObsEv c q x \<and> emptyingReq nm q) (deleteAllBucketObjects n E c nm)"
proof (induction n E c nm rule: deleteAllBucketObjects.induct)
  case (1 E c nm)
  then show ?case by (simp add: emits_return)
next
  case (2 n E c nm)
  note IH = emits_mono [OF 2]
  show ?case
    unfolding deleteAllBucketObjects.simps Let_def
    by (intro emits_intros IH) (simp_all add: emptyingReq_def)
qed

text \<open>
  \<open>delete\<close> asks OBS to delete the bucket first. It touches objects only when that failed because
  the bucket is not empty and the spec allows it, and it reports success only when the last answer
  of OBS was that the bucket is deleted or does not exist.
\<close>

definition bucketGoneEv :: "'c option \<Rightarrow> string \<Rightarrow> 'c event \<Rightarrow> bool" where
  "bucketGoneEv c nm e \<longleftrightarrow>
     (\<exists>x. e = ObsEv c (RDeleteBucket nm) x \<and> (\<forall>err. x = Some err \<longrightarrow> isBucketNotFound err))"

definition deleteTrace :: "'c option \<Rightarrow> Bucket \<Rightarrow> 'c event list \<Rightarrow> bool" where
  "deleteTrace c b evs \<longleftrightarrow> (\<exists>x rest. evs = ObsEv c (RDeleteBucket (bucketName b)) x # rest \<and>
     (rest \<noteq> [] \<longrightarrow> specForceDestroy (bSpec b) \<and> (\<exists>err. x = Some err \<and> isBucketNotEmpty err)) \<and>
     list_all (\<lambda>e. \<exists>q y. e = ObsEv c q y \<and> (q = RDeleteBucket (bucketName b) \<or> emptyingReq (bucketName b) q))
       rest)"

lemma delete_emits:
  "emits (delete n E c b) (\<lambda>r evs. deleteTrace c b evs \<and>
     (r = Some None \<longrightarrow> bucketGoneEv c (bucketName b) (last evs)))"
proof -
  note L = emits_mono [OF deleteAllBucketObjects_emits [where c = c and nm = "bucketName b" and n = n and E = E]]
  show ?thesis
    unfolding delete_def Let_def deleteTrace_def bucketGoneEv_def
    by (intro emits_intros L)
       (force simp: list_all_iff emptyingReq_def split: sum.splits)+
qed

section \<open>Emptying a bucket\<close>

text \<open>
  What OBS documents for listing and deleting object versions, while nobody else writes to the
  bucket. \<open>objs\<close> is the set of its object versions and delete markers. A listing is the beginning
  of the bucket's content; a page that is cut off is not empty and one that is not cut off is
  complete. A multi-delete without errors removes the given versions.
\<close>

definition versionsLaw :: "('c, 'w) env \<Rightarrow> 'c option \<Rightarrow> string \<Rightarrow> ('w \<Rightarrow> ObjectToDelete set) \<Rightarrow> bool" where
  "versionsLaw E c nm objs \<longleftrightarrow>
     (\<forall>w r w'. apiListVersions (obs E) c nm w = (r, w') \<longrightarrow> objs w' = objs w \<and>
        (\<forall>out. r = Inr out \<longrightarrow> set (lvVersions out @ lvDeleteMarkers out) \<subseteq> objs w \<and>
           (if lvIsTruncated out then lvVersions out @ lvDeleteMarkers out \<noteq> []
            else objs w \<subseteq> set (lvVersions out @ lvDeleteMarkers out)))) \<and>
     (\<forall>os w r w'. apiDeleteObjects (obs E) c nm os w = (r, w') \<longrightarrow> objs w' \<subseteq> objs w \<and>
        (\<forall>out. r = Inr out \<longrightarrow> doErrors out = [] \<longrightarrow> objs w' = objs w - set os)) \<and>
     (\<forall>w r w'. apiCtxErr (k8s E) w = (r, w') \<longrightarrow> objs w' = objs w)"

lemma objectsToDelete_eq: "objectsToDelete out = lvVersions out @ lvDeleteMarkers out"
proof -
  have "(\<lambda>v. \<lparr>otdKey = otdKey v, otdVersionId = otdVersionId v\<rparr>) = (\<lambda>v. v)"
    by (simp add: fun_eq_iff)
  then show ?thesis by (simp add: objectsToDelete_def)
qed

lemma emptyBucket_step:
  assumes L: "versionsLaw E c nm objs" and fin: "finite (objs (stWorld s))"
    and run: "run_state (deleteAllBucketObjects (Suc n) E c nm) s = (x, t)"
  shows "(\<exists>r. x = Some r \<and> (r = None \<longrightarrow> objs (stWorld t) = {})) \<or>
    (\<exists>u. finite (objs (stWorld u)) \<and> card (objs (stWorld u)) < card (objs (stWorld s)) \<and>
         run_state (deleteAllBucketObjects n E c nm) u = (x, t))"
proof -
  obtain e w0 where ctx: "apiCtxErr (k8s E) (stWorld s) = (e, w0)" by fastforce
  obtain r w1 where lst: "apiListVersions (obs E) c nm w0 = (r, w1)" by fastforce
  have o0: "objs w0 = objs (stWorld s)" and o1: "objs w1 = objs (stWorld s)"
    using L ctx lst by (auto simp: versionsLaw_def)
  show ?thesis
  proof (cases "\<exists>out. e = None \<and> r = Inr out \<and> objectsToDelete out \<noteq> []")
    case False
    have "objs w1 = {}" if "r = Inr out" "objectsToDelete out = []" for out
      using L lst that o0 o1 unfolding versionsLaw_def objectsToDelete_eq by (metis empty_set subset_empty)
    with False run show ?thesis
      by (auto simp: run_quiet run_obsCall ctx lst Let_def split: option.splits sum.splits)
  next
    case True
    then obtain out where out: "e = None" "r = Inr out" "objectsToDelete out \<noteq> []" by blast
    obtain d w2 where del: "apiDeleteObjects (obs E) c nm (objectsToDelete out) w1 = (d, w2)" by fastforce
    have sub: "set (objectsToDelete out) \<subseteq> objs (stWorld s)"
      and all: "\<not> lvIsTruncated out \<Longrightarrow> objs (stWorld s) \<subseteq> set (objectsToDelete out)"
      using L lst out(2) o0 unfolding versionsLaw_def objectsToDelete_eq by (metis (full_types))+
    have o2: "objs w2 = objs (stWorld s) - set (objectsToDelete out)" if "d = Inr dout" "doErrors dout = []" for dout
      using L del that o1 unfolding versionsLaw_def by metis
    moreover have "card (objs (stWorld s) - set (objectsToDelete out)) < card (objs (stWorld s))"
      using fin sub out(3) by (intro psubset_card_mono) (auto simp: neq_Nil_conv)
    ultimately show ?thesis
      using run fin all
      by (auto simp: run_quiet run_obsCall ctx lst del out Let_def split: sum.splits if_splits)
  qed
qed

lemma emptyBucket_terminates:
  assumes "versionsLaw E c nm objs" "finite (objs (stWorld s))" "card (objs (stWorld s)) < n"
  shows "\<exists>r t. run_state (deleteAllBucketObjects n E c nm) s = (Some r, t) \<and>
           (r = None \<longrightarrow> objs (stWorld t) = {})"
  using assms(2,3)
proof (induction n arbitrary: s)
  case (Suc n)
  obtain x t where run: "run_state (deleteAllBucketObjects (Suc n) E c nm) s = (x, t)" by fastforce
  from emptyBucket_step [OF assms(1) Suc.prems(1) run] show ?case
  proof (elim disjE exE conjE)
    fix u
    assume u: "finite (objs (stWorld u))" "card (objs (stWorld u)) < card (objs (stWorld s))"
      "run_state (deleteAllBucketObjects n E c nm) u = (x, t)"
    with Suc.prems(2) Suc.IH [of u] run show ?thesis by auto
  qed (use run in auto)
qed simp

end
