(* ===== verification/BucketStatus.thy ===== *)
theory BucketStatus
  imports BucketErrors
begin

text \<open>
  Writing back to the Kubernetes API: the status of a Bucket (\<open>updateBucketStatus\<close>, \<open>patchStatus\<close>)
  and its finalizers (\<open>patchFinalizer\<close>).

  A successful patch replaces the local object by the server's answer, a failed one leaves it as the
  caller modified it. The clock that \<open>meta.SetStatusCondition\<close> may read is read once before it.
\<close>

section \<open>Operations\<close>

definition bucketDomainName :: "string \<Rightarrow> string \<Rightarrow> string" where
  "bucketDomainName nm region = nm @ ''.obs.'' @ region @ ''.otc.t-systems.com''"

definition nextBucketStatus :: "k8s_lib \<Rightarrow> time \<Rightarrow> Bucket \<Rightarrow> 'c ResolvedClient option \<Rightarrow> Condition \<Rightarrow>
    GetBucketMetadataOutput option \<Rightarrow> BucketStatus" where
  "nextBucketStatus L now bucket resolved condition metadata =
     (let s0 = (bStatus bucket)\<lparr>stObservedGeneration := Generation (bMeta bucket)\<rparr>;
          s1 = (case resolved of
                  None \<Rightarrow> s0
                | Some r \<Rightarrow> s0\<lparr>stRegion := rcRegion r,
                              stBucketDomainName := bucketDomainName (bucketName bucket) (rcRegion r)\<rparr>);
          s2 = (case metadata of None \<Rightarrow> s1 | Some md \<Rightarrow> s1\<lparr>stBucketVersion := mdVersion md\<rparr>)
      in s2\<lparr>stConditions := SetStatusCondition L now (stConditions s2) condition\<rparr>)"

definition bucketStatusChanged :: "BucketStatus \<Rightarrow> BucketStatus \<Rightarrow> bool" where
  "bucketStatusChanged original nextStatus \<longleftrightarrow>
     stObservedGeneration original \<noteq> stObservedGeneration nextStatus \<or>
     stRegion original \<noteq> stRegion nextStatus \<or>
     stBucketDomainName original \<noteq> stBucketDomainName nextStatus \<or>
     stBucketVersion original \<noteq> stBucketVersion nextStatus \<or>
     stLastSyncTime original = None \<or>
     stConditions original \<noteq> stConditions nextStatus"

definition updateBucketStatus :: "('c, 'w) env \<Rightarrow> Bucket \<Rightarrow> 'c ResolvedClient option \<Rightarrow> Condition \<Rightarrow>
    GetBucketMetadataOutput option \<Rightarrow> ('c, 'w, error option) prog" where
  "updateBucketStatus E bucket resolved condition metadata = do {
     t \<leftarrow> quiet (apiNow (k8s E));
     let nextStatus = nextBucketStatus (lib E) t bucket resolved condition metadata;
     if \<not> bucketStatusChanged (bStatus bucket) nextStatus then ret None
     else do {
       now \<leftarrow> quiet (apiNow (k8s E));
       let modified = bucket\<lparr>bStatus := nextStatus\<lparr>stLastSyncTime := Some now\<rparr>\<rparr>;
       r \<leftarrow> call (apiPatchBucketStatus (k8s E) bucket modified)
             (\<lambda>r. PatchBucketStatusEv bucket modified (failure r));
       ret (failure r)
     }
   }"

definition patchStatus :: "('c, 'w) env \<Rightarrow> Bucket \<Rightarrow> 'c ResolvedClient option \<Rightarrow> error option \<Rightarrow>
    GetBucketMetadataOutput option \<Rightarrow> ('c, 'w, error option) prog" where
  "patchStatus E bucket resolved reconcileErr metadata = do {
     let condition = bucketReadyStatusCondition (lib E) bucket reconcileErr;
     statusErr \<leftarrow> updateBucketStatus E bucket resolved condition metadata;
     case statusErr of
       Some err \<Rightarrow> ret (Some err)
     | None \<Rightarrow> if isUserCorrectableBucketError reconcileErr then ret None else ret reconcileErr
   }"

definition patchFinalizer ::
  "('c, 'w) env \<Rightarrow> Bucket \<Rightarrow> (string list \<Rightarrow> string list) \<Rightarrow> ('c, 'w, Bucket \<times> error option) prog" where
  "patchFinalizer E bucket mutate = do {
     let modified = bucket\<lparr>bMeta := (bMeta bucket)\<lparr>Finalizers := mutate (Finalizers (bMeta bucket))\<rparr>\<rparr>;
     r \<leftarrow> call (apiPatchBucket (k8s E) bucket modified) (\<lambda>r. PatchBucketEv bucket modified (failure r));
     case r of
       Inl err \<Rightarrow> ret (modified, Some err)
     | Inr bucket' \<Rightarrow> ret (bucket', None)
   }"

section \<open>What is written\<close>

text \<open>A status patch touches the status only and reports the outcome for the current generation.\<close>

definition statusPatch :: "k8s_lib \<Rightarrow> Bucket \<Rightarrow> 'c ResolvedClient option \<Rightarrow> Condition \<Rightarrow>
    GetBucketMetadataOutput option \<Rightarrow> Bucket \<Rightarrow> bool" where
  "statusPatch L bucket resolved condition metadata modified \<longleftrightarrow>
     (\<exists>t now. modified = bucket\<lparr>bStatus :=
        (nextBucketStatus L t bucket resolved condition metadata)\<lparr>stLastSyncTime := Some now\<rparr>\<rparr>)"

lemma updateBucketStatus_emits:
  "emits (updateBucketStatus E b resolved cond md) (\<lambda>r evs. evs = [] \<and> r = None \<or>
     (\<exists>modified. evs = [PatchBucketStatusEv b modified r] \<and> statusPatch (lib E) b resolved cond md modified))"
  unfolding updateBucketStatus_def Let_def
  by (intro emits_intros) (auto simp: statusPatch_def)

lemma patchStatus_emits:
  "emits (patchStatus E b resolved err md) (\<lambda>r evs.
     (\<exists>statusErr. (evs = [] \<and> statusErr = None \<or>
        (\<exists>modified. evs = [PatchBucketStatusEv b modified statusErr] \<and>
           statusPatch (lib E) b resolved (bucketReadyStatusCondition (lib E) b err) md modified)) \<and>
      r = (case statusErr of
             Some e \<Rightarrow> Some e
           | None \<Rightarrow> if isUserCorrectableBucketError err then None else err)))"
  unfolding patchStatus_def Let_def
  by (intro emits_bind emits_mono [OF updateBucketStatus_emits])
     (auto intro!: emits_intros split: option.splits)

lemma patchFinalizer_emits:
  "emits (patchFinalizer E b mutate) (\<lambda>(b', r) evs.
     evs = [PatchBucketEv b (b\<lparr>bMeta := (bMeta b)\<lparr>Finalizers := mutate (Finalizers (bMeta b))\<rparr>\<rparr>) r])"
  unfolding patchFinalizer_def Let_def
  by (auto intro!: emits_intros split: sum.splits)

section \<open>No redundant status patch\<close>

text \<open>
  What is documented of \<open>meta.SetStatusCondition\<close>: afterwards the list has a condition of the given
  type with the given status, reason, message and generation; setting it again changes nothing.
\<close>

definition conditionHolds :: "Condition list \<Rightarrow> Condition \<Rightarrow> bool" where
  "conditionHolds cs c \<longleftrightarrow> list_ex (\<lambda>x. cType x = cType c \<and> cStatus x = cStatus c \<and> cReason x = cReason c \<and>
     cMessage x = cMessage c \<and> cObservedGeneration x = cObservedGeneration c) cs"

definition setConditionSets :: "k8s_lib \<Rightarrow> bool" where
  "setConditionSets L \<longleftrightarrow> (\<forall>t cs c. conditionHolds (SetStatusCondition L t cs c) c)"

definition setConditionStable :: "k8s_lib \<Rightarrow> bool" where
  "setConditionStable L \<longleftrightarrow>
     (\<forall>t t' cs c. SetStatusCondition L t' (SetStatusCondition L t cs c) c = SetStatusCondition L t cs c)"

lemma nextBucketStatus_stable:
  assumes "setConditionStable L" "statusPatch L b resolved cond md modified"
  shows "\<not> bucketStatusChanged (bStatus modified) (nextBucketStatus L t modified resolved cond md)"
  using assms
  by (auto simp: statusPatch_def nextBucketStatus_def bucketStatusChanged_def setConditionStable_def Let_def
      split: option.splits)

lemma updateBucketStatus_stable:
  assumes "setConditionStable (lib E)" "statusPatch (lib E) b resolved cond md modified"
  shows "emits (updateBucketStatus E modified resolved cond md) (\<lambda>r evs. r = None \<and> evs = [])"
  unfolding updateBucketStatus_def Let_def
  using nextBucketStatus_stable [OF assms]
  by (intro emits_intros) auto

lemma statusPatch_fields:
  assumes "setConditionSets L" "statusPatch L b resolved cond md modified"
  shows "bMeta modified = bMeta b \<and> bSpec modified = bSpec b \<and>
    stObservedGeneration (bStatus modified) = Generation (bMeta b) \<and>
    stLastSyncTime (bStatus modified) \<noteq> None \<and>
    conditionHolds (stConditions (bStatus modified)) cond \<and>
    (\<forall>r. resolved = Some r \<longrightarrow> stRegion (bStatus modified) = rcRegion r \<and>
       stBucketDomainName (bStatus modified) = bucketDomainName (bucketName b) (rcRegion r))"
  using assms
  by (auto simp: statusPatch_def nextBucketStatus_def setConditionSets_def Let_def split: option.splits)

end
