(* ===== verification/ProviderCache.thy ===== *)
theory ProviderCache
  imports World
begin

text \<open>
  The provider client cache of \<open>internal/provider/cache.go\<close>: one OBS client per ProviderConfig, valid
  for exactly one \<open>cacheKey\<close>.

  \<open>getLocked\<close>, \<open>setLocked\<close> and \<open>invalidateLocked\<close> are the critical sections (what runs under the
  mutex); the last two also give the clients that are closed after the mutex is released. The
  operations of the type \<open>Cache\<close> run them on the cache of the process, which may be a nil pointer.

  \<open>keyed_cache\<close> is the interface the resolver relies on, and \<open>refines_map\<close> in it relates a cache to
  a finite map from ProviderConfig names to a key and a client.
\<close>

section \<open>Operations\<close>

definition newResolvedClient :: "cacheKey \<Rightarrow> 'c option \<Rightarrow> 'c ResolvedClient" where
  "newResolvedClient key client =
     \<lparr>rcOBS = client, rcProviderConfig = ckProviderConfig key,
      rcCredentialsSecret = ckCredentialsSecret key, rcRegion = ckRegion key,
      rcEndpoint = ckEndpoint key, rcProviderRevision = [], rcFromCache = False\<rparr>"

definition cloneResolvedClient :: "'c ResolvedClient \<Rightarrow> 'c ResolvedClient" where
  "cloneResolvedClient resolved = resolved"

definition closeOBSClient :: "('c, 'w) env \<Rightarrow> 'c \<Rightarrow> 'w \<Rightarrow> 'w" where
  "closeOBSClient E client = apiClose (obs E) client"

definition NewCache :: "('c, 'w) env \<Rightarrow> ('c, 'w) Cache" where
  "NewCache E = \<lparr>cacheClients = [], cacheCloseClient = Some (closeOBSClient E)\<rparr>"

definition getLocked :: "('c, 'w) Cache \<Rightarrow> cacheKey \<Rightarrow> 'c ResolvedClient option" where
  "getLocked cache key =
     (case map_of (cacheClients cache) (ckProviderConfig key) of
        None \<Rightarrow> None
      | Some entry \<Rightarrow>
          if ceKey entry \<noteq> key then None else Some (cloneResolvedClient (ceResolved entry)))"

definition setLocked :: "('c, 'w) Cache \<Rightarrow> cacheKey \<Rightarrow> 'c option \<Rightarrow>
    ('c, 'w) Cache \<times> 'c ResolvedClient \<times> 'c option list" where
  "setLocked cache key client =
     (let resolved = newResolvedClient key client;
          stored = cache\<lparr>cacheClients := AList.update (ckProviderConfig key)
                     \<lparr>ceKey = key, ceResolved = resolved\<rparr> (cacheClients cache)\<rparr>
      in case map_of (cacheClients cache) (ckProviderConfig key) of
           None \<Rightarrow> (stored, cloneResolvedClient resolved, [])
         | Some existing \<Rightarrow>
             if ceKey existing = key
             then (cache, (cloneResolvedClient (ceResolved existing))\<lparr>rcFromCache := True\<rparr>, [client])
             else (stored, cloneResolvedClient resolved, [rcOBS (ceResolved existing)]))"

definition invalidateLocked :: "('c, 'w) Cache \<Rightarrow> NamespacedName \<Rightarrow> ('c, 'w) Cache \<times> 'c option list" where
  "invalidateLocked cache providerKey =
     (case map_of (cacheClients cache) providerKey of
        None \<Rightarrow> (cache, [])
      | Some entry \<Rightarrow>
          (cache\<lparr>cacheClients := AList.delete providerKey (cacheClients cache)\<rparr>, [rcOBS (ceResolved entry)]))"

primrec closeClients :: "('c, 'w) env \<Rightarrow> ('c, 'w) Cache \<Rightarrow> 'c option list \<Rightarrow> ('c, 'w, unit) prog" where
  "closeClients E cache [] = ret ()"
| "closeClients E cache (client # clients) = do {
     _ \<leftarrow> (case client of
       None \<Rightarrow> ret ()
     | Some c \<Rightarrow> call (\<lambda>w. ((), (case cacheCloseClient cache of
                                   None \<Rightarrow> closeOBSClient E
                                 | Some closeClient \<Rightarrow> closeClient) c w)) (\<lambda>_. CloseClientEv c));
     closeClients E cache clients
   }"

definition cacheGet :: "cacheKey \<Rightarrow> ('c, 'w, 'c ResolvedClient option) prog" where
  "cacheGet key = do {
     c \<leftarrow> getCache;
     ret (case c of None \<Rightarrow> None | Some cache \<Rightarrow> getLocked cache key)
   }"

definition cacheSet :: "('c, 'w) env \<Rightarrow> cacheKey \<Rightarrow> 'c option \<Rightarrow> ('c, 'w, 'c ResolvedClient) prog" where
  "cacheSet E key client = do {
     c \<leftarrow> getCache;
     case c of
       None \<Rightarrow> ret (newResolvedClient key client)
     | Some cache \<Rightarrow>
         (case setLocked cache key client of (cache', resolved, clientsToClose) \<Rightarrow> do {
            setCache (Some cache');
            closeClients E cache' clientsToClose;
            ret resolved
          })
   }"

definition cacheInvalidateProvider :: "('c, 'w) env \<Rightarrow> string \<Rightarrow> string \<Rightarrow> ('c, 'w, unit) prog" where
  "cacheInvalidateProvider E namespace name = do {
     c \<leftarrow> getCache;
     case c of
       None \<Rightarrow> ret ()
     | Some cache \<Rightarrow>
         (case invalidateLocked cache \<lparr>nnNamespace = namespace, nnName = name\<rparr> of (cache', clientsToClose) \<Rightarrow> do {
            setCache (Some cache');
            closeClients E cache' clientsToClose
          })
   }"

definition cacheLen :: "('c, 'w) Cache option \<Rightarrow> nat" where
  "cacheLen c = (case c of None \<Rightarrow> 0 | Some cache \<Rightarrow> length (cacheClients cache))"

section \<open>Invariant and abstraction\<close>

definition entryOk :: "NamespacedName \<Rightarrow> 'c cacheEntry \<Rightarrow> bool" where
  "entryOk k entry \<longleftrightarrow> ckProviderConfig (ceKey entry) = k \<and>
     newResolvedClient (ceKey entry) (rcOBS (ceResolved entry)) = ceResolved entry"

definition cacheOk :: "('c, 'w) Cache \<Rightarrow> bool" where
  "cacheOk cache \<longleftrightarrow> gomap_wf (cacheClients cache) \<and> list_all (\<lambda>(k, entry). entryOk k entry) (cacheClients cache)"

definition absCache :: "('c, 'w) Cache \<Rightarrow> NamespacedName \<Rightarrow> (cacheKey \<times> 'c option) option" where
  "absCache cache k =
     map_option (\<lambda>entry. (ceKey entry, rcOBS (ceResolved entry))) (map_of (cacheClients cache) k)"

lemma cacheOk_NewCache: "cacheOk (NewCache E)"
  by (simp add: cacheOk_def NewCache_def)

lemma absCache_NewCache: "absCache (NewCache E) = (\<lambda>_. None)"
  by (simp add: absCache_def NewCache_def fun_eq_iff)

lemma cacheOk_entry: "cacheOk cache \<Longrightarrow> map_of (cacheClients cache) k = Some entry \<Longrightarrow> entryOk k entry"
  by (auto simp: cacheOk_def list_all_iff dest!: map_of_SomeD)

lemma list_all_update:
  "list_all (\<lambda>(k, e). P k e) xs \<Longrightarrow> P k e \<Longrightarrow> list_all (\<lambda>(k, e). P k e) (AList.update k e xs)"
  by (induction xs) auto

lemma list_all_delete: "list_all P xs \<Longrightarrow> list_all P (AList.delete k xs)"
  by (induction xs) auto

lemma entryOk_new [simp]: "entryOk (ckProviderConfig key) \<lparr>ceKey = key, ceResolved = newResolvedClient key c\<rparr>"
  by (simp add: entryOk_def newResolvedClient_def)

lemma cacheOk_setLocked:
  assumes "cacheOk cache" "setLocked cache key client = (cache', r, cl)"
  shows "cacheOk cache'"
  using assms unfolding setLocked_def Let_def
  by (auto simp: cacheOk_def list_all_update split: option.splits if_splits)

lemma cacheOk_invalidateLocked:
  assumes "cacheOk cache" "invalidateLocked cache k = (cache', cl)"
  shows "cacheOk cache'"
  using assms unfolding invalidateLocked_def
  by (auto simp: cacheOk_def list_all_delete gomap_wf_def distinct_delete split: option.splits)

text \<open>The three critical sections are lookup, insert-unless-same and delete of a finite map.\<close>

lemma getLocked_abs:
  assumes "cacheOk cache"
  shows "getLocked cache key =
    (case absCache cache (ckProviderConfig key) of
       None \<Rightarrow> None
     | Some (k, c) \<Rightarrow> if k = key then Some (newResolvedClient key c) else None)"
proof (cases "map_of (cacheClients cache) (ckProviderConfig key)")
  case None
  then show ?thesis by (simp add: getLocked_def absCache_def)
next
  case (Some entry)
  from cacheOk_entry [OF assms this]
  have "newResolvedClient (ceKey entry) (rcOBS (ceResolved entry)) = ceResolved entry"
    by (simp add: entryOk_def)
  with Some show ?thesis by (auto simp: getLocked_def absCache_def cloneResolvedClient_def)
qed

lemma setLocked_abs:
  assumes "cacheOk cache" "setLocked cache key client = (cache', r, cl)"
  shows "case absCache cache (ckProviderConfig key) of
      Some (k, c) \<Rightarrow>
        if k = key
        then cache' = cache \<and> r = (newResolvedClient key c)\<lparr>rcFromCache := True\<rparr> \<and> cl = [client]
        else absCache cache' = (absCache cache)(ckProviderConfig key \<mapsto> (key, client)) \<and>
             r = newResolvedClient key client \<and> cl = [c]
    | None \<Rightarrow> absCache cache' = (absCache cache)(ckProviderConfig key \<mapsto> (key, client)) \<and>
             r = newResolvedClient key client \<and> cl = []"
proof -
  have upd: "absCache (cache\<lparr>cacheClients := AList.update (ckProviderConfig key)
      \<lparr>ceKey = key, ceResolved = newResolvedClient key client\<rparr> (cacheClients cache)\<rparr>) =
    (absCache cache)(ckProviderConfig key \<mapsto> (key, client))"
    by (simp add: absCache_def fun_eq_iff update_conv' newResolvedClient_def)
  show ?thesis
  proof (cases "map_of (cacheClients cache) (ckProviderConfig key)")
    case None
    with assms(2) upd show ?thesis
      by (auto simp: setLocked_def Let_def cloneResolvedClient_def absCache_def [of cache])
  next
    case (Some entry)
    from cacheOk_entry [OF assms(1) this]
    have "newResolvedClient (ceKey entry) (rcOBS (ceResolved entry)) = ceResolved entry"
      by (simp add: entryOk_def)
    with assms(2) upd Some show ?thesis
      by (auto simp: setLocked_def Let_def cloneResolvedClient_def absCache_def [of cache] split: if_splits)
  qed
qed

lemma invalidateLocked_abs:
  assumes "cacheOk cache" "invalidateLocked cache k = (cache', cl)"
  shows "absCache cache' = (absCache cache)(k := None) \<and>
    cl = (case absCache cache k of None \<Rightarrow> [] | Some (_, c) \<Rightarrow> [c])"
  using assms
  by (auto simp: invalidateLocked_def absCache_def fun_eq_iff delete_conv' split: option.splits)

section \<open>The interface of the cache\<close>

datatype 'cl cacheOp = StoreOp cacheKey 'cl | DropOp NamespacedName

fun evicts :: "'cl cacheOp \<Rightarrow> cacheKey \<Rightarrow> bool" where
  "evicts (StoreOp k _) key \<longleftrightarrow> ckProviderConfig k = ckProviderConfig key \<and> k \<noteq> key"
| "evicts (DropOp n) key \<longleftrightarrow> n = ckProviderConfig key"

locale keyed_cache =
  fixes inv :: "'s \<Rightarrow> bool"
    and lookup :: "'s \<Rightarrow> cacheKey \<Rightarrow> 'cl option"
    and store :: "'s \<Rightarrow> cacheKey \<Rightarrow> 'cl \<Rightarrow> 's"
    and dropKey :: "'s \<Rightarrow> NamespacedName \<Rightarrow> 's"
  assumes inv_store: "inv s \<Longrightarrow> inv (store s k c)"
    and inv_drop: "inv s \<Longrightarrow> inv (dropKey s n)"
    and lookup_store: "inv s \<Longrightarrow> lookup (store s k c) k' =
      (if k' = k then (case lookup s k of Some c0 \<Rightarrow> Some c0 | None \<Rightarrow> Some c)
       else if ckProviderConfig k' = ckProviderConfig k then None else lookup s k')"
    and lookup_drop: "inv s \<Longrightarrow> lookup (dropKey s n) k =
      (if ckProviderConfig k = n then None else lookup s k)"
begin

definition apply_op :: "'cl cacheOp \<Rightarrow> 's \<Rightarrow> 's" where
  "apply_op op s = (case op of StoreOp k c \<Rightarrow> store s k c | DropOp n \<Rightarrow> dropKey s n)"

lemma apply_op_simps [simp]:
  "apply_op (StoreOp k c) s = store s k c" "apply_op (DropOp n) s = dropKey s n"
  by (simp_all add: apply_op_def)

lemma inv_ops: "inv s \<Longrightarrow> inv (fold apply_op ops s)"
  by (induction ops arbitrary: s) (auto simp: inv_store inv_drop apply_op_def split: cacheOp.splits)

lemma hit_after_store: "inv s \<Longrightarrow> lookup (store s k c) k \<noteq> None"
  by (simp add: lookup_store split: option.splits)

lemma miss_after_change:
  "inv s \<Longrightarrow> ckProviderConfig k' = ckProviderConfig k \<Longrightarrow> k' \<noteq> k \<Longrightarrow> lookup (store s k c) k' = None"
  by (simp add: lookup_store)

text \<open>A hit goes back to a store of exactly this key and client that nothing has evicted since.\<close>

lemma hit_origin:
  assumes "inv s" "\<And>k. lookup s k = None" "lookup (fold apply_op ops s) key = Some c"
  shows "\<exists>pre post. ops = pre @ StoreOp key c # post \<and> (\<forall>op \<in> set post. \<not> evicts op key)"
  using assms(3)
proof (induction ops rule: rev_induct)
  case Nil
  then show ?case by (simp add: assms(2))
next
  case (snoc op ops)
  let ?s = "fold apply_op ops s"
  have inv: "inv ?s" by (rule inv_ops [OF assms(1)])
  have new: "op = StoreOp key c \<or> lookup ?s key = Some c \<and> \<not> evicts op key"
    using snoc.prems
    by (cases op) (auto simp: lookup_store [OF inv] lookup_drop [OF inv] split: option.splits if_splits)
  then show ?case
  proof
    assume "op = StoreOp key c"
    then show ?thesis by (intro exI [of _ ops] exI [of _ "[]"]) simp
  next
    assume old: "lookup ?s key = Some c \<and> \<not> evicts op key"
    with snoc.IH obtain pre post where "ops = pre @ StoreOp key c # post" "\<forall>op \<in> set post. \<not> evicts op key"
      by blast
    with old show ?thesis by (intro exI [of _ pre] exI [of _ "post @ [op]"]) auto
  qed
qed

end

definition lookupClient :: "('c, 'w) Cache \<Rightarrow> cacheKey \<Rightarrow> 'c option option" where
  "lookupClient cache key = map_option rcOBS (getLocked cache key)"

definition storeClient :: "('c, 'w) Cache \<Rightarrow> cacheKey \<Rightarrow> 'c option \<Rightarrow> ('c, 'w) Cache" where
  "storeClient cache key client = fst (setLocked cache key client)"

definition dropClient :: "('c, 'w) Cache \<Rightarrow> NamespacedName \<Rightarrow> ('c, 'w) Cache" where
  "dropClient cache n = fst (invalidateLocked cache n)"

lemma lookupClient_abs:
  "cacheOk cache \<Longrightarrow> lookupClient cache key =
     (case absCache cache (ckProviderConfig key) of
        None \<Rightarrow> None | Some (k, c) \<Rightarrow> if k = key then Some c else None)"
  by (auto simp: lookupClient_def getLocked_abs newResolvedClient_def split: option.splits)

lemma storeClient_ok: "cacheOk cache \<Longrightarrow> cacheOk (storeClient cache key c)"
  using cacheOk_setLocked [of cache key c] by (cases "setLocked cache key c") (simp add: storeClient_def)

lemma dropClient_ok: "cacheOk cache \<Longrightarrow> cacheOk (dropClient cache n)"
  using cacheOk_invalidateLocked [of cache n] by (cases "invalidateLocked cache n") (simp add: dropClient_def)

lemma absCache_storeClient:
  "cacheOk cache \<Longrightarrow> absCache (storeClient cache key c) =
     (case absCache cache (ckProviderConfig key) of
        Some (k, c0) \<Rightarrow> if k = key then absCache cache else (absCache cache)(ckProviderConfig key \<mapsto> (key, c))
      | None \<Rightarrow> (absCache cache)(ckProviderConfig key \<mapsto> (key, c)))"
  using setLocked_abs [of cache key c]
  by (cases "setLocked cache key c") (auto simp: storeClient_def split: option.splits if_splits)

lemma absCache_dropClient:
  "cacheOk cache \<Longrightarrow> absCache (dropClient cache n) = (absCache cache)(n := None)"
  using invalidateLocked_abs [of cache n]
  by (cases "invalidateLocked cache n") (simp add: dropClient_def)

lemma absCache_same_pc:
  "cacheOk cache \<Longrightarrow> absCache cache n = Some (k, c) \<Longrightarrow> ckProviderConfig k = n"
  using cacheOk_entry [of cache n] by (auto simp: absCache_def entryOk_def)

interpretation clientCache: keyed_cache cacheOk lookupClient storeClient dropClient
proof unfold_locales
  fix cache :: "('c, 'w) Cache" and k k' c n
  assume ok: "cacheOk cache"
  show "cacheOk (storeClient cache k c)" "cacheOk (dropClient cache n)"
    by (simp_all add: ok storeClient_ok dropClient_ok)
  show "lookupClient (storeClient cache k c) k' =
      (if k' = k then (case lookupClient cache k of Some c0 \<Rightarrow> Some c0 | None \<Rightarrow> Some c)
       else if ckProviderConfig k' = ckProviderConfig k then None else lookupClient cache k')"
  proof (cases "absCache cache (ckProviderConfig k)")
    case None
    then show ?thesis
      by (simp add: lookupClient_abs [OF ok] lookupClient_abs [OF storeClient_ok [OF ok]]
          absCache_storeClient [OF ok])
  next
    case (Some p)
    then obtain k0 c0 where "absCache cache (ckProviderConfig k) = Some (k0, c0)" by (cases p) simp
    then show ?thesis
      by (simp add: lookupClient_abs [OF ok] lookupClient_abs [OF storeClient_ok [OF ok]]
          absCache_storeClient [OF ok])
  qed
  show "lookupClient (dropClient cache n) k =
      (if ckProviderConfig k = n then None else lookupClient cache k)"
    by (simp add: lookupClient_abs [OF ok] lookupClient_abs [OF dropClient_ok [OF ok]]
        absCache_dropClient [OF ok])
qed

section \<open>Ownership of clients\<close>

text \<open>
  Every client that is built is in the cache or has been closed, and no client is both or closed
  twice: the clients form a multiset that the operations only move around.
\<close>

definition clientOf :: "'c option \<Rightarrow> 'c multiset" where
  "clientOf c = (case c of None \<Rightarrow> {#} | Some x \<Rightarrow> {#x#})"

definition liveClients :: "('c, 'w) Cache \<Rightarrow> 'c multiset" where
  "liveClients cache = (\<Sum>x\<in>#mset (cacheClients cache). clientOf (rcOBS (ceResolved (snd x))))"

definition clientsOf :: "'c option list \<Rightarrow> 'c multiset" where
  "clientsOf cs = (\<Sum>c\<in>#mset cs. clientOf c)"

fun closedIn :: "'c event list \<Rightarrow> 'c multiset" where
  "closedIn [] = {#}"
| "closedIn (CloseClientEv c # evs) = add_mset c (closedIn evs)"
| "closedIn (_ # evs) = closedIn evs"

fun builtIn :: "'c event list \<Rightarrow> 'c multiset" where
  "builtIn [] = {#}"
| "builtIn (NewClientEv _ _ _ (Inr c) # evs) = clientOf c + builtIn evs"
| "builtIn (_ # evs) = builtIn evs"

lemma clientsOf_simps [simp]:
  "clientsOf [] = {#}" "clientsOf (c # cs) = clientOf c + clientsOf cs"
  "clientOf None = {#}" "clientOf (Some x) = {#x#}"
  by (simp_all add: clientsOf_def clientOf_def)

lemma closedIn_append [simp]: "closedIn (xs @ ys) = closedIn xs + closedIn ys"
  by (induction xs rule: closedIn.induct) auto

lemma builtIn_append [simp]: "builtIn (xs @ ys) = builtIn xs + builtIn ys"
  by (induction xs rule: builtIn.induct) (auto simp: ac_simps)

lemma mset_update_new: "map_of xs k = None \<Longrightarrow> mset (AList.update k v xs) = add_mset (k, v) (mset xs)"
  by (induction xs) (auto split: if_splits)

lemma mset_update_old:
  "map_of xs k = Some v0 \<Longrightarrow> add_mset (k, v0) (mset (AList.update k v xs)) = add_mset (k, v) (mset xs)"
  by (induction xs) (auto split: if_splits simp: add_mset_commute)

lemma mset_delete:
  "gomap_wf xs \<Longrightarrow> map_of xs k = Some v0 \<Longrightarrow> add_mset (k, v0) (mset (AList.delete k xs)) = mset xs"
proof (induction xs)
  case (Cons x xs)
  then show ?case
    by (cases x) (auto simp: gomap_wf_def delete_id add_mset_commute dom_map_of_conv_image_fst split: if_splits)
qed simp

lemma setLocked_clients:
  assumes "setLocked cache key client = (cache', r, cl)"
  shows "liveClients cache' + clientsOf cl = liveClients cache + clientOf client"
proof -
  let ?f = "\<lambda>x. clientOf (rcOBS (ceResolved (snd x)))"
  let ?e = "\<lparr>ceKey = key, ceResolved = newResolvedClient key client\<rparr>"
  let ?xs = "cacheClients cache"
  have new: "rcOBS (newResolvedClient key client) = client" by (simp add: newResolvedClient_def)
  show ?thesis
  proof (cases "map_of ?xs (ckProviderConfig key)")
    case None
    then show ?thesis
      using assms by (auto simp: setLocked_def Let_def liveClients_def mset_update_new new ac_simps)
  next
    case (Some entry)
    have "(\<Sum>x\<in>#add_mset (ckProviderConfig key, entry) (mset (AList.update (ckProviderConfig key) ?e ?xs)). ?f x) =
        (\<Sum>x\<in>#add_mset (ckProviderConfig key, ?e) (mset ?xs). ?f x)"
      by (simp only: mset_update_old [OF Some])
    then show ?thesis
      using assms Some by (auto simp: setLocked_def Let_def liveClients_def new ac_simps split: if_splits)
  qed
qed

lemma invalidateLocked_clients:
  assumes "cacheOk cache" "invalidateLocked cache n = (cache', cl)"
  shows "liveClients cache' + clientsOf cl = liveClients cache"
proof (cases "map_of (cacheClients cache) n")
  case None
  then show ?thesis using assms by (simp add: invalidateLocked_def)
next
  case (Some entry)
  have "mset (cacheClients cache) = add_mset (n, entry) (mset (AList.delete n (cacheClients cache)))"
    using mset_delete [OF _ Some] assms(1) by (simp add: cacheOk_def)
  then show ?thesis
    using assms(2) Some by (auto simp: invalidateLocked_def liveClients_def ac_simps)
qed

text \<open>
  The ledger of a run: what was built is what was closed, what is cached, and at most one client
  that the running resolution holds.
\<close>

definition clientLedger :: "'c option \<Rightarrow> ('c, 'w) st \<Rightarrow> bool" where
  "clientLedger held s \<longleftrightarrow> (\<exists>cache. stCache s = Some cache \<and> cacheOk cache \<and>
     builtIn (stTrace s) = closedIn (stTrace s) + liveClients cache + clientOf held)"

lemma keeps_ledger_call [keeps_intros]:
  "(\<And>r. builtIn [ev r] = {#} \<and> closedIn [ev r] = {#}) \<Longrightarrow> program_keeps (clientLedger held) (call f ev)"
  by (auto simp: program_keeps_def clientLedger_def run_call split: prod.splits)

lemma keeps_ledger_obsCall [keeps_intros]: "program_keeps (clientLedger held) (obsCall c q f)"
  unfolding obsCall_def by (rule keeps_ledger_call) simp

lemma keeps_ledger_quiet [keeps_intros]: "program_keeps (clientLedger held) (quiet f)"
  by (auto simp: program_keeps_def clientLedger_def run_quiet split: prod.splits)

lemma keeps_ledger_getCache [keeps_intros]: "program_keeps (clientLedger held) getCache"
  by (simp add: program_keeps_def run_getCache)

lemma closeClients_run:
  assumes "run_state (closeClients E cache cs) s = (x, t)"
  shows "stCache t = stCache s \<and>
    (\<exists>evs. stTrace t = stTrace s @ evs \<and> builtIn evs = {#} \<and> closedIn evs = clientsOf cs)"
  using assms
proof (induction cs arbitrary: s)
  case (Cons c cs)
  show ?case
  proof (cases c)
    case None
    with Cons show ?thesis by simp
  next
    case (Some y)
    let ?w = "(case cacheCloseClient cache of None \<Rightarrow> closeOBSClient E | Some closeClient \<Rightarrow> closeClient) y (stWorld s)"
    from Cons.prems have "run_state (closeClients E cache cs)
        (s\<lparr>stWorld := ?w, stTrace := stTrace s @ [CloseClientEv y]\<rparr>) = (x, t)"
      by (simp add: Some run_call)
    from Cons.IH [OF this] obtain evs where "stCache t = stCache s" "stTrace t = stTrace s @ CloseClientEv y # evs"
      "builtIn evs = {#}" "closedIn evs = clientsOf cs" by auto
    with Some show ?thesis by (intro conjI exI [of _ "CloseClientEv y # evs"]) simp_all
  qed
qed simp

lemma cacheSet_ledger:
  assumes "clientLedger client s" "run_state (cacheSet E key client) s = (r, t)"
  shows "clientLedger None t"
proof -
  from assms(1) obtain cache where c: "stCache s = Some cache" "cacheOk cache"
    "builtIn (stTrace s) = closedIn (stTrace s) + liveClients cache + clientOf client"
    by (auto simp: clientLedger_def)
  obtain cache' r' cl where set: "setLocked cache key client = (cache', r', cl)" by (metis prod_cases3)
  from assms(2) c(1) set have "run_state (closeClients E cache' cl) (s\<lparr>stCache := Some cache'\<rparr>) = ((), t)"
    by (auto simp: cacheSet_def run_getCache run_setCache split: prod.splits)
  from closeClients_run [OF this] obtain evs where "stCache t = Some cache'"
    "stTrace t = stTrace s @ evs" "builtIn evs = {#}" "closedIn evs = clientsOf cl" by auto
  moreover have "closedIn (stTrace s) + liveClients cache + clientOf client =
      closedIn (stTrace s) + clientsOf cl + liveClients cache'"
    by (simp only: add.assoc flip: setLocked_clients [OF set]) (simp only: add.commute)
  ultimately show ?thesis
    using c(3) cacheOk_setLocked [OF c(2) set] by (simp add: clientLedger_def)
qed

lemma cacheInvalidate_ledger_run:
  assumes "clientLedger None s" "run_state (cacheInvalidateProvider E ns n) s = (x, t)"
  shows "clientLedger None t"
proof -
  from assms(1) obtain cache where c: "stCache s = Some cache" "cacheOk cache"
    "builtIn (stTrace s) = closedIn (stTrace s) + liveClients cache"
    by (auto simp: clientLedger_def)
  obtain cache' cl where inv: "invalidateLocked cache \<lparr>nnNamespace = ns, nnName = n\<rparr> = (cache', cl)" by fastforce
  with c(1) assms(2) have "run_state (closeClients E cache' cl) (s\<lparr>stCache := Some cache'\<rparr>) = ((), t)"
    by (auto simp: cacheInvalidateProvider_def run_getCache run_setCache split: prod.splits)
  from closeClients_run [OF this] obtain evs where "stCache t = Some cache'"
    "stTrace t = stTrace s @ evs" "builtIn evs = {#}" "closedIn evs = clientsOf cl" by auto
  moreover have "closedIn (stTrace s) + liveClients cache = closedIn (stTrace s) + clientsOf cl + liveClients cache'"
    by (simp only: add.assoc flip: invalidateLocked_clients [OF c(2) inv]) (simp only: add.commute)
  ultimately show ?thesis
    using c(3) cacheOk_invalidateLocked [OF c(2) inv] by (simp add: clientLedger_def)
qed

lemma keeps_cacheInvalidate [keeps_intros]:
  "program_keeps (clientLedger None) (cacheInvalidateProvider E ns n)"
  using cacheInvalidate_ledger_run by (metis program_keeps_def prod.collapse)

section \<open>Events of the cache operations\<close>

lemma closeClients_emits: "emitsOnly (\<lambda>e. \<exists>c. e = CloseClientEv c) (closeClients E cache cs)"
proof (induction cs)
  case (Cons c cs)
  show ?case
    unfolding closeClients.simps
    by (intro emits_intros emits_mono [OF Cons]) auto
qed (simp add: emits_return)

lemma cacheGet_emits: "emits (cacheGet key) (\<lambda>r evs. evs = [])"
  unfolding cacheGet_def by (intro emits_intros) simp

lemma cacheSet_emits: "emitsOnly (\<lambda>e. \<exists>c. e = CloseClientEv c) (cacheSet E key client)"
  unfolding cacheSet_def
  by (intro emits_intros emits_mono [OF closeClients_emits]) auto

lemma cacheInvalidate_emits: "emitsOnly (\<lambda>e. \<exists>c. e = CloseClientEv c) (cacheInvalidateProvider E ns n)"
  unfolding cacheInvalidateProvider_def
  by (intro emits_intros emits_mono [OF closeClients_emits]) auto

end
