(* ===== verification/Sha256.thy ===== *)
theory Sha256
  imports GoLib "HOL-Library.Word"
begin

text \<open>
  \<open>crypto/sha256\<close> and \<open>encoding/hex\<close> of the Go standard library, as the provider package uses them
  for its cache discriminator and its revision: the digest of a byte string (FIPS 180-4) on 32 bit
  words, whose additions wrap, and its lower case hexadecimal form.
\<close>

unbundle bit_operations_syntax

definition bytes :: "string \<Rightarrow> 8 word list" where
  "bytes s = map (\<lambda>c. word_of_nat (of_char c)) s"

definition sha256K :: "32 word list" where
  "sha256K =
    [0x428a2f98, 0x71374491, 0xb5c0fbcf, 0xe9b5dba5, 0x3956c25b, 0x59f111f1, 0x923f82a4, 0xab1c5ed5,
     0xd807aa98, 0x12835b01, 0x243185be, 0x550c7dc3, 0x72be5d74, 0x80deb1fe, 0x9bdc06a7, 0xc19bf174,
     0xe49b69c1, 0xefbe4786, 0x0fc19dc6, 0x240ca1cc, 0x2de92c6f, 0x4a7484aa, 0x5cb0a9dc, 0x76f988da,
     0x983e5152, 0xa831c66d, 0xb00327c8, 0xbf597fc7, 0xc6e00bf3, 0xd5a79147, 0x06ca6351, 0x14292967,
     0x27b70a85, 0x2e1b2138, 0x4d2c6dfc, 0x53380d13, 0x650a7354, 0x766a0abb, 0x81c2c92e, 0x92722c85,
     0xa2bfe8a1, 0xa81a664b, 0xc24b8b70, 0xc76c51a3, 0xd192e819, 0xd6990624, 0xf40e3585, 0x106aa070,
     0x19a4c116, 0x1e376c08, 0x2748774c, 0x34b0bcb5, 0x391c0cb3, 0x4ed8aa4a, 0x5b9cca4f, 0x682e6ff3,
     0x748f82ee, 0x78a5636f, 0x84c87814, 0x8cc70208, 0x90befffa, 0xa4506ceb, 0xbef9a3f7, 0xc67178f2]"

type_synonym hstate = "32 word \<times> 32 word \<times> 32 word \<times> 32 word \<times> 32 word \<times> 32 word \<times> 32 word \<times> 32 word"

definition sha256Init :: hstate where
  "sha256Init = (0x6a09e667, 0xbb67ae85, 0x3c6ef372, 0xa54ff53a, 0x510e527f, 0x9b05688c, 0x1f83d9ab, 0x5be0cd19)"

definition be64 :: "nat \<Rightarrow> 8 word list" where
  "be64 n = map (\<lambda>i. word_of_nat (n div 2 ^ (8 * (7 - i)))) [0..<8]"

definition sha256Pad :: "8 word list \<Rightarrow> 8 word list" where
  "sha256Pad bs =
     bs @ [0x80] @ replicate ((119 - length bs mod 64) mod 64) 0 @ be64 (8 * length bs)"

fun be32 :: "8 word list \<Rightarrow> 32 word list" where
  "be32 (a # b # c # d # bs) =
     (push_bit 24 (ucast a) OR push_bit 16 (ucast b) OR push_bit 8 (ucast c) OR ucast d) # be32 bs"
| "be32 _ = []"

function chunks :: "nat \<Rightarrow> 'a list \<Rightarrow> 'a list list" where
  "chunks n xs = (if xs = [] \<or> n = 0 then [] else take n xs # chunks n (drop n xs))"
  by pat_completeness auto
termination by (relation "measure (\<lambda>(n, xs). length xs)") auto

declare chunks.simps [simp del]

definition sha256Schedule :: "32 word list \<Rightarrow> 32 word list" where
  "sha256Schedule ws = fold (\<lambda>t w.
     let x = w ! (t - 15); y = w ! (t - 2);
         s0 = word_rotr 7 x XOR word_rotr 18 x XOR drop_bit 3 x;
         s1 = word_rotr 17 y XOR word_rotr 19 y XOR drop_bit 10 y
     in w @ [s1 + w ! (t - 7) + s0 + w ! (t - 16)]) [16..<64] ws"

definition sha256Round :: "32 word \<times> 32 word \<Rightarrow> hstate \<Rightarrow> hstate" where
  "sha256Round kw st = (case kw of (k, w) \<Rightarrow> case st of (a, b, c, d, e, f, g, h) \<Rightarrow>
     let t1 = h + (word_rotr 6 e XOR word_rotr 11 e XOR word_rotr 25 e) +
                ((e AND f) XOR ((NOT e) AND g)) + k + w;
         t2 = (word_rotr 2 a XOR word_rotr 13 a XOR word_rotr 22 a) +
                ((a AND b) XOR (a AND c) XOR (b AND c))
     in (t1 + t2, a, b, c, d + t1, e, f, g))"

definition sha256Block :: "8 word list \<Rightarrow> hstate \<Rightarrow> hstate" where
  "sha256Block block st =
     (case fold sha256Round (zip sha256K (sha256Schedule (be32 block))) st of
        (a, b, c, d, e, f, g, h) \<Rightarrow> case st of
        (a0, b0, c0, d0, e0, f0, g0, h0) \<Rightarrow>
          (a0 + a, b0 + b, c0 + c, d0 + d, e0 + e, f0 + f, g0 + g, h0 + h))"

definition wordBytes :: "32 word \<Rightarrow> 8 word list" where
  "wordBytes w = [ucast (drop_bit 24 w), ucast (drop_bit 16 w), ucast (drop_bit 8 w), ucast w]"

definition sha256 :: "8 word list \<Rightarrow> 8 word list" where
  "sha256 bs =
     (case fold sha256Block (chunks 64 (sha256Pad bs)) sha256Init of
        (a, b, c, d, e, f, g, h) \<Rightarrow> concat (map wordBytes [a, b, c, d, e, f, g, h]))"

definition hexDigit :: "nat \<Rightarrow> char" where
  "hexDigit n = ''0123456789abcdef'' ! n"

definition hexEncode :: "8 word list \<Rightarrow> string" where
  "hexEncode bs = concat (map (\<lambda>b. [hexDigit (unat b div 16), hexDigit (unat b mod 16)]) bs)"


section \<open>Facts\<close>

lemma sha256Pad_length: "length (sha256Pad bs) mod 64 = 0"
proof -
  obtain q r where n: "length bs = 64 * q + r" "r < 64"
    by (metis mod_less_divisor mult_div_mod_eq zero_less_numeral)
  then have "(119 - length bs mod 64) mod 64 = (if r \<le> 55 then 55 - r else 119 - r)"
    by (auto simp: le_mod_geq)
  with n show ?thesis
    by (simp add: sha256Pad_def be64_def split: if_splits)
qed

lemma sha256_length: "length (sha256 bs) = 32"
  by (simp add: sha256_def wordBytes_def split: prod.splits)

lemma hexEncode_length: "length (hexEncode bs) = 2 * length bs"
  by (induction bs) (simp_all add: hexEncode_def)

lemma hexDigit_inj: "i < 16 \<Longrightarrow> j < 16 \<Longrightarrow> hexDigit i = hexDigit j \<Longrightarrow> i = j"
proof -
  have d: "distinct ''0123456789abcdef''" by simp
  have l: "length ''0123456789abcdef'' = 16" by simp
  show "i < 16 \<Longrightarrow> j < 16 \<Longrightarrow> hexDigit i = hexDigit j \<Longrightarrow> i = j"
    unfolding hexDigit_def using nth_eq_iff_index_eq [OF d] l by metis
qed

lemma hexByte_inj:
  fixes a b :: "8 word"
  assumes "hexDigit (unat a div 16) = hexDigit (unat b div 16)"
    "hexDigit (unat a mod 16) = hexDigit (unat b mod 16)"
  shows "a = b"
proof -
  have byte: "unat x < 256" for x :: "8 word"
    using unsigned_less [where ?'a = nat and w = x] by simp
  have lt: "unat a div 16 < 16" "unat b div 16 < 16"
    using byte [of a] byte [of b] by auto
  have "unat a div 16 = unat b div 16" "unat a mod 16 = unat b mod 16"
    using hexDigit_inj [OF lt assms(1)] hexDigit_inj [OF _ _ assms(2)] by auto
  then have "unat a = unat b" by (metis div_mult_mod_eq)
  then show ?thesis by (rule unsigned_word_eqI)
qed

lemma hexEncode_inj: "hexEncode xs = hexEncode ys \<Longrightarrow> xs = ys"
proof (induction xs arbitrary: ys)
  case Nil
  then show ?case by (cases ys) (auto simp: hexEncode_def)
next
  case (Cons x xs)
  then show ?case
    by (cases ys) (auto simp: hexEncode_def dest: hexByte_inj)
qed

end
