(* ===== verification/ProviderIdentity.thy ===== *)
theory ProviderIdentity
  imports Sha256 World
begin

text \<open>
  The identities of \<open>provider_resolver.go\<close>: \<open>Credentials.Hash\<close>, which enters the cache key instead
  of the secret values, and \<open>observedProviderRevision\<close>, which is published in the status. Both are
  SHA-256 digests of strings separated or terminated by NUL bytes. Nothing is claimed about SHA-256
  itself; what is proved is that different inputs give different preimages, so that equal digests
  of different inputs are SHA-256 collisions.
\<close>

definition NUL :: char where
  "NUL = CHR 0x00"

definition credentialsPreimage :: "Credentials \<Rightarrow> string" where
  "credentialsPreimage c =
     crAccessKeyID c @ [NUL] @ crSecretAccessKey c @ [NUL] @ crSecurityToken c"

definition Hash :: "Credentials \<Rightarrow> string" where
  "Hash c = hexEncode (sha256 (bytes (credentialsPreimage c)))"

definition revisionValues :: "ProviderConfig \<Rightarrow> Secret \<Rightarrow> string \<Rightarrow> string \<Rightarrow> string list" where
  "revisionValues providerConfig secret region endpoint =
     [Namespace (pMeta providerConfig), Name (pMeta providerConfig), UID (pMeta providerConfig),
      SprintInt (Generation (pMeta providerConfig)),
      Namespace (secMeta secret), Name (secMeta secret), UID (secMeta secret),
      ResourceVersion (secMeta secret), region, endpoint]"

definition revisionPreimage :: "string list \<Rightarrow> string" where
  "revisionPreimage values = concat (map (\<lambda>v. v @ [NUL]) values)"

definition observedProviderRevision :: "ProviderConfig \<Rightarrow> Secret \<Rightarrow> string \<Rightarrow> string \<Rightarrow> string" where
  "observedProviderRevision providerConfig secret region endpoint =
     hexEncode (sha256 (bytes (revisionPreimage (revisionValues providerConfig secret region endpoint))))"

section \<open>Preimages determine their parts\<close>

lemma byte_inj: "(word_of_nat (of_char c) :: 8 word) = word_of_nat (of_char d) \<Longrightarrow> c = d"
proof -
  assume eq: "(word_of_nat (of_char c) :: 8 word) = word_of_nat (of_char d)"
  have "unat (word_of_nat (of_char x) :: 8 word) = of_char x" for x :: char
    by (simp add: unat_of_nat)
  then have "(of_char c :: nat) = of_char d" using eq by metis
  then show "c = d" by simp
qed

lemma bytes_inj: "bytes s = bytes t \<Longrightarrow> s = t"
proof (induction s arbitrary: t)
  case Nil
  then show ?case by (simp add: bytes_def)
next
  case (Cons c s)
  then obtain d u where t: "t = d # u" "bytes s = bytes u" "c = d"
    unfolding bytes_def by (auto simp: Cons_eq_map_conv dest!: byte_inj)
  with Cons.IH show ?case by simp
qed

lemma digest_eq:
  "hexEncode (sha256 (bytes s)) = hexEncode (sha256 (bytes t)) \<longleftrightarrow> sha256 (bytes s) = sha256 (bytes t)"
  by (auto dest: hexEncode_inj)

text \<open>The first two credentials end at the separators when they hold no NUL byte.\<close>

lemma credentialsPreimage_inj:
  assumes "credentialsPreimage c = credentialsPreimage d"
    "NUL \<notin> set (crAccessKeyID c)" "NUL \<notin> set (crSecretAccessKey c)"
    "NUL \<notin> set (crAccessKeyID d)" "NUL \<notin> set (crSecretAccessKey d)"
  shows "c = d"
proof -
  have "crAccessKeyID c @ NUL # (crSecretAccessKey c @ NUL # crSecurityToken c) =
      crAccessKeyID d @ NUL # (crSecretAccessKey d @ NUL # crSecurityToken d)"
    using assms(1) by (simp add: credentialsPreimage_def)
  from append_sep_inject [OF this assms(2,4)] have 1: "crAccessKeyID c = crAccessKeyID d"
    and 2: "crSecretAccessKey c @ NUL # crSecurityToken c = crSecretAccessKey d @ NUL # crSecurityToken d"
    by simp_all
  from append_sep_inject [OF 2 assms(3,5)] 1 show ?thesis by simp
qed

lemma revisionPreimage_inj:
  assumes "revisionPreimage xs = revisionPreimage ys" "length xs = length ys"
    "list_all (\<lambda>v. NUL \<notin> set v) xs" "list_all (\<lambda>v. NUL \<notin> set v) ys"
  shows "xs = ys"
  using assms(2,1,3,4)
proof (induction xs ys rule: list_induct2)
  case (Cons x xs y ys)
  then show ?case
    using append_sep_inject [of x NUL "revisionPreimage xs" y "revisionPreimage ys"]
    by (simp add: revisionPreimage_def)
qed simp

lemma decimal_digits: "c \<in> set (decimal n) \<Longrightarrow> c \<noteq> CHR ''-'' \<and> c \<noteq> NUL"
proof (induction n rule: decimal.induct)
  case (1 n)
  have digit: "(char_of (48 + k) :: char) \<noteq> CHR ''-''" "(char_of (48 + k) :: char) \<noteq> NUL" if "k < 10" for k :: nat
  proof -
    have "of_char (char_of (48 + k)) = 48 + k" using that by simp
    moreover have "of_char (CHR ''-'') = (45 :: nat)" "of_char NUL = (0 :: nat)" by (simp_all add: NUL_def)
    ultimately show "(char_of (48 + k) :: char) \<noteq> CHR ''-''" "(char_of (48 + k) :: char) \<noteq> NUL" by force+
  qed
  with 1 show ?case
    by (subst (asm) (2) decimal.simps) (auto split: if_splits)
qed

lemma digit_inj: "j < 10 \<Longrightarrow> k < 10 \<Longrightarrow> char_of (48 + j) = (char_of (48 + k) :: char) \<Longrightarrow> j = (k :: nat)"
proof -
  assume a: "j < 10" "k < 10" "char_of (48 + j) = (char_of (48 + k) :: char)"
  then have "of_char (char_of (48 + j) :: char) = 48 + j" "of_char (char_of (48 + k) :: char) = 48 + k"
    by simp_all
  with a(3) show "j = k" by (metis add_left_cancel)
qed

lemma decimal_nonempty: "decimal n \<noteq> []"
  by (subst decimal.simps) simp

lemma decimal_inj: "decimal m = decimal n \<Longrightarrow> m = n"
proof (induction m arbitrary: n rule: decimal.induct)
  case (1 m)
  have d: "decimal k = (if k < 10 then [] else decimal (k div 10)) @ [char_of (48 + k mod 10)]" for k
    by (subst decimal.simps) simp
  from 1(2) have "char_of (48 + m mod 10) = (char_of (48 + n mod 10) :: char)"
    and pre: "(if m < 10 then [] else decimal (m div 10)) = (if n < 10 then [] else decimal (n div 10))"
    unfolding d [of m] d [of n] by simp_all
  then have "m mod 10 = n mod 10" using digit_inj by simp
  moreover have "m div 10 = n div 10"
    using pre 1(1) decimal_nonempty [of "m div 10"] decimal_nonempty [of "n div 10"]
    by (auto split: if_splits)
  ultimately show ?case by (metis div_mult_mod_eq)
qed

lemma SprintInt_inj: "SprintInt i = SprintInt j \<Longrightarrow> i = j"
proof -
  have nd: "decimal n \<noteq> CHR ''-'' # xs" for n xs
    using decimal_digits [of "CHR ''-''" n] by (metis list.set_intros(1))
  show "SprintInt i = SprintInt j \<Longrightarrow> i = j"
    using nd by (auto simp: SprintInt_def split: if_splits dest!: decimal_inj dest: sym)
qed

lemma SprintInt_no_NUL: "NUL \<notin> set (SprintInt i)"
  using decimal_digits by (auto simp: SprintInt_def NUL_def)

end
