(* ===== verification/ProviderResolver.thy ===== *)
theory ProviderResolver
  imports ProviderCache ProviderIdentity
begin

text \<open>
  The provider resolver of \<open>internal/provider/provider_resolver.go\<close>: from a ProviderConfig and its
  credentials Secret to an OBS client, through the cache.

  A resolver is its client factory; the cache it holds is the cache of the state, and the
  Kubernetes client it holds is the one of the environment.
\<close>

section \<open>Operations\<close>

definition AccessKeyIDSecretKey :: string where
  "AccessKeyIDSecretKey = ''accessKeyID''"

definition SecretAccessKeySecretKey :: string where
  "SecretAccessKeySecretKey = ''secretAccessKey''"

definition SecurityTokenSecretKey :: string where
  "SecurityTokenSecretKey = ''securityToken''"

record ('c, 'w) ProviderResolver =
  prNewOBSClient :: "Credentials \<Rightarrow> string \<Rightarrow> string \<Rightarrow> ('w, 'c option) action"

definition newOBSClient :: "('c, 'w) env \<Rightarrow> Credentials \<Rightarrow> string \<Rightarrow> string \<Rightarrow> ('w, 'c option) action" where
  "newOBSClient E credentials endpoint region =
     apiNew (obs E) (crAccessKeyID credentials) (crSecretAccessKey credentials) endpoint
       [WithSecurityToken (crSecurityToken credentials), WithSignatureObs, WithRegion region]"

definition WithOBSClientFactory :: "(Credentials \<Rightarrow> string \<Rightarrow> string \<Rightarrow> ('w, 'c option) action) \<Rightarrow>
    ('c, 'w) ProviderResolver \<Rightarrow> ('c, 'w) ProviderResolver" where
  "WithOBSClientFactory factory r = r\<lparr>prNewOBSClient := factory\<rparr>"

definition NewProviderResolver ::
  "('c, 'w) env \<Rightarrow> (('c, 'w) ProviderResolver \<Rightarrow> ('c, 'w) ProviderResolver) list \<Rightarrow> ('c, 'w) ProviderResolver" where
  "NewProviderResolver E opts = fold (\<lambda>opt r. opt r) opts \<lparr>prNewOBSClient = newOBSClient E\<rparr>"

definition missingKey :: "Secret \<Rightarrow> string \<Rightarrow> error" where
  "missingKey secret key =
     WrapErr (sentinelText ErrMissingCredentials @ '': secret '' @ Namespace (secMeta secret) @ ''/'' @
       Name (secMeta secret) @ '' data key '' @ [CHR 0x22] @ key @ [CHR 0x22] @ '' is required'')
       (Sentinel ErrMissingCredentials)"

definition CredentialsFromSecret :: "Secret \<Rightarrow> error + Credentials" where
  "CredentialsFromSecret secret =
     (let credentials =
        \<lparr>crAccessKeyID = TrimSpace (mapLookup (secData secret) AccessKeyIDSecretKey),
         crSecretAccessKey = TrimSpace (mapLookup (secData secret) SecretAccessKeySecretKey),
         crSecurityToken = TrimSpace (mapLookup (secData secret) SecurityTokenSecretKey)\<rparr>
      in if crAccessKeyID credentials = [] then Inl (missingKey secret AccessKeyIDSecretKey)
         else if crSecretAccessKey credentials = [] then Inl (missingKey secret SecretAccessKeySecretKey)
         else Inr credentials)"

definition credentialsSecretKey :: "ProviderConfig \<Rightarrow> NamespacedName" where
  "credentialsSecretKey providerConfig =
     \<lparr>nnNamespace = Namespace (pMeta providerConfig),
      nnName = pcsCredentialsSecretRef (pSpec providerConfig)\<rparr>"

definition providerCacheKey :: "ProviderConfig \<Rightarrow> Secret \<Rightarrow> Credentials \<Rightarrow> string \<Rightarrow> string \<Rightarrow> cacheKey" where
  "providerCacheKey providerConfig secret credentials region endpoint =
     \<lparr>ckProviderConfig = \<lparr>nnNamespace = Namespace (pMeta providerConfig), nnName = Name (pMeta providerConfig)\<rparr>,
      ckProviderUID = UID (pMeta providerConfig),
      ckCredentialsSecret = credentialsSecretKey providerConfig,
      ckSecretUID = UID (secMeta secret),
      ckCredentialsHash = Hash credentials,
      ckRegion = region, ckEndpoint = endpoint\<rparr>"

definition resolveClient :: "('c, 'w) env \<Rightarrow> ('c, 'w) ProviderResolver \<Rightarrow> cacheKey \<Rightarrow> Credentials \<Rightarrow> string \<Rightarrow>
    ('c, 'w, error + 'c ResolvedClient) prog" where
  "resolveClient E R key credentials providerRevision = do {
     hit \<leftarrow> cacheGet key;
     case hit of
       Some resolved \<Rightarrow>
         ret (Inr (resolved\<lparr>rcFromCache := True, rcProviderRevision := providerRevision\<rparr>))
     | None \<Rightarrow> do {
         r \<leftarrow> call (prNewOBSClient R credentials (ckEndpoint key) (ckRegion key))
               (NewClientEv credentials (ckEndpoint key) (ckRegion key));
         case r of
           Inl err \<Rightarrow> ret (Inl (wrapf ''build OBS client: '' err))
         | Inr obsClient \<Rightarrow> do {
             resolved \<leftarrow> cacheSet E key obsClient;
             ret (Inr (resolved\<lparr>rcProviderRevision := providerRevision\<rparr>))
           }
       }
   }"

definition ResolveProviderConfigObject :: "('c, 'w) env \<Rightarrow> ('c, 'w) ProviderResolver \<Rightarrow> ProviderConfig \<Rightarrow>
    ('c, 'w, error + 'c ResolvedClient) prog" where
  "ResolveProviderConfigObject E R providerConfig = do {
     let secretKey = credentialsSecretKey providerConfig;
     r \<leftarrow> call (apiGetSecret (k8s E) secretKey) (GetSecretEv secretKey);
     case r of
       Inl err \<Rightarrow>
         if IsNotFound (lib E) err then ret (Inl (ResolutionNotFound ErrCredentialsSecretNotFound err))
         else ret (Inl err)
     | Inr secret \<Rightarrow>
         (case CredentialsFromSecret secret of
            Inl err \<Rightarrow> ret (Inl err)
          | Inr credentials \<Rightarrow> do {
              let region = TrimSpace (pcsRegion (pSpec providerConfig));
              case ResolveEndpoint (urllib E) region (pcsEndpoint (pSpec providerConfig)) of
                Inl err \<Rightarrow> ret (Inl err)
              | Inr endpoint \<Rightarrow>
                  resolveClient E R (providerCacheKey providerConfig secret credentials region endpoint)
                    credentials (observedProviderRevision providerConfig secret region endpoint)
            })
   }"

definition ResolveProviderConfig :: "('c, 'w) env \<Rightarrow> ('c, 'w) ProviderResolver \<Rightarrow> NamespacedName \<Rightarrow>
    ('c, 'w, error + 'c ResolvedClient) prog" where
  "ResolveProviderConfig E R key = do {
     r \<leftarrow> call (apiGetProviderConfig (k8s E) key) (GetProviderConfigEv key);
     case r of
       Inl err \<Rightarrow>
         if IsNotFound (lib E) err then ret (Inl (ResolutionNotFound ErrProviderConfigNotFound err))
         else ret (Inl err)
     | Inr providerConfig \<Rightarrow> ResolveProviderConfigObject E R providerConfig
   }"

definition ResolveBucket :: "('c, 'w) env \<Rightarrow> ('c, 'w) ProviderResolver \<Rightarrow> Bucket \<Rightarrow>
    ('c, 'w, error + 'c ResolvedClient) prog" where
  "ResolveBucket E R bucket = ResolveProviderConfig E R
     \<lparr>nnNamespace = Namespace (bMeta bucket), nnName = specProviderConfigRef (bSpec bucket)\<rparr>"

text \<open>\<open>(*ProviderResolver).InvalidateProvider\<close>; a nil resolver or cache is left alone.\<close>

definition InvalidateProvider :: "('c, 'w) env \<Rightarrow> ('c, 'w) ProviderResolver option \<Rightarrow> string \<Rightarrow> string \<Rightarrow>
    ('c, 'w, unit) prog" where
  "InvalidateProvider E R namespace name =
     (case R of None \<Rightarrow> ret () | Some _ \<Rightarrow> cacheInvalidateProvider E namespace name)"

text \<open>
  A reconciler without a resolver makes one with a cache of its own, which is dropped at the end.
\<close>

definition withOwnCache :: "('c, 'w) env \<Rightarrow> ('c, 'w, 'a) prog \<Rightarrow> ('c, 'w, 'a) prog" where
  "withOwnCache E m = do {
     c \<leftarrow> getCache;
     setCache (Some (NewCache E));
     x \<leftarrow> m;
     setCache c;
     ret x
   }"

section \<open>Credentials\<close>

lemma CredentialsFromSecret_ok:
  assumes "CredentialsFromSecret secret = Inr c"
  shows "crAccessKeyID c \<noteq> [] \<and> crSecretAccessKey c \<noteq> [] \<and>
    TrimSpace (crAccessKeyID c) = crAccessKeyID c \<and> TrimSpace (crSecretAccessKey c) = crSecretAccessKey c \<and>
    TrimSpace (crSecurityToken c) = crSecurityToken c"
  using assms by (auto simp: CredentialsFromSecret_def Let_def split: if_splits)

lemma CredentialsFromSecret_error:
  "CredentialsFromSecret secret = Inl e \<Longrightarrow> errorsIs e ErrMissingCredentials \<and> errChain e"
  by (auto simp: CredentialsFromSecret_def missingKey_def Let_def split: if_splits)

section \<open>Events\<close>

definition resolveEv :: "'c event \<Rightarrow> bool" where
  "resolveEv e \<longleftrightarrow> (\<exists>k r. e = GetProviderConfigEv k r) \<or> (\<exists>k r. e = GetSecretEv k r) \<or>
     (\<exists>cr ep rg r. e = NewClientEv cr ep rg r) \<or> (\<exists>c. e = CloseClientEv c)"

lemma resolveEv_simps [simp]:
  "resolveEv (GetProviderConfigEv k r)" "resolveEv (GetSecretEv k r')" "resolveEv (NewClientEv cr ep rg r'')"
  "resolveEv (CloseClientEv c)" "\<not> resolveEv (ObsEv c q x)" "\<not> resolveEv (PatchBucketEv b b' x)"
  "\<not> resolveEv (PatchBucketStatusEv b b' x)" "\<not> resolveEv (GetBucketEv k r3)"
  by (auto simp: resolveEv_def)

lemma resolveClient_emits: "emitsOnly resolveEv (resolveClient E R key cr rv)"
  unfolding resolveClient_def
  by (intro emits_intros emits_mono [OF cacheGet_emits] emits_mono [OF cacheSet_emits])
     (auto simp: list_all_iff resolveEv_def)

lemma ResolveProviderConfigObject_emits: "emitsOnly resolveEv (ResolveProviderConfigObject E R pc)"
  unfolding ResolveProviderConfigObject_def Let_def
  by (intro emits_intros emits_mono [OF resolveClient_emits]) auto

lemma ResolveProviderConfig_emits: "emitsOnly resolveEv (ResolveProviderConfig E R key)"
  unfolding ResolveProviderConfig_def
  by (intro emits_intros emits_mono [OF ResolveProviderConfigObject_emits]) auto

lemma ResolveBucket_emits: "emitsOnly resolveEv (ResolveBucket E R b)"
  unfolding ResolveBucket_def by (rule ResolveProviderConfig_emits)

lemma InvalidateProvider_emits: "emitsOnly resolveEv (InvalidateProvider E R ns n)"
  unfolding InvalidateProvider_def
  by (intro emits_intros emits_mono [OF cacheInvalidate_emits]) (auto simp: list_all_iff resolveEv_def)

lemma withOwnCache_emits:
  assumes "emits m Q"
  shows "emits (withOwnCache E m) Q"
proof -
  have "emits m (\<lambda>x evs. emits (State_Monad.bind (setCache c) (\<lambda>_. ret x)) (\<lambda>y evs'. Q y (evs @ evs')))" for c
    by (rule emits_mono [OF assms]) (intro emits_intros, simp)
  then show ?thesis
    unfolding withOwnCache_def by (intro emits_bind emits_getCache emits_setCache) simp
qed

section \<open>Which client a resolution returns\<close>

text \<open>
  \<open>builtFor evs key c\<close>: \<open>c\<close> was built during \<open>evs\<close> for the endpoint and region of the key, with
  credentials of the key's hash. Every cached client was built for its key, so a resolution never
  returns a client of other credentials, another endpoint or another region.
\<close>

definition builtFor :: "'c event list \<Rightarrow> cacheKey \<Rightarrow> 'c option \<Rightarrow> bool" where
  "builtFor evs key c \<longleftrightarrow> (\<exists>cr. Hash cr = ckCredentialsHash key \<and>
     NewClientEv cr (ckEndpoint key) (ckRegion key) (Inr c) \<in> set evs)"

definition cacheProvenance :: "('c, 'w) st \<Rightarrow> bool" where
  "cacheProvenance s \<longleftrightarrow> (\<forall>cache. stCache s = Some cache \<longrightarrow> cacheOk cache \<and>
     (\<forall>n key c. absCache cache n = Some (key, c) \<longrightarrow> builtFor (stTrace s) key c))"

lemma builtFor_append: "builtFor evs key c \<Longrightarrow> builtFor (evs @ evs') key c"
  by (auto simp: builtFor_def)

lemma provenance_same_cache:
  "cacheProvenance s \<Longrightarrow> stCache t = stCache s \<Longrightarrow> stTrace t = stTrace s @ evs \<Longrightarrow> cacheProvenance t"
  by (auto simp: cacheProvenance_def builtFor_append)

lemma keeps_provenance_call [keeps_intros]: "program_keeps cacheProvenance (call f ev)"
  by (auto simp: program_keeps_def run_call split: prod.splits elim!: provenance_same_cache)

lemma keeps_provenance_obsCall [keeps_intros]: "program_keeps cacheProvenance (obsCall c q f)"
  unfolding obsCall_def by (rule keeps_provenance_call)

lemma keeps_provenance_quiet [keeps_intros]: "program_keeps cacheProvenance (quiet f)"
  by (auto simp: program_keeps_def run_quiet cacheProvenance_def split: prod.splits)

lemma keeps_provenance_invalidate [keeps_intros]:
  "program_keeps cacheProvenance (cacheInvalidateProvider E ns n)"
proof -
  have "cacheProvenance t" if s: "cacheProvenance s" and run: "run_state (cacheInvalidateProvider E ns n) s = (x, t)"
    for s x t
  proof (cases "stCache s")
    case None
    with run s show ?thesis by (simp add: cacheInvalidateProvider_def run_getCache)
  next
    case (Some cache)
    obtain cache' cl where inv: "invalidateLocked cache \<lparr>nnNamespace = ns, nnName = n\<rparr> = (cache', cl)" by fastforce
    with Some run have "run_state (closeClients E cache' cl) (s\<lparr>stCache := Some cache'\<rparr>) = (x, t)"
      by (auto simp: cacheInvalidateProvider_def run_getCache run_setCache split: prod.splits)
    from closeClients_run [OF this] obtain evs where t: "stCache t = Some cache'" "stTrace t = stTrace s @ evs" by auto
    from s Some have ok: "cacheOk cache" by (simp add: cacheProvenance_def)
    show ?thesis
      using s Some t cacheOk_invalidateLocked [OF ok inv] invalidateLocked_abs [OF ok inv]
      by (auto simp: cacheProvenance_def builtFor_append split: if_splits)
  qed
  then show ?thesis by (metis program_keeps_def prod.collapse)
qed

definition resolvedFor :: "'c event list \<Rightarrow> cacheKey \<Rightarrow> 'c ResolvedClient \<Rightarrow> bool" where
  "resolvedFor evs key r \<longleftrightarrow> builtFor evs key (rcOBS r) \<and> rcProviderConfig r = ckProviderConfig key \<and>
     rcCredentialsSecret r = ckCredentialsSecret key \<and> rcRegion r = ckRegion key \<and> rcEndpoint r = ckEndpoint key"

lemma resolvedFor_new: "resolvedFor evs key (newResolvedClient key c) = builtFor evs key c"
  by (simp add: resolvedFor_def newResolvedClient_def)

lemma resolvedFor_update [simp]:
  "resolvedFor evs key (r\<lparr>rcFromCache := b\<rparr>) = resolvedFor evs key r"
  "resolvedFor evs key (r\<lparr>rcProviderRevision := v\<rparr>) = resolvedFor evs key r"
  by (simp_all add: resolvedFor_def)

lemma resolvedFor_append: "resolvedFor evs key r \<Longrightarrow> resolvedFor (evs @ evs') key r"
  by (simp add: resolvedFor_def builtFor_append)

lemma setLocked_provenance:
  assumes "cacheOk cache" "setLocked cache key client = (cache', r, cl)" "builtFor evs key client"
    "\<forall>n key c. absCache cache n = Some (key, c) \<longrightarrow> builtFor evs key c"
  shows "resolvedFor evs key r \<and> (\<forall>n key c. absCache cache' n = Some (key, c) \<longrightarrow> builtFor evs key c)"
proof (cases "absCache cache (ckProviderConfig key)")
  case None
  with setLocked_abs [OF assms(1,2)] assms(3,4) show ?thesis
    by (auto simp: resolvedFor_new split: if_splits)
next
  case (Some p)
  then obtain k c where p: "absCache cache (ckProviderConfig key) = Some (k, c)" by (cases p) simp
  with setLocked_abs [OF assms(1,2)] assms(3,4) show ?thesis
    by (cases "k = key") (auto simp: resolvedFor_new split: if_splits)
qed

lemma cacheSet_provenance:
  assumes "cacheProvenance s" "builtFor (stTrace s) key client" "run_state (cacheSet E key client) s = (r, t)"
  shows "cacheProvenance t \<and> resolvedFor (stTrace t) key r"
proof (cases "stCache s")
  case None
  with assms show ?thesis by (auto simp: cacheSet_def run_getCache resolvedFor_new)
next
  case (Some cache)
  obtain cache' r' cl where set: "setLocked cache key client = (cache', r', cl)" by (metis prod_cases3)
  have run: "run_state (closeClients E cache' cl) (s\<lparr>stCache := Some cache'\<rparr>) = ((), t)" "r = r'"
    using assms(3) Some set by (auto simp: cacheSet_def run_getCache run_setCache split: prod.splits)
  from closeClients_run [OF run(1)] obtain evs where t: "stCache t = Some cache'" "stTrace t = stTrace s @ evs" by auto
  from assms(1) Some have ok: "cacheOk cache"
    and all: "\<forall>n key c. absCache cache n = Some (key, c) \<longrightarrow> builtFor (stTrace s) key c"
    by (auto simp: cacheProvenance_def)
  show ?thesis
    using setLocked_provenance [OF ok set assms(2) all] cacheOk_setLocked [OF ok set] t run(2)
    by (auto simp: cacheProvenance_def builtFor_append resolvedFor_append)
qed

lemma resolveClient_provenance:
  assumes "cacheProvenance s" "Hash credentials = ckCredentialsHash key"
    "run_state (resolveClient E R key credentials rv) s = (r, t)"
  shows "cacheProvenance t \<and>
    (\<forall>res. r = Inr res \<longrightarrow> resolvedFor (stTrace t) key res \<and> rcProviderRevision res = rv)"
proof (cases "\<exists>cache res. stCache s = Some cache \<and> getLocked cache key = Some res")
  case True
  then obtain cache res where c: "stCache s = Some cache" "getLocked cache key = Some res" by blast
  from assms(1) c(1) have "cacheOk cache"
    and all: "\<forall>n key c. absCache cache n = Some (key, c) \<longrightarrow> builtFor (stTrace s) key c"
    by (auto simp: cacheProvenance_def)
  then have "resolvedFor (stTrace s) key res"
    using c(2) by (auto simp: getLocked_abs resolvedFor_new split: option.splits if_splits)
  with c assms show ?thesis
    by (auto simp: resolveClient_def cacheGet_def run_getCache)
next
  case False
  then have miss: "(case stCache s of None \<Rightarrow> None | Some cache \<Rightarrow> getLocked cache key) = None"
    by (auto split: option.splits)
  obtain b w where b: "prNewOBSClient R credentials (ckEndpoint key) (ckRegion key) (stWorld s) = (b, w)" by fastforce
  let ?s = "s\<lparr>stWorld := w, stTrace := stTrace s @ [NewClientEv credentials (ckEndpoint key) (ckRegion key) b]\<rparr>"
  have prov: "cacheProvenance ?s" by (rule provenance_same_cache [OF assms(1)]) simp_all
  show ?thesis
  proof (cases b)
    case (Inl e)
    with assms(3) miss b prov show ?thesis
      by (auto simp: resolveClient_def cacheGet_def run_getCache run_call)
  next
    case (Inr client)
    obtain res u where res: "run_state (cacheSet E key client) ?s = (res, u)" by fastforce
    have "builtFor (stTrace ?s) key client"
      using Inr assms(2) by (auto simp: builtFor_def)
    from cacheSet_provenance [OF prov this res] assms(3) miss b Inr res show ?thesis
      by (auto simp: resolveClient_def cacheGet_def run_getCache run_call)
  qed
qed

lemma ResolveProviderConfigObject_provenance:
  assumes "cacheProvenance s" "run_state (ResolveProviderConfigObject E R pc) s = (r, t)"
  shows "cacheProvenance t \<and> (\<forall>res. r = Inr res \<longrightarrow> (\<exists>secret cr ep.
    GetSecretEv (credentialsSecretKey pc) (Inr secret) \<in> set (emitted (ResolveProviderConfigObject E R pc) s) \<and>
    CredentialsFromSecret secret = Inr cr \<and>
    ResolveEndpoint (urllib E) (TrimSpace (pcsRegion (pSpec pc))) (pcsEndpoint (pSpec pc)) = Inr ep \<and>
    resolvedFor (stTrace t) (providerCacheKey pc secret cr (TrimSpace (pcsRegion (pSpec pc))) ep) res \<and>
    rcProviderRevision res = observedProviderRevision pc secret (TrimSpace (pcsRegion (pSpec pc))) ep))"
proof -
  let ?k = "credentialsSecretKey pc" and ?rg = "TrimSpace (pcsRegion (pSpec pc))"
  obtain g w where g: "apiGetSecret (k8s E) ?k (stWorld s) = (g, w)" by fastforce
  let ?s = "s\<lparr>stWorld := w, stTrace := stTrace s @ [GetSecretEv ?k g]\<rparr>"
  have prov: "cacheProvenance ?s" by (rule provenance_same_cache [OF assms(1)]) simp_all
  show ?thesis
  proof (cases "\<exists>secret cr ep. g = Inr secret \<and> CredentialsFromSecret secret = Inr cr \<and>
      ResolveEndpoint (urllib E) ?rg (pcsEndpoint (pSpec pc)) = Inr ep")
    case False
    with assms(2) g prov show ?thesis
      by (auto simp: ResolveProviderConfigObject_def Let_def run_call split: sum.splits if_splits)
  next
    case True
    then obtain secret cr ep where ok: "g = Inr secret" "CredentialsFromSecret secret = Inr cr"
      "ResolveEndpoint (urllib E) ?rg (pcsEndpoint (pSpec pc)) = Inr ep" by blast
    let ?key = "providerCacheKey pc secret cr ?rg ep" and ?rv = "observedProviderRevision pc secret ?rg ep"
    have run: "run_state (resolveClient E R ?key cr ?rv) ?s = (r, t)"
      using assms(2) g ok by (simp add: ResolveProviderConfigObject_def Let_def run_call)
    obtain evs where "stTrace t = stTrace ?s @ evs"
      using emitsD [OF resolveClient_emits run] by blast
    then have "GetSecretEv ?k (Inr secret) \<in> set (emitted (ResolveProviderConfigObject E R pc) s)"
      using ok(1) assms(2) by (simp add: emitted_def)
    moreover have "Hash cr = ckCredentialsHash ?key" by (simp add: providerCacheKey_def)
    from resolveClient_provenance [OF prov this run] have "cacheProvenance t"
      "\<forall>res. r = Inr res \<longrightarrow> resolvedFor (stTrace t) ?key res \<and> rcProviderRevision res = ?rv" by blast+
    ultimately show ?thesis using ok by blast
  qed
qed

lemma keeps_provenance_object [keeps_intros]:
  "program_keeps cacheProvenance (ResolveProviderConfigObject E R pc)"
  using ResolveProviderConfigObject_provenance by (metis program_keeps_def prod.collapse)

lemma keeps_provenance_resolve [keeps_intros]: "program_keeps cacheProvenance (ResolveProviderConfig E R key)"
  unfolding ResolveProviderConfig_def by (intro keeps_intros)

section \<open>No client is lost\<close>

lemma keeps_ledger_resolveClient [keeps_intros]:
  "program_keeps (clientLedger None) (resolveClient E R key cr rv)"
proof -
  have "clientLedger None t" if s: "clientLedger None s" and run: "run_state (resolveClient E R key cr rv) s = (r, t)"
    for s r t
  proof -
    from s obtain cache where c: "stCache s = Some cache" "cacheOk cache"
      "builtIn (stTrace s) = closedIn (stTrace s) + liveClients cache"
      by (auto simp: clientLedger_def)
    obtain b w where b: "prNewOBSClient R cr (ckEndpoint key) (ckRegion key) (stWorld s) = (b, w)" by fastforce
    let ?s = "s\<lparr>stWorld := w, stTrace := stTrace s @ [NewClientEv cr (ckEndpoint key) (ckRegion key) b]\<rparr>"
    show ?thesis
    proof (cases "getLocked cache key")
      case (Some res)
      with run c(1) s show ?thesis
        by (auto simp: resolveClient_def cacheGet_def run_getCache)
    next
      case None
      show ?thesis
      proof (cases b)
        case (Inl e)
        then have "clientLedger None ?s" using c by (simp add: clientLedger_def)
        with run c(1) None b Inl show ?thesis
          by (auto simp: resolveClient_def cacheGet_def run_getCache run_call)
      next
        case (Inr client)
        obtain res u where res: "run_state (cacheSet E key client) ?s = (res, u)" by fastforce
        have "clientLedger client ?s" using c Inr by (simp add: clientLedger_def)
        from cacheSet_ledger [OF this res] run c(1) None b Inr res show ?thesis
          by (auto simp: resolveClient_def cacheGet_def run_getCache run_call)
      qed
    qed
  qed
  then show ?thesis by (metis program_keeps_def prod.collapse)
qed

lemma keeps_ledger_object [keeps_intros]:
  "program_keeps (clientLedger None) (ResolveProviderConfigObject E R pc)"
  unfolding ResolveProviderConfigObject_def Let_def by (intro keeps_intros) simp_all

lemma keeps_ledger_resolve [keeps_intros]: "program_keeps (clientLedger None) (ResolveProviderConfig E R key)"
  unfolding ResolveProviderConfig_def by (intro keeps_intros) simp_all

lemma keeps_ledger_invalidate [keeps_intros]: "program_keeps (clientLedger None) (InvalidateProvider E R ns n)"
  unfolding InvalidateProvider_def by (intro keeps_intros)

section \<open>Errors of a resolution\<close>

text \<open>Every error of a resolution is a failed read, or says what the user has to correct, or a failed client build.\<close>

definition resolveError :: "k8s_lib \<Rightarrow> 'c event list \<Rightarrow> error \<Rightarrow> bool" where
  "resolveError L evs e \<longleftrightarrow>
     (\<exists>k x. GetProviderConfigEv k (Inl x) \<in> set evs \<and>
        e = (if IsNotFound L x then ResolutionNotFound ErrProviderConfigNotFound x else x)) \<or>
     (\<exists>k x. GetSecretEv k (Inl x) \<in> set evs \<and>
        e = (if IsNotFound L x then ResolutionNotFound ErrCredentialsSecretNotFound x else x)) \<or>
     (\<exists>k sec. GetSecretEv k (Inr sec) \<in> set evs \<and> CredentialsFromSecret sec = Inl e) \<or>
     (errorsIs e ErrInvalidEndpoint \<and> errChain e) \<or>
     (\<exists>cr ep rg x. NewClientEv cr ep rg (Inl x) \<in> set evs \<and> e = wrapf ''build OBS client: '' x)"

lemma resolveClient_error:
  "emits (resolveClient E R key cr rv) (\<lambda>r evs. \<forall>e. r = Inl e \<longrightarrow>
     (\<exists>cr ep rg x. NewClientEv cr ep rg (Inl x) \<in> set evs \<and> e = wrapf ''build OBS client: '' x))"
  unfolding resolveClient_def
  by (intro emits_intros emits_mono [OF cacheGet_emits] emits_mono [OF cacheSet_emits]) auto

lemma ResolveProviderConfigObject_error:
  "emits (ResolveProviderConfigObject E R pc) (\<lambda>r evs. \<forall>e. r = Inl e \<longrightarrow> resolveError (lib E) evs e)"
  unfolding ResolveProviderConfigObject_def Let_def
  by (intro emits_intros emits_mono [OF resolveClient_error])
     (use ResolveEndpoint_error in \<open>fastforce simp: resolveError_def\<close>)+

lemma ResolveProviderConfig_error:
  "emits (ResolveProviderConfig E R key) (\<lambda>r evs. \<forall>e. r = Inl e \<longrightarrow> resolveError (lib E) evs e)"
  unfolding ResolveProviderConfig_def
  by (intro emits_intros emits_mono [OF ResolveProviderConfigObject_error])
     (fastforce simp: resolveError_def)+

end
