(* ===== verification/BucketController.thy ===== *)
theory BucketController
  imports BucketConverge BucketLifecycle BucketStatus ProviderResolver
begin

text \<open>
  \<open>BucketReconciler.Reconcile\<close>, one reconciliation of a Bucket resource.

  The handler is split into the phases the code has: the deletion of a remote bucket
  (\<open>reconcileDeletion\<close>), the claim of a bucket that has no finalizer yet (\<open>reconcileClaim\<close>), the
  creation of an owned bucket that is missing (\<open>reconcileOwned\<close>), and the update of its settings
  (\<open>reconcileUpdate\<close>). The result is the returned error; the \<open>ctrl.Result\<close> is always empty. The fuel
  is that of \<open>deleteAllBucketObjects\<close>, and \<open>None\<close> means that this loop is still running.
\<close>

section \<open>The handler\<close>

definition finish :: "('s, 'a) state \<Rightarrow> ('s, 'a option) state" where
  "finish m = do { x \<leftarrow> m; ret (Some x) }"

definition resolveBucketClient :: "('c, 'w) env \<Rightarrow> ('c, 'w) ProviderResolver option \<Rightarrow> Bucket \<Rightarrow>
    ('c, 'w, error + 'c ResolvedClient) prog" where
  "resolveBucketClient E R bucket =
     (case R of
        Some resolver \<Rightarrow> ResolveBucket E resolver bucket
      | None \<Rightarrow> withOwnCache E (ResolveBucket E (NewProviderResolver E []) bucket))"

definition hasFinalizer :: "k8s_lib \<Rightarrow> Bucket \<Rightarrow> bool" where
  "hasFinalizer L bucket = ContainsFinalizer L (Finalizers (bMeta bucket)) bucketFinalizer"

definition reconcileDeletion :: "nat \<Rightarrow> ('c, 'w) env \<Rightarrow> Bucket \<Rightarrow> 'c ResolvedClient \<Rightarrow> bucketObservation \<Rightarrow>
    ('c, 'w, error option option) prog" where
  "reconcileDeletion n E bucket resolved observation = do {
     d \<leftarrow> (if obExists observation then delete n E (rcOBS resolved) bucket else ret (Some None));
     case d of
       None \<Rightarrow> ret None
     | Some (Some err) \<Rightarrow>
         if isBucketNotEmpty err \<and> \<not> specForceDestroy (bSpec bucket)
         then finish (updateBucketStatus E bucket (Some resolved)
                (bucketReadyStatusCondition (lib E) bucket (Some err)) None)
         else finish (patchStatus E bucket (Some resolved) (Some err) None)
     | Some None \<Rightarrow> do {
         (_, e) \<leftarrow> patchFinalizer E bucket (\<lambda>fs. RemoveFinalizer (lib E) fs bucketFinalizer);
         ret (Some e)
       }
   }"

definition unmanagedError :: "Bucket \<Rightarrow> error" where
  "unmanagedError bucket =
     WrapErr (sentinelText ErrBucketAlreadyExists @ '': bucket '' @ bucketName bucket @
       '' already exists and is not managed by this Bucket'') (Sentinel ErrBucketAlreadyExists)"

definition reconcileClaim :: "('c, 'w) env \<Rightarrow> Bucket \<Rightarrow> 'c ResolvedClient \<Rightarrow> bucketObservation \<Rightarrow>
    ('c, 'w, error option option) prog" where
  "reconcileClaim E bucket resolved observation =
     (if obExists observation
      then finish (patchStatus E bucket (Some resolved) (Some (unmanagedError bucket)) None)
      else do {
        (_, e) \<leftarrow> patchFinalizer E bucket (\<lambda>fs. AddFinalizer (lib E) fs bucketFinalizer);
        ret (Some e)
      })"

definition reconcileUpdate :: "('c, 'w) env \<Rightarrow> Bucket \<Rightarrow> 'c ResolvedClient \<Rightarrow> bucketObservation \<Rightarrow>
    ('c, 'w, error option option) prog" where
  "reconcileUpdate E bucket resolved observation = do {
     u \<leftarrow> update E (rcOBS resolved) bucket;
     case u of
       Some err \<Rightarrow> finish (patchStatus E bucket (Some resolved) (Some err) (obMetadata observation))
     | None \<Rightarrow> do {
         o2 \<leftarrow> observe E (rcOBS resolved) bucket;
         case o2 of
           Inl err \<Rightarrow> finish (patchStatus E bucket (Some resolved) (Some err) None)
         | Inr observation2 \<Rightarrow>
             finish (patchStatus E bucket (Some resolved) None (obMetadata observation2))
       }
   }"

definition reconcileCreateError :: "('c, 'w) env \<Rightarrow> Bucket \<Rightarrow> 'c ResolvedClient \<Rightarrow> error \<Rightarrow>
    ('c, 'w, error option option) prog" where
  "reconcileCreateError E bucket resolved err =
     (if errorsIs err ErrBucketAlreadyExists then do {
        (bucket', removeErr) \<leftarrow> patchFinalizer E bucket (\<lambda>fs. RemoveFinalizer (lib E) fs bucketFinalizer);
        let err' = (case removeErr of
                      None \<Rightarrow> err
                    | Some x \<Rightarrow> JoinErr [err, wrapf ''remove finalizer after bucket create conflict: '' x]);
        finish (patchStatus E bucket' (Some resolved) (Some err') None)
      }
      else finish (patchStatus E bucket (Some resolved) (Some err) None))"

definition reconcileOwned :: "('c, 'w) env \<Rightarrow> Bucket \<Rightarrow> 'c ResolvedClient \<Rightarrow> bucketObservation \<Rightarrow>
    ('c, 'w, error option option) prog" where
  "reconcileOwned E bucket resolved observation =
     (if \<not> obExists observation then do {
        e \<leftarrow> create E (rcOBS resolved) bucket (rcRegion resolved);
        case e of
          Some err \<Rightarrow> reconcileCreateError E bucket resolved err
        | None \<Rightarrow> reconcileUpdate E bucket resolved observation
      }
      else reconcileUpdate E bucket resolved observation)"

definition reconcileBody :: "nat \<Rightarrow> ('c, 'w) env \<Rightarrow> ('c, 'w) ProviderResolver option \<Rightarrow> Bucket \<Rightarrow>
    ('c, 'w, error option option) prog" where
  "reconcileBody n E R bucket =
     (if deleting bucket \<and> \<not> hasFinalizer (lib E) bucket then ret (Some None)
      else do {
        res \<leftarrow> resolveBucketClient E R bucket;
        case res of
          Inl err \<Rightarrow> finish (patchStatus E bucket None (Some err) None)
        | Inr resolved \<Rightarrow> do {
            o1 \<leftarrow> observe E (rcOBS resolved) bucket;
            case o1 of
              Inl err \<Rightarrow> finish (patchStatus E bucket (Some resolved) (Some err) None)
            | Inr observation \<Rightarrow>
                if deleting bucket then reconcileDeletion n E bucket resolved observation
                else if \<not> hasFinalizer (lib E) bucket then reconcileClaim E bucket resolved observation
                else reconcileOwned E bucket resolved observation
          }
      })"

definition Reconcile :: "nat \<Rightarrow> ('c, 'w) env \<Rightarrow> ('c, 'w) ProviderResolver option \<Rightarrow> NamespacedName \<Rightarrow>
    ('c, 'w, error option option) prog" where
  "Reconcile n E R req = do {
     r \<leftarrow> call (apiGetBucket (k8s E) req) (GetBucketEv req);
     case r of
       Inl err \<Rightarrow> ret (Some (if IsNotFound (lib E) err then None else Some err))
     | Inr bucket \<Rightarrow> reconcileBody n E R bucket
   }"

section \<open>Fuel\<close>

lemma Reconcile_fuel: "n \<le> m \<Longrightarrow> fuel_le (Reconcile n E R req) (Reconcile m E R req)"
  unfolding Reconcile_def reconcileBody_def reconcileDeletion_def
  by (intro fuel_intros fuel_refl fuel_bind_fuel)
     (auto intro!: fuel_refl delete_fuel split: option.splits)

lemma emits_finish [emits_intros]:
  "emits m (\<lambda>x evs. Q (Some x) evs) \<Longrightarrow> emits (finish m) Q"
  unfolding finish_def by (intro emits_bind) (auto elim!: emits_mono intro!: emits_return)

lemma keeps_finish [keeps_intros]: "program_keeps I m \<Longrightarrow> program_keeps I (finish m)"
  unfolding finish_def by (intro keeps_intros)

lemma resolveBucketClient_emits: "emitsOnly resolveEv (resolveBucketClient E R b)"
  unfolding resolveBucketClient_def
  by (cases R) (simp_all add: ResolveBucket_emits withOwnCache_emits)

section \<open>Which requests a reconciliation makes\<close>

fun reqAllowed :: "k8s_lib \<Rightarrow> Bucket \<Rightarrow> obs_req \<Rightarrow> bool" where
  "reqAllowed L b RListBuckets \<longleftrightarrow> False"
| "reqAllowed L b (RGetBucketMetadata nm) \<longleftrightarrow> nm = bucketName b"
| "reqAllowed L b (RCreateBucket i) \<longleftrightarrow> cbBucket i = bucketName b \<and> \<not> deleting b \<and> hasFinalizer L b"
| "reqAllowed L b (RDeleteBucket nm) \<longleftrightarrow> nm = bucketName b \<and> deleting b \<and> hasFinalizer L b"
| "reqAllowed L b (RListVersions nm) \<longleftrightarrow>
     nm = bucketName b \<and> deleting b \<and> hasFinalizer L b \<and> specForceDestroy (bSpec b)"
| "reqAllowed L b (RDeleteObjects nm os) \<longleftrightarrow>
     nm = bucketName b \<and> deleting b \<and> hasFinalizer L b \<and> specForceDestroy (bSpec b)"
| "reqAllowed L b q \<longleftrightarrow> reqBucket q = Some (bucketName b) \<and> \<not> deleting b \<and> hasFinalizer L b"

definition withFinalizers :: "Bucket \<Rightarrow> string list \<Rightarrow> Bucket" where
  "withFinalizers b fs = b\<lparr>bMeta := (bMeta b)\<lparr>Finalizers := fs\<rparr>\<rparr>"

definition reconcileEv :: "k8s_lib \<Rightarrow> Bucket \<Rightarrow> 'c event \<Rightarrow> bool" where
  "reconcileEv L b e \<longleftrightarrow> resolveEv e \<or>
     (\<exists>c q x. e = ObsEv c q x \<and> reqAllowed L b q) \<or>
     (\<exists>b0 b1 x. e = PatchBucketStatusEv b0 b1 x \<and> bMeta b1 = bMeta b0 \<and> bSpec b1 = bSpec b0) \<or>
     (\<exists>x. e = PatchBucketEv b (withFinalizers b (AddFinalizer L (Finalizers (bMeta b)) bucketFinalizer)) x \<and>
        \<not> deleting b \<and> \<not> hasFinalizer L b) \<or>
     (\<exists>x. e = PatchBucketEv b (withFinalizers b (RemoveFinalizer L (Finalizers (bMeta b)) bucketFinalizer)) x \<and>
        hasFinalizer L b)"

lemma reqAllowed_setting:
  "reqFor (bucketName b) S q \<Longrightarrow> \<not> deleting b \<Longrightarrow> hasFinalizer L b \<Longrightarrow> reqAllowed L b q"
  by (cases q) (auto simp: reqFor_def)

lemma statusPatch_meta: "statusPatch L b resolved cond md m \<Longrightarrow> bMeta m = bMeta b \<and> bSpec m = bSpec b"
  by (auto simp: statusPatch_def)

lemma updateBucketStatus_only: "emitsOnly (reconcileEv L b) (updateBucketStatus E b' resolved cond md)"
  by (rule emits_mono [OF updateBucketStatus_emits]) (auto simp: reconcileEv_def dest: statusPatch_meta)

lemma patchStatus_only: "emitsOnly (reconcileEv L b) (patchStatus E b' resolved err md)"
  by (rule emits_mono [OF patchStatus_emits]) (auto simp: reconcileEv_def dest: statusPatch_meta)

lemma observe_only: "emitsOnly (reconcileEv L b) (observe E c b)"
  by (rule emits_mono [OF observe_emits]) (auto simp: reconcileEv_def)

lemma removeFinalizer_only:
  "hasFinalizer (lib E) b \<Longrightarrow>
   emitsOnly (reconcileEv (lib E) b) (patchFinalizer E b (\<lambda>fs. RemoveFinalizer (lib E) fs bucketFinalizer))"
  by (rule emits_mono [OF patchFinalizer_emits]) (auto simp: reconcileEv_def withFinalizers_def)

lemma addFinalizer_only:
  "\<not> deleting b \<Longrightarrow> \<not> hasFinalizer (lib E) b \<Longrightarrow>
   emitsOnly (reconcileEv (lib E) b) (patchFinalizer E b (\<lambda>fs. AddFinalizer (lib E) fs bucketFinalizer))"
  by (rule emits_mono [OF patchFinalizer_emits]) (auto simp: reconcileEv_def withFinalizers_def)

lemma delete_only:
  "deleting b \<Longrightarrow> hasFinalizer L b \<Longrightarrow> emitsOnly (reconcileEv L b) (delete n E c b)"
  by (rule emits_mono [OF delete_emits])
     (fastforce simp: deleteTrace_def reconcileEv_def list_all_iff emptyingReq_def)

lemma create_only:
  "\<not> deleting b \<Longrightarrow> hasFinalizer L b \<Longrightarrow> emitsOnly (reconcileEv L b) (create E c b region)"
  by (rule emits_mono [OF create_emits]) (auto simp: reconcileEv_def createInput_def)

lemma update_only:
  "\<not> deleting b \<Longrightarrow> hasFinalizer L b \<Longrightarrow> emitsOnly (reconcileEv L b) (update E c b)"
  by (rule emits_mono [OF update_emitsOnly]) (fastforce simp: reconcileEv_def list_all_iff intro: reqAllowed_setting)

lemma emitsOnly_bind:
  assumes "emitsOnly P m" "\<And>x. emitsOnly P (k x)"
  shows "emitsOnly P (State_Monad.bind m k)"
  by (intro emits_bind emits_mono [OF assms(1)] emits_mono [OF assms(2)]) simp

lemma emitsOnly_finish: "emitsOnly P m \<Longrightarrow> emitsOnly P (finish m)"
  by (intro emits_finish) simp

lemma reconcileDeletion_only:
  assumes "deleting b" "hasFinalizer (lib E) b"
  shows "emitsOnly (reconcileEv (lib E) b) (reconcileDeletion n E b resolved ob)"
  unfolding reconcileDeletion_def
  by (intro emitsOnly_bind emits_if emits_case_option emits_case_prod emitsOnly_finish delete_only
      updateBucketStatus_only patchStatus_only removeFinalizer_only assms emits_return) simp_all

lemma reconcileClaim_only:
  assumes "\<not> deleting b" "\<not> hasFinalizer (lib E) b"
  shows "emitsOnly (reconcileEv (lib E) b) (reconcileClaim E b resolved ob)"
  unfolding reconcileClaim_def
  by (intro emitsOnly_bind emits_if emits_case_prod emitsOnly_finish patchStatus_only addFinalizer_only
      assms emits_return) simp

lemma reconcileUpdate_only:
  assumes "\<not> deleting b" "hasFinalizer (lib E) b"
  shows "emitsOnly (reconcileEv (lib E) b) (reconcileUpdate E b resolved ob)"
  unfolding reconcileUpdate_def
  by (intro emitsOnly_bind emits_case_option emits_case_sum emitsOnly_finish patchStatus_only update_only
      observe_only assms)

lemma reconcileOwned_only:
  assumes "\<not> deleting b" "hasFinalizer (lib E) b"
  shows "emitsOnly (reconcileEv (lib E) b) (reconcileOwned E b resolved ob)"
  unfolding reconcileOwned_def reconcileCreateError_def Let_def
  by (intro emitsOnly_bind emits_if emits_case_option emits_case_prod emitsOnly_finish patchStatus_only
      create_only reconcileUpdate_only removeFinalizer_only assms)

lemma resolveBucketClient_only: "emitsOnly (reconcileEv L b) (resolveBucketClient E R b')"
  by (rule emits_mono [OF resolveBucketClient_emits]) (auto simp: reconcileEv_def list_all_iff)

lemma reconcileBody_only: "emitsOnly (reconcileEv (lib E) b) (reconcileBody n E R b)"
  unfolding reconcileBody_def
  by (intro emitsOnly_bind emits_if emits_case_sum emitsOnly_finish patchStatus_only observe_only
      resolveBucketClient_only reconcileDeletion_only reconcileClaim_only reconcileOwned_only emits_return)
     simp_all

text \<open>A reconciliation reads the Bucket, and all that follows is about the Bucket it read.\<close>

lemma Reconcile_cases:
  assumes "\<And>err. Q (Some (if IsNotFound (lib E) err then None else Some err)) [GetBucketEv req (Inl err)]"
    "\<And>b. emits (reconcileBody n E R b) (\<lambda>r evs. Q r (GetBucketEv req (Inr b) # evs))"
  shows "emits (Reconcile n E R req) Q"
  unfolding Reconcile_def
  by (intro emits_bind emits_call emits_case_sum emits_return) (simp_all only: append.simps append_Nil2 assms)

section \<open>Ownership\<close>

text \<open>
  The order of observations and of the steps that claim, create or release a bucket. A bucket that
  exists without the finalizer is never adopted, an owned one is created only after it was observed
  missing, and the finalizer is given up only when the bucket is gone or turned out to be foreign.
\<close>

definition observedMissing :: "string \<Rightarrow> 'c event \<Rightarrow> bool" where
  "observedMissing nm e \<longleftrightarrow> (\<exists>c x. e = ObsEv c (RGetBucketMetadata nm) (Some x) \<and> isBucketNotFound x)"

definition bucketGone :: "string \<Rightarrow> 'c event \<Rightarrow> bool" where
  "bucketGone nm e \<longleftrightarrow> observedMissing nm e \<or> (\<exists>c. bucketGoneEv c nm e)"

definition createConflict :: "string \<Rightarrow> 'c event \<Rightarrow> bool" where
  "createConflict nm e \<longleftrightarrow> (\<exists>c i x. e = ObsEv c (RCreateBucket i) (Some x) \<and> cbBucket i = nm \<and>
     (isCreateBucketConflict x \<or> errorsIs x ErrBucketAlreadyExists))"

definition createEv :: "'c event \<Rightarrow> bool" where
  "createEv e \<longleftrightarrow> (\<exists>c i x. e = ObsEv c (RCreateBucket i) x)"

definition finalizerEv :: "'c event \<Rightarrow> bool" where
  "finalizerEv e \<longleftrightarrow> (\<exists>b b' x. e = PatchBucketEv b b' x)"

definition releaseCause :: "k8s_lib \<Rightarrow> Bucket \<Rightarrow> 'c event \<Rightarrow> bool" where
  "releaseCause L b e \<longleftrightarrow>
     (if deleting b then bucketGone (bucketName b) e
      else if hasFinalizer L b then createConflict (bucketName b) e
      else observedMissing (bucketName b) e)"

lemma releaseCause_simps:
  "deleting b \<Longrightarrow> releaseCause L b = bucketGone (bucketName b)"
  "\<not> deleting b \<Longrightarrow> hasFinalizer L b \<Longrightarrow> releaseCause L b = createConflict (bucketName b)"
  "\<not> deleting b \<Longrightarrow> \<not> hasFinalizer L b \<Longrightarrow> releaseCause L b = observedMissing (bucketName b)"
  by (auto simp: releaseCause_def fun_eq_iff)

abbreviation ownEv :: "'c event \<Rightarrow> bool" where
  "ownEv e \<equiv> createEv e \<or> finalizerEv e"

lemma ownEv_simps [simp]:
  "createEv (ObsEv c q x) \<longleftrightarrow> (\<exists>i. q = RCreateBucket i)" "\<not> finalizerEv (ObsEv c q x)"
  "\<not> createEv (PatchBucketEv b b' x)" "finalizerEv (PatchBucketEv b b' x)"
  "\<not> createEv (PatchBucketStatusEv b b' x)" "\<not> finalizerEv (PatchBucketStatusEv b b' x)"
  "\<not> createEv (GetBucketEv k r)" "\<not> finalizerEv (GetBucketEv k r)"
  by (auto simp: createEv_def finalizerEv_def)

lemma resolveEv_not_own: "resolveEv e \<Longrightarrow> \<not> ownEv e"
  by (auto simp: resolveEv_def createEv_def finalizerEv_def)

lemma noOwn_resolve: "emitsOnly (\<lambda>e. \<not> ownEv e) (resolveBucketClient E R b)"
  by (rule emits_mono [OF resolveBucketClient_emits])
     (use resolveEv_not_own in \<open>auto simp: list_all_iff\<close>)

lemma noOwn_status: "emitsOnly (\<lambda>e. \<not> ownEv e) (updateBucketStatus E b resolved cond md)"
  by (rule emits_mono [OF updateBucketStatus_emits]) auto

lemma noOwn_patchStatus: "emitsOnly (\<lambda>e. \<not> ownEv e) (patchStatus E b resolved err md)"
  by (rule emits_mono [OF patchStatus_emits]) auto

lemma noOwn_observe: "emitsOnly (\<lambda>e. \<not> ownEv e) (observe E c b)"
  by (rule emits_mono [OF observe_emits]) auto

lemma noOwn_update: "emitsOnly (\<lambda>e. \<not> ownEv e) (update E c b)"
  by (rule emits_mono [OF update_emitsOnly]) (fastforce simp: list_all_iff reqFor_def)

lemma noOwn_reconcileUpdate: "emitsOnly (\<lambda>e. \<not> ownEv e) (reconcileUpdate E b resolved ob)"
  unfolding reconcileUpdate_def
  by (intro emitsOnly_bind emits_case_option emits_case_sum emitsOnly_finish noOwn_patchStatus noOwn_update
      noOwn_observe)

definition ownershipOk :: "k8s_lib \<Rightarrow> Bucket \<Rightarrow> 'c event list \<Rightarrow> bool" where
  "ownershipOk L b evs \<longleftrightarrow> guarded (observedMissing (bucketName b)) createEv evs \<and>
     guarded (releaseCause L b) finalizerEv evs"

lemma ownershipOk_quiet: "list_all (\<lambda>e. \<not> ownEv e) evs \<Longrightarrow> ownershipOk L b evs"
  by (auto simp: ownershipOk_def list_all_iff intro!: guarded_none)

lemma ownershipOk_append:
  "list_all (\<lambda>e. \<not> ownEv e) xs \<Longrightarrow> ownershipOk L b ys \<Longrightarrow> ownershipOk L b (xs @ ys)"
  using ownershipOk_quiet [of xs L b] by (auto simp: ownershipOk_def guarded_append)

lemma ownership_quiet: "emitsOnly (\<lambda>e. \<not> ownEv e) m \<Longrightarrow> emits m (\<lambda>r evs. ownershipOk L b evs)"
  by (erule emits_mono) (rule ownershipOk_quiet)

lemma ownership_bind:
  assumes "emitsOnly (\<lambda>e. \<not> ownEv e) m" "\<And>x. emits (k x) (\<lambda>r evs. ownershipOk L b evs)"
  shows "emits (State_Monad.bind m k) (\<lambda>r evs. ownershipOk L b evs)"
  by (intro emits_bind emits_mono [OF assms(1)] emits_mono [OF assms(2)] ownershipOk_append)

lemma noOwn_delete: "emits (delete n E c b) (\<lambda>r evs. list_all (\<lambda>e. \<not> ownEv e) evs \<and>
    (r = Some None \<longrightarrow> list_ex (bucketGone (bucketName b)) evs))"
proof (rule emits_mono [OF delete_emits], elim conjE, intro conjI impI)
  fix r evs
  assume t: "deleteTrace c b evs"
  then show "list_all (\<lambda>e. \<not> ownEv e) evs"
    by (fastforce simp: deleteTrace_def list_all_iff emptyingReq_def)
  assume "r = Some None \<longrightarrow> bucketGoneEv c (bucketName b) (last evs)" "r = Some None"
  moreover from t have "last evs \<in> set evs" by (intro last_in_set) (auto simp: deleteTrace_def)
  ultimately show "list_ex (bucketGone (bucketName b)) evs"
    by (auto simp: list_ex_iff bucketGone_def)
qed

lemma deletion_ownership:
  assumes "deleting b" "obExists ob"
  shows "emits (reconcileDeletion n E b resolved ob) (\<lambda>r evs. ownershipOk L b evs)"
proof -
  have fin: "emits (State_Monad.bind (patchFinalizer E b f) (\<lambda>(_, e). ret (Some e)))
      (\<lambda>r evs'. ownershipOk L b (evs @ evs'))"
    if "list_all (\<lambda>e. \<not> ownEv e) evs" "list_ex (bucketGone (bucketName b)) evs" for f evs
    using that ownershipOk_quiet [OF that(1), of L b]
    by (intro emits_bind emits_mono [OF patchFinalizer_emits])
       (auto intro!: emits_return simp: ownershipOk_def guarded_append releaseCause_simps(1) [OF assms(1)]
         split: prod.splits)
  have st: "emits (finish m) (\<lambda>r evs'. ownershipOk L b (evs @ evs'))"
    if "list_all (\<lambda>e. \<not> ownEv e) evs" "emitsOnly (\<lambda>e. \<not> ownEv e) m" for m :: "('a, 'b, error option) prog" and evs
    using that by (intro emits_finish emits_mono [OF that(2)] ownershipOk_append ownershipOk_quiet)
  have "emits (case d of None \<Rightarrow> ret None
      | Some None \<Rightarrow> State_Monad.bind (patchFinalizer E b (\<lambda>fs. RemoveFinalizer (lib E) fs bucketFinalizer))
                      (\<lambda>(_, e). ret (Some e))
      | Some (Some err) \<Rightarrow> if isBucketNotEmpty err \<and> \<not> specForceDestroy (bSpec b)
          then finish (updateBucketStatus E b (Some resolved) (bucketReadyStatusCondition (lib E) b (Some err)) None)
          else finish (patchStatus E b (Some resolved) (Some err) None)) (\<lambda>r evs'. ownershipOk L b (evs @ evs'))"
    if "list_all (\<lambda>e. \<not> ownEv e) evs" "d = Some None \<longrightarrow> list_ex (bucketGone (bucketName b)) evs" for d evs
    using that fin st [OF that(1) noOwn_status] st [OF that(1) noOwn_patchStatus] ownershipOk_quiet [OF that(1)]
    by (auto intro!: emits_return split: option.split)
  then show ?thesis
    unfolding reconcileDeletion_def using assms(2)
    by (simp, intro emits_bind emits_mono [OF noOwn_delete]) blast
qed

lemma claim_ownership:
  "obExists ob \<Longrightarrow> emits (reconcileClaim E b resolved ob) (\<lambda>r evs. ownershipOk L b evs)"
  unfolding reconcileClaim_def
  by (simp, intro ownership_quiet emitsOnly_finish noOwn_patchStatus)

text \<open>Once the bucket was observed missing, only the finalizer of an owned bucket needs care.\<close>

lemma ownershipOk_missing:
  assumes "observedMissing (bucketName b) e"
    "\<not> deleting b \<Longrightarrow> hasFinalizer L b \<Longrightarrow> guarded (createConflict (bucketName b)) finalizerEv evs"
  shows "ownershipOk L b (e # evs)"
  using assms
  by (cases "deleting b"; cases "hasFinalizer L b")
     (auto simp: ownershipOk_def releaseCause_simps bucketGone_def observedMissing_def)

lemma createError_ownership:
  assumes "errorsIs err ErrBucketAlreadyExists \<Longrightarrow> createConflict (bucketName b) e" "\<not> finalizerEv e"
  shows "emits (reconcileCreateError E b resolved err) (\<lambda>r evs. guarded (createConflict (bucketName b)) finalizerEv (e # evs))"
proof (cases "errorsIs err ErrBucketAlreadyExists")
  case True
  then show ?thesis
    unfolding reconcileCreateError_def Let_def using assms
    by (simp, intro emits_bind emits_mono [OF patchFinalizer_emits] emits_case_prod emits_finish
        emits_mono [OF noOwn_patchStatus]) simp
next
  case False
  then show ?thesis
    unfolding reconcileCreateError_def using assms(2)
    by (simp, intro emits_finish emits_mono [OF noOwn_patchStatus]) (auto intro!: guarded_none elim: list.pred_mono_strong)
qed

lemma owned_ownership:
  "emits (reconcileOwned E b resolved ob) (\<lambda>r evs. guarded (createConflict (bucketName b)) finalizerEv evs)"
proof -
  have upd: "emits (reconcileUpdate E b resolved ob) (\<lambda>r evs. list_all (\<lambda>e. \<not> finalizerEv e) evs)"
    by (rule emits_mono [OF noOwn_reconcileUpdate]) (auto elim: list.pred_mono_strong)
  show ?thesis
    unfolding reconcileOwned_def
    by (intro emits_if emits_bind emits_mono [OF create_emits] emits_case_option)
       (auto intro!: createError_ownership emits_mono [OF upd] guarded_none
          simp: createConflict_def createInput_def simp del: guarded.simps split: option.splits)
qed

lemma reconcileBody_ownership: "emits (reconcileBody n E R b) (\<lambda>r evs. ownershipOk (lib E) b evs)"
proof -
  have missing: "emits m (\<lambda>r evs. ownershipOk (lib E) b (ObsEv c (RGetBucketMetadata (bucketName b)) (Some x) # evs))"
    if "isBucketNotFound x" "emits m (\<lambda>r evs. \<not> deleting b \<longrightarrow> hasFinalizer (lib E) b \<longrightarrow>
      guarded (createConflict (bucketName b)) finalizerEv evs)" for m :: "('a, 'b, error option option) prog" and c x
    using that by (intro emits_mono [OF that(2)] ownershipOk_missing) (auto simp: observedMissing_def)
  have found: "emits m (\<lambda>r evs. ownershipOk (lib E) b (ObsEv c (RGetBucketMetadata (bucketName b)) x # evs))"
    if "emits m (\<lambda>r evs. ownershipOk (lib E) b evs)" for m :: "('a, 'b, error option option) prog" and c x
    using ownershipOk_append [of "[ObsEv c (RGetBucketMetadata (bucketName b)) x]" "lib E" b]
    by (intro emits_mono [OF that]) simp
  let ?phase = "\<lambda>resolved ob. if deleting b then reconcileDeletion n E b resolved ob
    else if \<not> hasFinalizer (lib E) b then reconcileClaim E b resolved ob else reconcileOwned E b resolved ob"
  have phase: "emits (?phase resolved ob)
      (\<lambda>r evs. ownershipOk (lib E) b (ObsEv c (RGetBucketMetadata (bucketName b)) x # evs))"
    if "deleting b \<longrightarrow> hasFinalizer (lib E) b" "obExists ob = (x = None)" "\<forall>e. x = Some e \<longrightarrow> isBucketNotFound e"
    for resolved ob c x
  proof (cases "obExists ob")
    case True
    have "emits (reconcileOwned E b resolved ob) (\<lambda>r evs. ownershipOk (lib E) b evs)"
      unfolding reconcileOwned_def using True ownership_quiet [OF noOwn_reconcileUpdate] by simp
    then show ?thesis
      by (intro found emits_if deletion_ownership claim_ownership True)
  next
    case False
    with that obtain e where e: "x = Some e" "isBucketNotFound e" by auto
    have "emits (?phase resolved ob) (\<lambda>r evs. \<not> deleting b \<longrightarrow> hasFinalizer (lib E) b \<longrightarrow>
        guarded (createConflict (bucketName b)) finalizerEv evs)"
      using that(1)
      by (intro emits_if emits_mono [OF owned_ownership] emits_mono [OF reconcileDeletion_only]
          emits_mono [OF reconcileClaim_only]) simp_all
    from missing [OF e(2) this] e(1) show ?thesis by simp
  qed
  have obs: "emits (State_Monad.bind (observe E (rcOBS resolved) b) (\<lambda>o1. case o1 of
      Inl err \<Rightarrow> finish (patchStatus E b (Some resolved) (Some err) None)
    | Inr ob \<Rightarrow> ?phase resolved ob)) (\<lambda>r evs. ownershipOk (lib E) b evs)"
    if "deleting b \<longrightarrow> hasFinalizer (lib E) b" for resolved
    using phase [OF that]
    by (intro emits_bind emits_mono [OF observe_emits] emits_case_sum)
       (auto intro!: found ownership_quiet emitsOnly_finish noOwn_patchStatus)
  show ?thesis
    unfolding reconcileBody_def
    by (intro emits_if ownership_bind noOwn_resolve emits_case_sum obs emits_return
        ownership_quiet [OF emitsOnly_finish [OF noOwn_patchStatus]]) (auto intro: ownershipOk_quiet)
qed

end
