(* ===== verification/BucketReconcile.thy ===== *)
theory BucketReconcile
  imports BucketController
begin

text \<open>
  What a reconciliation of a Bucket returns, when it returns, what it leaves of the provider cache,
  and what it means when it reports a Bucket ready.
\<close>

section \<open>Returned errors\<close>

text \<open>
  A reconciliation is retried only when a write to the Kubernetes API failed or the error is not
  one the user has to correct.
\<close>

definition apiWriteFailed :: "'c event list \<Rightarrow> error \<Rightarrow> bool" where
  "apiWriteFailed evs e \<longleftrightarrow>
     (\<exists>b b'. PatchBucketStatusEv b b' (Some e) \<in> set evs \<or> PatchBucketEv b b' (Some e) \<in> set evs)"

definition retryCause :: "error option option \<Rightarrow> 'c event list \<Rightarrow> bool" where
  "retryCause r evs \<longleftrightarrow> (\<forall>e. r = Some (Some e) \<longrightarrow> apiWriteFailed evs e \<or> \<not> correctable e)"

lemma retryCause_append: "retryCause r ys \<Longrightarrow> retryCause r (xs @ ys)"
  by (auto simp: retryCause_def apiWriteFailed_def)

lemma retryCause_bind:
  assumes "emits m (\<lambda>x evs. R x evs)" "\<And>x. emits (k x) retryCause"
  shows "emits (State_Monad.bind m k) retryCause"
  by (intro emits_bind emits_mono [OF assms(1)] emits_mono [OF assms(2)] retryCause_append)

lemma retryCause_patchStatus: "emits (finish (patchStatus E b resolved err md)) retryCause"
  by (intro emits_finish emits_mono [OF patchStatus_emits])
     (auto simp: retryCause_def apiWriteFailed_def isUserCorrectableBucketError_def
        split: option.splits if_splits)

lemma retryCause_status: "emits (finish (updateBucketStatus E b resolved cond md)) retryCause"
  by (intro emits_finish emits_mono [OF updateBucketStatus_emits])
     (auto simp: retryCause_def apiWriteFailed_def)

lemma retryCause_finalizer:
  "emits (State_Monad.bind (patchFinalizer E b f) (\<lambda>(_, e). ret (Some e))) retryCause"
  by (intro emits_bind emits_mono [OF patchFinalizer_emits])
     (auto intro!: emits_return simp: retryCause_def apiWriteFailed_def split: prod.splits)

lemma retryCause_update: "emits (reconcileUpdate E b resolved ob) retryCause"
  unfolding reconcileUpdate_def
  by (intro retryCause_bind [OF update_emits] retryCause_bind [OF observe_emits] emits_case_option
      emits_case_sum retryCause_patchStatus)

lemma retryCause_createError: "emits (reconcileCreateError E b resolved err) retryCause"
  unfolding reconcileCreateError_def Let_def
  by (intro emits_if retryCause_bind [OF patchFinalizer_emits] emits_case_prod retryCause_patchStatus)

lemma retryCause_deletion: "emits (reconcileDeletion n E b resolved ob) retryCause"
proof -
  have "emits (if obExists ob then delete n E (rcOBS resolved) b else ret (Some None)) (\<lambda>_ _. True)"
    by (intro emits_if emits_mono [OF delete_emits] emits_return) simp_all
  then show ?thesis
    unfolding reconcileDeletion_def
    by (rule retryCause_bind)
       (intro emits_if emits_case_option retryCause_patchStatus retryCause_status retryCause_finalizer emits_return,
        simp add: retryCause_def)
qed

lemma retryCause_owned: "emits (reconcileOwned E b resolved ob) retryCause"
  unfolding reconcileOwned_def
  by (intro emits_if retryCause_bind [OF create_emits] emits_case_option retryCause_update retryCause_createError)

lemma retryCause_claim: "emits (reconcileClaim E b resolved ob) retryCause"
  unfolding reconcileClaim_def by (intro emits_if retryCause_patchStatus retryCause_finalizer)

lemma retryCause_body: "emits (reconcileBody n E R b) retryCause"
  unfolding reconcileBody_def
  by (intro emits_if retryCause_bind [OF resolveBucketClient_emits] retryCause_bind [OF observe_emits]
      emits_case_sum retryCause_patchStatus retryCause_deletion retryCause_owned retryCause_claim emits_return)
     (simp add: retryCause_def)

section \<open>A reconciliation returns\<close>

definition returns :: "('s, 'a option) state \<Rightarrow> bool" where
  "returns m \<longleftrightarrow> (\<forall>s. \<exists>r t. run_state m s = (Some r, t))"

named_theorems returns_intros \<open>programs that return from every state\<close>

lemma returns_ret [returns_intros]: "returns (ret (Some x))"
  by (simp add: returns_def)

lemma returns_finish [returns_intros]: "returns (finish m)"
  by (simp add: returns_def finish_def split: prod.splits)

lemma returns_bind [returns_intros]: "(\<And>x. returns (k x)) \<Longrightarrow> returns (State_Monad.bind m k)"
  by (simp add: returns_def split: prod.splits)

lemma returns_bind_fuel: "returns m \<Longrightarrow> (\<And>x. returns (k (Some x))) \<Longrightarrow> returns (State_Monad.bind m k)"
  unfolding returns_def by (simp split: prod.splits) (metis old.prod.inject)

lemma returns_if [returns_intros]: "(b \<Longrightarrow> returns m) \<Longrightarrow> (\<not> b \<Longrightarrow> returns m') \<Longrightarrow> returns (if b then m else m')"
  by simp

lemma returns_case_option [returns_intros]:
  "(r = None \<Longrightarrow> returns f) \<Longrightarrow> (\<And>x. r = Some x \<Longrightarrow> returns (g x)) \<Longrightarrow>
   returns (case r of None \<Rightarrow> f | Some x \<Rightarrow> g x)"
  by (simp split: option.splits)

lemma returns_case_sum [returns_intros]:
  "(\<And>x. r = Inl x \<Longrightarrow> returns (f x)) \<Longrightarrow> (\<And>x. r = Inr x \<Longrightarrow> returns (g x)) \<Longrightarrow>
   returns (case r of Inl x \<Rightarrow> f x | Inr x \<Rightarrow> g x)"
  by (simp split: sum.splits)

lemma returns_case_prod [returns_intros]:
  "(\<And>x y. returns (f x y)) \<Longrightarrow> returns (case p of (x, y) \<Rightarrow> f x y)"
  by (simp split: prod.splits)

lemma returns_delete:
  assumes "specForceDestroy (bSpec b) \<Longrightarrow> returns (deleteAllBucketObjects n E c (bucketName b))"
  shows "returns (delete n E c b)"
  unfolding delete_def Let_def
  by (intro returns_intros returns_bind_fuel [OF assms]) (auto intro!: returns_intros)

lemma returns_update: "returns (reconcileUpdate E b resolved ob)"
  unfolding reconcileUpdate_def by (intro returns_intros)

lemma returns_owned: "returns (reconcileOwned E b resolved ob)"
  unfolding reconcileOwned_def reconcileCreateError_def Let_def
  by (intro returns_intros returns_update)

lemma returns_claim: "returns (reconcileClaim E b resolved ob)"
  unfolding reconcileClaim_def by (intro returns_intros)

lemma returns_deletion:
  assumes "\<And>c. returns (delete n E c b)"
  shows "returns (reconcileDeletion n E b resolved ob)"
  unfolding reconcileDeletion_def
  by (intro returns_bind_fuel returns_if assms returns_ret) (auto intro!: returns_intros)

lemma returns_body:
  assumes "\<And>c. specForceDestroy (bSpec b) \<Longrightarrow> returns (deleteAllBucketObjects n E c (bucketName b))"
  shows "returns (reconcileBody n E R b)"
  unfolding reconcileBody_def
  by (intro returns_intros returns_deletion returns_delete assms returns_owned returns_claim)

text \<open>With enough fuel: a family of programs, one for each amount of fuel.\<close>

definition terminates :: "(nat \<Rightarrow> ('s, 'a option) state) \<Rightarrow> bool" where
  "terminates F \<longleftrightarrow> (\<forall>s. \<exists>n r t. run_state (F n) s = (Some r, t))"

named_theorems terminates_intros \<open>programs that return with enough fuel\<close>

lemma terminates_returns: "(\<And>n. returns (F n)) \<Longrightarrow> terminates F"
  unfolding terminates_def returns_def by blast

lemma terminates_bind [terminates_intros]:
  assumes "\<And>x. terminates (\<lambda>n. k n x)"
  shows "terminates (\<lambda>n. State_Monad.bind m (k n))"
  unfolding terminates_def
proof
  fix s
  obtain x t where m: "run_state m s = (x, t)" by fastforce
  obtain n r u where "run_state (k n x) t = (Some r, u)"
    using assms [of x] unfolding terminates_def by blast
  with m show "\<exists>n r t. run_state (State_Monad.bind m (k n)) s = (Some r, t)"
    by (intro exI [of _ n]) simp
qed

lemma terminates_bind_fuel:
  assumes "terminates F" "\<And>x. returns (k (Some x))"
  shows "terminates (\<lambda>n. State_Monad.bind (F n) k)"
  unfolding terminates_def
proof
  fix s
  obtain n x t where F: "run_state (F n) s = (Some x, t)"
    using assms(1) unfolding terminates_def by blast
  obtain r u where "run_state (k (Some x)) t = (Some r, u)"
    using assms(2) [of x] unfolding returns_def by blast
  with F show "\<exists>n r t. run_state (State_Monad.bind (F n) k) s = (Some r, t)"
    by (intro exI [of _ n]) simp
qed

lemma terminates_if [terminates_intros]:
  "(b \<Longrightarrow> terminates F) \<Longrightarrow> (\<not> b \<Longrightarrow> terminates G) \<Longrightarrow> terminates (\<lambda>n. if b then F n else G n)"
  by (cases b) simp_all

lemma terminates_case_sum [terminates_intros]:
  "(\<And>x. r = Inl x \<Longrightarrow> terminates (\<lambda>n. f n x)) \<Longrightarrow> (\<And>x. r = Inr x \<Longrightarrow> terminates (\<lambda>n. g n x)) \<Longrightarrow>
   terminates (\<lambda>n. case r of Inl x \<Rightarrow> f n x | Inr x \<Rightarrow> g n x)"
  by (cases r) simp_all

lemma terminates_emptying:
  assumes "versionsLaw E c nm objs" "\<And>w. finite (objs w)"
  shows "terminates (\<lambda>n. deleteAllBucketObjects n E c nm)"
  using emptyBucket_terminates [OF assms(1) assms(2)] unfolding terminates_def by blast

lemma terminates_delete:
  assumes "versionsLaw E c (bucketName b) objs" "\<And>w. finite (objs w)"
  shows "terminates (\<lambda>n. delete n E c b)"
  unfolding delete_def Let_def
  by (intro terminates_intros terminates_bind_fuel terminates_emptying [OF assms])
     (auto intro!: returns_intros terminates_returns)

lemma terminates_deletion:
  assumes "versionsLaw E (rcOBS resolved) (bucketName b) objs" "\<And>w. finite (objs w)"
  shows "terminates (\<lambda>n. reconcileDeletion n E b resolved ob)"
  unfolding reconcileDeletion_def
  by (intro terminates_bind_fuel terminates_if terminates_delete [OF assms] terminates_returns)
     (auto intro!: returns_intros)

lemma terminates_body:
  assumes "\<And>c. versionsLaw E c (bucketName b) objs" "\<And>w. finite (objs w)"
  shows "terminates (\<lambda>n. reconcileBody n E R b)"
  unfolding reconcileBody_def
  by (intro terminates_intros terminates_deletion [OF assms])
     (auto intro!: terminates_returns returns_intros returns_owned returns_claim)

lemma terminates_Reconcile:
  assumes "\<And>c nm. versionsLaw E c nm (objs nm)" "\<And>nm w. finite (objs nm w)"
  shows "terminates (\<lambda>n. Reconcile n E R req)"
  unfolding Reconcile_def
  by (intro terminates_intros terminates_body [OF assms] terminates_returns returns_intros)

section \<open>The provider cache across a reconciliation\<close>

text \<open>Most of a reconciliation neither touches the cache nor builds or closes a client.\<close>

definition cacheNeutral :: "('c, 'w, 'a) prog \<Rightarrow> bool" where
  "cacheNeutral m \<longleftrightarrow> (\<forall>s x t. run_state m s = (x, t) \<longrightarrow> stCache t = stCache s \<and>
     (\<exists>evs. stTrace t = stTrace s @ evs \<and> builtIn evs = {#} \<and> closedIn evs = {#}))"

named_theorems neutral_intros \<open>programs that leave the provider cache alone\<close>

lemma neutral_ret [neutral_intros]: "cacheNeutral (ret x)"
  by (simp add: cacheNeutral_def)

lemma neutral_call [neutral_intros]:
  "(\<And>r. builtIn [ev r] = {#} \<and> closedIn [ev r] = {#}) \<Longrightarrow> cacheNeutral (call f ev)"
  by (auto simp: cacheNeutral_def run_call split: prod.splits)

lemma neutral_obsCall [neutral_intros]: "cacheNeutral (obsCall c q f)"
  unfolding obsCall_def by (rule neutral_call) simp

lemma neutral_quiet [neutral_intros]: "cacheNeutral (quiet f)"
  by (auto simp: cacheNeutral_def run_quiet split: prod.splits)

lemma neutral_bind [neutral_intros]:
  assumes "cacheNeutral m" "\<And>x. cacheNeutral (k x)"
  shows "cacheNeutral (State_Monad.bind m k)"
  unfolding cacheNeutral_def
proof (intro allI impI)
  fix s y u
  assume "run_state (State_Monad.bind m k) s = (y, u)"
  then obtain x t where 1: "run_state m s = (x, t)" and 2: "run_state (k x) t = (y, u)"
    by (auto split: prod.splits)
  from assms(1) 1 obtain e1 where e1: "stCache t = stCache s" "stTrace t = stTrace s @ e1"
    "builtIn e1 = {#}" "closedIn e1 = {#}" unfolding cacheNeutral_def by blast
  from assms(2) 2 obtain e2 where e2: "stCache u = stCache t" "stTrace u = stTrace t @ e2"
    "builtIn e2 = {#}" "closedIn e2 = {#}" unfolding cacheNeutral_def by blast
  from e1 e2 show "stCache u = stCache s \<and>
      (\<exists>evs. stTrace u = stTrace s @ evs \<and> builtIn evs = {#} \<and> closedIn evs = {#})"
    by (intro conjI exI [of _ "e1 @ e2"]) simp_all
qed

lemma neutral_if [neutral_intros]: "cacheNeutral m \<Longrightarrow> cacheNeutral m' \<Longrightarrow> cacheNeutral (if b then m else m')"
  by simp

lemma neutral_case_option [neutral_intros]:
  "cacheNeutral f \<Longrightarrow> (\<And>x. cacheNeutral (g x)) \<Longrightarrow> cacheNeutral (case r of None \<Rightarrow> f | Some x \<Rightarrow> g x)"
  by (simp split: option.splits)

lemma neutral_case_sum [neutral_intros]:
  "(\<And>x. cacheNeutral (f x)) \<Longrightarrow> (\<And>x. cacheNeutral (g x)) \<Longrightarrow> cacheNeutral (case r of Inl x \<Rightarrow> f x | Inr x \<Rightarrow> g x)"
  by (simp split: sum.splits)

lemma neutral_case_prod [neutral_intros]:
  "(\<And>x y. cacheNeutral (f x y)) \<Longrightarrow> cacheNeutral (case p of (x, y) \<Rightarrow> f x y)"
  by (simp split: prod.splits)

lemma neutral_ledger: "cacheNeutral m \<Longrightarrow> program_keeps (clientLedger held) m"
  unfolding program_keeps_def
proof (intro allI impI)
  fix s :: "('a, 'b) st"
  assume "cacheNeutral m" "clientLedger held s"
  then show "clientLedger held (snd (run_state m s))"
    by (cases "run_state m s") (fastforce simp: cacheNeutral_def clientLedger_def)
qed

lemma neutral_provenance: "cacheNeutral m \<Longrightarrow> program_keeps cacheProvenance m"
  unfolding program_keeps_def
proof (intro allI impI)
  fix s :: "('a, 'b) st"
  assume m: "cacheNeutral m" and s: "cacheProvenance s"
  obtain x t where t: "run_state m s = (x, t)" by fastforce
  with m obtain evs where "stCache t = stCache s" "stTrace t = stTrace s @ evs"
    unfolding cacheNeutral_def by blast
  with s t show "cacheProvenance (snd (run_state m s))" by (auto intro: provenance_same_cache)
qed

lemma neutral_finish [neutral_intros]: "cacheNeutral m \<Longrightarrow> cacheNeutral (finish m)"
  unfolding finish_def by (intro neutral_intros)

lemma neutral_runSteps: "(\<And>m. m \<in> set ms \<Longrightarrow> cacheNeutral m) \<Longrightarrow> cacheNeutral (runSteps ms)"
  by (induction ms) (auto intro!: neutral_intros)

lemma neutral_update [neutral_intros]: "cacheNeutral (update E c b)"
proof -
  have "cacheNeutral (reconcileBucketStorageClass E c b)" "cacheNeutral (reconcileBucketACL E c b)"
    "cacheNeutral (reconcileBucketVersioning E c b)" "cacheNeutral (reconcileBucketTags E c b)"
    "cacheNeutral (reconcileBucketLogging E c b)" "cacheNeutral (reconcileBucketEncryption E c b)"
    unfolding stepDefs Let_def by (intro neutral_intros)+
  then show ?thesis
    unfolding update_def updateSteps_def by (intro neutral_runSteps) auto
qed

lemma neutral_deleteAll [neutral_intros]: "cacheNeutral (deleteAllBucketObjects n E c nm)"
  by (induction n) (auto simp: Let_def intro!: neutral_intros)

lemma neutral_parts [neutral_intros]:
  "cacheNeutral (observe E c b)" "cacheNeutral (create E c b region)" "cacheNeutral (delete n E c b)"
  "cacheNeutral (updateBucketStatus E b resolved cond md)" "cacheNeutral (patchStatus E b resolved err md)"
  "cacheNeutral (patchFinalizer E b f)"
  unfolding observe_def create_def delete_def updateBucketStatus_def patchStatus_def patchFinalizer_def Let_def
  by (intro neutral_intros; simp)+

lemma neutral_phases [neutral_intros]:
  "cacheNeutral (reconcileDeletion n E b resolved ob)" "cacheNeutral (reconcileClaim E b resolved ob)"
  "cacheNeutral (reconcileOwned E b resolved ob)"
  unfolding reconcileDeletion_def reconcileClaim_def reconcileOwned_def reconcileCreateError_def
    reconcileUpdate_def Let_def
  by (intro neutral_intros)+

lemma keeps_ledger_Reconcile:
  "program_keeps (clientLedger None) (Reconcile n E (Some R) req)"
  unfolding Reconcile_def reconcileBody_def resolveBucketClient_def ResolveBucket_def
  by (intro keeps_intros neutral_ledger [OF neutral_phases(1)] neutral_ledger [OF neutral_phases(2)]
      neutral_ledger [OF neutral_phases(3)] neutral_ledger [OF neutral_parts(1)] neutral_ledger [OF neutral_parts(5)])
     (auto intro!: keeps_intros)

lemma keeps_provenance_Reconcile:
  "program_keeps cacheProvenance (Reconcile n E (Some R) req)"
  unfolding Reconcile_def reconcileBody_def resolveBucketClient_def ResolveBucket_def
  by (intro keeps_intros neutral_provenance [OF neutral_phases(1)] neutral_provenance [OF neutral_phases(2)]
      neutral_provenance [OF neutral_phases(3)] neutral_provenance [OF neutral_parts(1)]
      neutral_provenance [OF neutral_parts(5)])
     (auto intro!: keeps_intros)

section \<open>What Ready means\<close>

text \<open>
  What else is documented of \<open>meta.SetStatusCondition\<close>: it keeps the condition types distinct, as
  the list-map key of the CRD does on the API server.
\<close>

definition setConditionDistinct :: "k8s_lib \<Rightarrow> bool" where
  "setConditionDistinct L \<longleftrightarrow>
     (\<forall>t cs c. distinct (map cType cs) \<longrightarrow> distinct (map cType (SetStatusCondition L t cs c)))"

definition readyEv :: "k8s_lib \<Rightarrow> Bucket \<Rightarrow> 'c event \<Rightarrow> bool" where
  "readyEv L b e \<longleftrightarrow> (\<exists>m x. e = PatchBucketStatusEv b m x \<and>
     conditionHolds (stConditions (bStatus m)) (bucketReadyStatusCondition L b None))"

lemma condition_unique:
  assumes "distinct (map cType cs)" "conditionHolds cs c" "conditionHolds cs d" "cType c = cType d"
  shows "cStatus c = cStatus d"
proof -
  obtain x y where "x \<in> set cs" "cType x = cType c" "cStatus x = cStatus c"
    "y \<in> set cs" "cType y = cType d" "cStatus y = cStatus d"
    using assms(2,3) by (auto simp: conditionHolds_def list_ex_iff)
  with assms(1,4) show ?thesis by (metis distinct_map inj_onD)
qed

lemma readyCondition_fields:
  "cType (bucketReadyStatusCondition L b err) = bucketReadyCondition"
  "cStatus (bucketReadyStatusCondition L b err) = (if err = None then ConditionTrue else ConditionFalse)"
  by (auto simp: bucketReadyStatusCondition_def Let_def split: option.splits)

text \<open>A status patch reports ready only when there was no error.\<close>

lemma ready_no_error:
  assumes "setConditionSets L" "setConditionDistinct L" "distinct (map cType (stConditions (bStatus b)))"
    "statusPatch L b resolved (bucketReadyStatusCondition L b err) md m" "readyEv L b (PatchBucketStatusEv b m x)"
  shows "err = None"
proof -
  have "conditionHolds (stConditions (bStatus m)) (bucketReadyStatusCondition L b err)"
    using statusPatch_fields [OF assms(1,4)] by blast
  moreover have "distinct (map cType (stConditions (bStatus m)))"
    using assms(2-4)
    by (auto simp: statusPatch_def nextBucketStatus_def setConditionDistinct_def Let_def split: option.splits)
  moreover have "conditionHolds (stConditions (bStatus m)) (bucketReadyStatusCondition L b None)"
    using assms(5) by (auto simp: readyEv_def)
  ultimately have "cStatus (bucketReadyStatusCondition L b err) = cStatus (bucketReadyStatusCondition L b None)"
    by (intro condition_unique [of "stConditions (bStatus m)"]) (simp_all add: readyCondition_fields)
  then show ?thesis by (simp add: readyCondition_fields split: if_splits)
qed

lemma readyEv_other: "\<not> (\<exists>b' m x. e = PatchBucketStatusEv b' m x) \<Longrightarrow> \<not> readyEv L b e"
  by (auto simp: readyEv_def)

lemma notReady_ObsEv [simp]:
  "\<not> readyEv L b (ObsEv c q x)" "\<not> readyEv L b (PatchBucketEv b0 b1 x)" "\<not> readyEv L b (GetBucketEv k r)"
  by (simp_all add: readyEv_def)

lemma notReady_resolve: "emitsOnly (\<lambda>e. \<not> readyEv L b e) (resolveBucketClient E R b')"
  by (rule emits_mono [OF resolveBucketClient_emits]) (auto simp: list_all_iff readyEv_def)

lemma notReady_observe: "emitsOnly (\<lambda>e. \<not> readyEv L b e) (observe E c b')"
  by (rule emits_mono [OF observe_emits]) auto

lemma notReady_update: "emitsOnly (\<lambda>e. \<not> readyEv L b e) (update E c b')"
  by (rule emits_mono [OF update_emitsOnly]) (fastforce simp: list_all_iff)

lemma notReady_create: "emitsOnly (\<lambda>e. \<not> readyEv L b e) (create E c b' region)"
  by (rule emits_mono [OF create_emits]) auto

lemma notReady_delete: "emitsOnly (\<lambda>e. \<not> readyEv L b e) (delete n E c b')"
  by (rule emits_mono [OF delete_emits]) (fastforce simp: list_all_iff deleteTrace_def)

lemma notReady_finalizer: "emitsOnly (\<lambda>e. \<not> readyEv L b e) (patchFinalizer E b' f)"
  by (rule emits_mono [OF patchFinalizer_emits]) auto

definition setConditionLaw :: "k8s_lib \<Rightarrow> bool" where
  "setConditionLaw L \<longleftrightarrow> setConditionSets L \<and> setConditionDistinct L"

lemma notReady_patchStatus:
  assumes "setConditionLaw (lib E)" "distinct (map cType (stConditions (bStatus b)))"
  shows "emitsOnly (\<lambda>e. \<not> readyEv (lib E) b e) (patchStatus E b' resolved (Some err) md)"
proof (rule emits_mono [OF patchStatus_emits], elim exE conjE disjE)
  fix r evs statusErr modified
  assume evs: "evs = [PatchBucketStatusEv b' modified statusErr]"
    and p: "statusPatch (lib E) b' resolved (bucketReadyStatusCondition (lib E) b' (Some err)) md modified"
  have "\<not> readyEv (lib E) b (PatchBucketStatusEv b' modified statusErr)"
  proof
    assume r: "readyEv (lib E) b (PatchBucketStatusEv b' modified statusErr)"
    then have "b' = b" by (simp add: readyEv_def)
    with r p ready_no_error [of "lib E" b resolved "Some err" md modified statusErr] assms show False
      by (simp add: setConditionLaw_def)
  qed
  then show "list_all (\<lambda>e. \<not> readyEv (lib E) b e) evs" by (simp add: evs)
qed simp

lemma notReady_status:
  assumes "setConditionLaw (lib E)" "distinct (map cType (stConditions (bStatus b)))"
  shows "emitsOnly (\<lambda>e. \<not> readyEv (lib E) b e)
    (updateBucketStatus E b resolved (bucketReadyStatusCondition (lib E) b (Some err)) md)"
  using assms ready_no_error [of "lib E" b resolved "Some err" md]
  by (intro emits_mono [OF updateBucketStatus_emits]) (auto simp: setConditionLaw_def)

definition readyImplies :: "k8s_lib \<Rightarrow> Bucket \<Rightarrow> ('w \<Rightarrow> bool) \<Rightarrow> ('c, 'w, 'a) prog \<Rightarrow> bool" where
  "readyImplies L b C m \<longleftrightarrow> (\<forall>s r t. run_state m s = (r, t) \<longrightarrow>
     (\<exists>evs. stTrace t = stTrace s @ evs \<and> (list_ex (readyEv L b) evs \<longrightarrow> C (stWorld t))))"

lemma readyImplies_never: "emitsOnly (\<lambda>e. \<not> readyEv L b e) m \<Longrightarrow> readyImplies L b C m"
  unfolding readyImplies_def emits_def list_all_iff list_ex_iff by meson

lemma readyImplies_bind:
  assumes "emitsOnly (\<lambda>e. \<not> readyEv L b e) m" "\<And>x. readyImplies L b C (k x)"
  shows "readyImplies L b C (State_Monad.bind m k)"
  unfolding readyImplies_def
proof (intro allI impI)
  fix s y u
  assume "run_state (State_Monad.bind m k) s = (y, u)"
  then obtain x t where 1: "run_state m s = (x, t)" and 2: "run_state (k x) t = (y, u)"
    by (auto split: prod.splits)
  from emitsD [OF assms(1) 1] obtain e1 where e1: "stTrace t = stTrace s @ e1" "\<not> list_ex (readyEv L b) e1"
    by (auto simp: list_all_iff list_ex_iff)
  from assms(2) [of x] 2 obtain e2 where "stTrace u = stTrace t @ e2" "list_ex (readyEv L b) e2 \<longrightarrow> C (stWorld u)"
    unfolding readyImplies_def by blast
  with e1 show "\<exists>evs. stTrace u = stTrace s @ evs \<and> (list_ex (readyEv L b) evs \<longrightarrow> C (stWorld u))"
    by (intro exI [of _ "e1 @ e2"]) simp
qed

lemma readyImplies_if: "(P \<Longrightarrow> readyImplies L b C m) \<Longrightarrow> (\<not> P \<Longrightarrow> readyImplies L b C m') \<Longrightarrow>
    readyImplies L b C (if P then m else m')"
  by simp

lemma readyImplies_case_sum:
  "(\<And>x. r = Inl x \<Longrightarrow> readyImplies L b C (f x)) \<Longrightarrow> (\<And>x. r = Inr x \<Longrightarrow> readyImplies L b C (g x)) \<Longrightarrow>
   readyImplies L b C (case r of Inl x \<Rightarrow> f x | Inr x \<Rightarrow> g x)"
  by (simp split: sum.splits)

lemma readyImplies_case_option:
  "(r = None \<Longrightarrow> readyImplies L b C f) \<Longrightarrow> (\<And>x. r = Some x \<Longrightarrow> readyImplies L b C (g x)) \<Longrightarrow>
   readyImplies L b C (case r of None \<Rightarrow> f | Some x \<Rightarrow> g x)"
  by (simp split: option.splits)

text \<open>
  Reading the bucket's metadata, reading the clock and patching the status of the Bucket resource
  do not change the settings of the bucket in OBS.
\<close>

definition settingsFrame :: "('c, 'w) env \<Rightarrow> 'c option \<Rightarrow> string \<Rightarrow> ('w \<Rightarrow> settingsView) \<Rightarrow> bool" where
  "settingsFrame E c nm view \<longleftrightarrow>
     (\<forall>w. view (snd (apiGetBucketMetadata (obs E) c nm w)) = view w) \<and>
     (\<forall>w. view (snd (apiNow (k8s E) w)) = view w) \<and>
     (\<forall>b m w. view (snd (apiPatchBucketStatus (k8s E) b m w)) = view w)"

lemma keeps_view_call:
  "(\<And>w. view (snd (f w)) = view w) \<Longrightarrow> program_keeps (\<lambda>s. P (view (stWorld s))) (call f ev)"
  by (simp add: program_keeps_def run_call split: prod.splits) (metis snd_conv)

lemma keeps_view_quiet:
  "(\<And>w. view (snd (f w)) = view w) \<Longrightarrow> program_keeps (\<lambda>s. P (view (stWorld s))) (quiet f)"
  by (simp add: program_keeps_def run_quiet split: prod.splits) (metis snd_conv)

lemma keeps_view_observe:
  "settingsFrame E c (bucketName b) view \<Longrightarrow> program_keeps (\<lambda>s. P (view (stWorld s))) (observe E c b)"
  unfolding observe_def obsCall_def
  by (intro keeps_bind keeps_view_call keeps_case_sum keeps_if keeps_return) (simp add: settingsFrame_def)

lemma keeps_view_patchStatus:
  "settingsFrame E c nm view \<Longrightarrow> program_keeps (\<lambda>s. P (view (stWorld s))) (patchStatus E b resolved err md)"
  unfolding patchStatus_def updateBucketStatus_def Let_def
  by (intro keeps_bind keeps_view_quiet keeps_view_call keeps_case_option keeps_if keeps_return)
     (simp_all add: settingsFrame_def)

definition settingsLaws :: "('c, 'w) env \<Rightarrow> string \<Rightarrow> ('w \<Rightarrow> settingsView) \<Rightarrow> bool" where
  "settingsLaws E nm view \<longleftrightarrow> sdkDocumented (sdk E) \<and> setConditionLaw (lib E) \<and>
     (\<forall>c. obsReads E c nm view \<and> obsWrites E c nm view \<and> settingsFrame E c nm view)"

definition wellFormedBucket :: "Bucket \<Rightarrow> bool" where
  "wellFormedBucket b \<longleftrightarrow> gomap_wf (desiredTags b) \<and> distinct (map cType (stConditions (bStatus b)))"

lemma reconcileUpdate_ready:
  assumes "settingsLaws E (bucketName b) view" "wellFormedBucket b"
  shows "readyImplies (lib E) b (\<lambda>w. converged (sdk E) b (view w)) (reconcileUpdate E b resolved ob)"
  unfolding readyImplies_def
proof (intro allI impI)
  fix s r t
  assume run: "run_state (reconcileUpdate E b resolved ob) s = (r, t)"
  let ?c = "rcOBS resolved"
  have law: "sdkDocumented (sdk E)" "setConditionLaw (lib E)" "obsReads E ?c (bucketName b) view"
    "obsWrites E ?c (bucketName b) view" "settingsFrame E ?c (bucketName b) view"
    "gomap_wf (desiredTags b)" "distinct (map cType (stConditions (bStatus b)))"
    using assms by (auto simp: settingsLaws_def wellFormedBucket_def)
  let ?k = "\<lambda>u. case u of
      Some err \<Rightarrow> finish (patchStatus E b (Some resolved) (Some err) (obMetadata ob))
    | None \<Rightarrow> State_Monad.bind (observe E ?c b) (\<lambda>o2. case o2 of
          Inl err \<Rightarrow> finish (patchStatus E b (Some resolved) (Some err) None)
        | Inr ob2 \<Rightarrow> finish (patchStatus E b (Some resolved) None (obMetadata ob2)))"
  obtain u s1 where u: "run_state (update E ?c b) s = (u, s1)" by fastforce
  with run have k: "run_state (?k u) s1 = (r, t)" by (simp add: reconcileUpdate_def)
  from emitsD [OF notReady_update u] obtain e1 where e1: "stTrace s1 = stTrace s @ e1"
    "list_all (\<lambda>e. \<not> readyEv (lib E) b e) e1" by blast
  show "\<exists>evs. stTrace t = stTrace s @ evs \<and>
      (list_ex (readyEv (lib E) b) evs \<longrightarrow> converged (sdk E) b (view (stWorld t)))"
  proof (cases u)
    case None
    have "program_keeps (\<lambda>s. converged (sdk E) b (view (stWorld s))) (?k None)"
      using law(5)
      by (auto intro!: keeps_intros keeps_view_observe keeps_view_patchStatus)
    moreover have "converged (sdk E) b (view (stWorld s1))"
      using update_establishes [OF law(1,3,4,6)] u None by blast
    ultimately have "converged (sdk E) b (view (stWorld t))"
      using k None keeps_run [of "\<lambda>s. converged (sdk E) b (view (stWorld s))" "?k None" s1 r t] by blast
    moreover have "emits (reconcileUpdate E b resolved ob) (\<lambda>_ _. True)"
      by (rule emits_mono [OF retryCause_update]) simp
    ultimately show ?thesis using emitsD [OF _ run] by blast
  next
    case (Some err)
    with k have "run_state (finish (patchStatus E b (Some resolved) (Some err) (obMetadata ob))) s1 = (r, t)" by simp
    from emitsD [OF emitsOnly_finish [OF notReady_patchStatus [OF law(2,7)]] this] obtain e2 where
      "stTrace t = stTrace s1 @ e2" "list_all (\<lambda>e. \<not> readyEv (lib E) b e) e2" by blast
    with e1 show ?thesis
      by (intro exI [of _ "e1 @ e2"]) (auto simp: list_all_iff list_ex_iff)
  qed
qed

lemma reconcileBody_ready:
  assumes "settingsLaws E (bucketName b) view" "wellFormedBucket b"
  shows "readyImplies (lib E) b (\<lambda>w. converged (sdk E) b (view w)) (reconcileBody n E R b)"
proof -
  have l: "setConditionLaw (lib E)" "distinct (map cType (stConditions (bStatus b)))"
    using assms by (auto simp: settingsLaws_def wellFormedBucket_def)
  note never = emitsOnly_finish [OF notReady_patchStatus [OF l]] emitsOnly_finish [OF notReady_status [OF l]]
    notReady_finalizer notReady_delete
  have del: "emitsOnly (\<lambda>e. \<not> readyEv (lib E) b e) (reconcileDeletion n E b resolved ob)" for resolved ob
    unfolding reconcileDeletion_def
    by (intro emitsOnly_bind emits_if emits_case_option emits_case_prod never emits_return) simp_all
  have claim: "emitsOnly (\<lambda>e. \<not> readyEv (lib E) b e) (reconcileClaim E b resolved ob)" for resolved ob
    unfolding reconcileClaim_def
    by (intro emitsOnly_bind emits_if emits_case_prod never emits_return) simp_all
  have err: "emitsOnly (\<lambda>e. \<not> readyEv (lib E) b e) (reconcileCreateError E b resolved er)" for resolved er
    unfolding reconcileCreateError_def Let_def
    by (intro emitsOnly_bind emits_if emits_case_prod never)
  have owned: "readyImplies (lib E) b (\<lambda>w. converged (sdk E) b (view w)) (reconcileOwned E b resolved ob)" for resolved ob
    unfolding reconcileOwned_def
    by (intro readyImplies_if readyImplies_bind notReady_create readyImplies_case_option
        reconcileUpdate_ready assms readyImplies_never [OF err])
  have none: "emitsOnly (\<lambda>e. \<not> readyEv (lib E) b e) (ret x)" for x
    by (simp add: emits_return)
  show ?thesis
    unfolding reconcileBody_def
    by (intro readyImplies_if readyImplies_bind readyImplies_case_sum notReady_resolve notReady_observe
        readyImplies_never [OF del] readyImplies_never [OF claim] owned readyImplies_never [OF never(1)]
        readyImplies_never [OF none])
qed

lemma Reconcile_ready:
  assumes "settingsLaws E (bucketName b) view" "wellFormedBucket b"
    "apiGetBucket (k8s E) req (stWorld s) = (Inr b, w)" "run_state (Reconcile n E R req) s = (r, t)"
    "e \<in> set (emitted (Reconcile n E R req) s)" "readyEv (lib E) b e"
  shows "converged (sdk E) b (view (stWorld t))"
proof -
  let ?s = "s\<lparr>stWorld := w, stTrace := stTrace s @ [GetBucketEv req (Inr b)]\<rparr>"
  have run: "run_state (reconcileBody n E R b) ?s = (r, t)"
    using assms(3,4) by (simp add: Reconcile_def run_call)
  obtain evs where evs: "stTrace t = stTrace ?s @ evs"
    "list_ex (readyEv (lib E) b) evs \<longrightarrow> converged (sdk E) b (view (stWorld t))"
    using reconcileBody_ready [OF assms(1,2)] run unfolding readyImplies_def by blast
  then have "emitted (Reconcile n E R req) s = GetBucketEv req (Inr b) # evs"
    using assms(4) by (simp add: emitted_def)
  with assms(5,6) evs(2) show ?thesis by (auto simp: list_ex_iff)
qed

end
