(* ===== verification/ProviderConfigController.thy ===== *)
theory ProviderConfigController
  imports BucketReconcile
begin

text \<open>
  \<open>ProviderConfigReconciler.Reconcile\<close> of \<open>internal/controller/providerconfig_controller.go\<close>: resolve a
  ProviderConfig, validate its client with one \<open>ListBuckets\<close> request, drop the cached client when
  anything failed, and publish the outcome in the status.
\<close>

section \<open>Operations\<close>

definition validateProviderClient :: "('c, 'w) env \<Rightarrow> 'c option \<Rightarrow> ('c, 'w, error option) prog" where
  "validateProviderClient E c = do {
     ctxErr \<leftarrow> quiet (apiCtxErr (k8s E));
     case ctxErr of
       Some err \<Rightarrow> ret (Some err)
     | None \<Rightarrow> do {
         r \<leftarrow> obsCall c RListBuckets (apiListBuckets (obs E) c);
         case r of
           Inl err \<Rightarrow> ret (Some (WrapErrs (sentinelText ErrProviderValidationFailed @ '': '' @ errText err)
                       [Sentinel ErrProviderValidationFailed, err]))
         | Inr _ \<Rightarrow> ret None
       }
   }"

definition providerConfigReadyReason :: "k8s_lib \<Rightarrow> error \<Rightarrow> string" where
  "providerConfigReadyReason L err =
     (if errorsIs err ErrCredentialsSecretNotFound then conditionReasonCredentialsSecretNotFound
      else if IsNotFound L err then conditionReasonCredentialsSecretNotFound
      else if errorsIs err ErrMissingCredentials then ''CredentialsSecretInvalid''
      else if errorsIs err ErrInvalidEndpoint then ''InvalidEndpoint''
      else if errorsIs err ErrProviderValidationFailed then ''ClientValidationFailed''
      else ''ClientBuildFailed'')"

definition providerConfigReadyCondition :: "k8s_lib \<Rightarrow> ProviderConfig \<Rightarrow> error option \<Rightarrow> Condition" where
  "providerConfigReadyCondition L providerConfig err =
     (let condition =
        \<lparr>cType = ''Ready'', cStatus = ConditionTrue,
         cObservedGeneration = Generation (pMeta providerConfig), cLastTransitionTime = 0,
         cReason = ''ClientValidated'', cMessage = ''OBS client credentials were validated''\<rparr>
      in case err of
           None \<Rightarrow> condition
         | Some e \<Rightarrow> condition\<lparr>cStatus := ConditionFalse, cMessage := errText e,
                              cReason := providerConfigReadyReason L e\<rparr>)"

definition nextProviderConfigStatus :: "k8s_lib \<Rightarrow> time \<Rightarrow> ProviderConfig \<Rightarrow> Condition \<Rightarrow> string \<Rightarrow>
    ProviderConfigStatus" where
  "nextProviderConfigStatus L now providerConfig condition providerRevision =
     (pStatus providerConfig)\<lparr>pcObservedGeneration := Generation (pMeta providerConfig),
        pcObservedProviderRevision := providerRevision,
        pcConditions := SetStatusCondition L now (pcConditions (pStatus providerConfig)) condition\<rparr>"

definition providerConfigStatusChanged :: "ProviderConfigStatus \<Rightarrow> ProviderConfigStatus \<Rightarrow> bool" where
  "providerConfigStatusChanged original nextStatus \<longleftrightarrow>
     pcObservedGeneration original \<noteq> pcObservedGeneration nextStatus \<or>
     pcObservedProviderRevision original \<noteq> pcObservedProviderRevision nextStatus \<or>
     pcLastValidationTime original = None \<or>
     pcConditions original \<noteq> pcConditions nextStatus"

definition updateProviderConfigStatus ::
  "('c, 'w) env \<Rightarrow> ProviderConfig \<Rightarrow> Condition \<Rightarrow> string \<Rightarrow> ('c, 'w, error option) prog" where
  "updateProviderConfigStatus E providerConfig condition providerRevision = do {
     t \<leftarrow> quiet (apiNow (k8s E));
     let nextStatus = nextProviderConfigStatus (lib E) t providerConfig condition providerRevision;
     if \<not> providerConfigStatusChanged (pStatus providerConfig) nextStatus then ret None
     else do {
       now \<leftarrow> quiet (apiNow (k8s E));
       let modified = providerConfig\<lparr>pStatus := nextStatus\<lparr>pcLastValidationTime := Some now\<rparr>\<rparr>;
       r \<leftarrow> call (apiPatchProviderConfigStatus (k8s E) providerConfig modified)
             (\<lambda>r. PatchProviderConfigStatusEv providerConfig modified (failure r));
       ret (failure r)
     }
   }"

text \<open>Resolving, validating and, after a failure, invalidating; with the revision to publish.\<close>

definition validateProvider :: "('c, 'w) env \<Rightarrow> ('c, 'w) ProviderResolver \<Rightarrow> ProviderConfig \<Rightarrow>
    ('c, 'w, error option \<times> string) prog" where
  "validateProvider E R providerConfig = do {
     res \<leftarrow> ResolveProviderConfigObject E R providerConfig;
     err \<leftarrow> (case res of Inl e \<Rightarrow> ret (Some e) | Inr resolved \<Rightarrow> validateProviderClient E (rcOBS resolved));
     (if err \<noteq> None
      then InvalidateProvider E (Some R) (Namespace (pMeta providerConfig)) (Name (pMeta providerConfig))
      else ret ());
     ret (err, (case res of Inl _ \<Rightarrow> [] | Inr resolved \<Rightarrow> rcProviderRevision resolved))
   }"

definition reconcileProviderConfig :: "('c, 'w) env \<Rightarrow> ('c, 'w) ProviderResolver option \<Rightarrow> ProviderConfig \<Rightarrow>
    ('c, 'w, error option) prog" where
  "reconcileProviderConfig E R providerConfig = do {
     (err, providerRevision) \<leftarrow>
       (case R of
          Some resolver \<Rightarrow> validateProvider E resolver providerConfig
        | None \<Rightarrow> withOwnCache E (validateProvider E (NewProviderResolver E []) providerConfig));
     updateProviderConfigStatus E providerConfig
       (providerConfigReadyCondition (lib E) providerConfig err) providerRevision
   }"

definition ReconcileProviderConfig :: "('c, 'w) env \<Rightarrow> ('c, 'w) ProviderResolver option \<Rightarrow> NamespacedName \<Rightarrow>
    ('c, 'w, error option) prog" where
  "ReconcileProviderConfig E R req = do {
     r \<leftarrow> call (apiGetProviderConfig (k8s E) req) (GetProviderConfigEv req);
     case r of
       Inl err \<Rightarrow>
         if IsNotFound (lib E) err then do {
           InvalidateProvider E R (nnNamespace req) (nnName req);
           ret None
         }
         else ret (Some err)
     | Inr providerConfig \<Rightarrow> reconcileProviderConfig E R providerConfig
   }"

section \<open>Requests and results\<close>

lemma validateProviderClient_emits:
  "emits (validateProviderClient E c) (\<lambda>r evs.
     evs = [] \<and> r \<noteq> None \<or> (\<exists>x. evs = [ObsEv c RListBuckets x] \<and> (r = None \<longleftrightarrow> x = None)))"
  unfolding validateProviderClient_def
  by (intro emits_intros) (auto split: sum.splits)

definition providerEv :: "'c event \<Rightarrow> bool" where
  "providerEv e \<longleftrightarrow> resolveEv e \<or> (\<exists>c x. e = ObsEv c RListBuckets x) \<or>
     (\<exists>p p' x. e = PatchProviderConfigStatusEv p p' x \<and> pMeta p' = pMeta p \<and> pSpec p' = pSpec p)"

lemma emitsOnly_resolve_provider: "emitsOnly resolveEv m \<Longrightarrow> emitsOnly providerEv m"
  by (erule emits_mono) (auto simp: list_all_iff providerEv_def)

lemma updateProviderConfigStatus_emits:
  "emits (updateProviderConfigStatus E pc cond rv) (\<lambda>r evs. evs = [] \<and> r = None \<or>
     (\<exists>m. evs = [PatchProviderConfigStatusEv pc m r] \<and> (\<exists>t now. m = pc\<lparr>pStatus :=
        (nextProviderConfigStatus (lib E) t pc cond rv)\<lparr>pcLastValidationTime := Some now\<rparr>\<rparr>)))"
  unfolding updateProviderConfigStatus_def Let_def
  by (intro emits_intros) auto

lemma validateProvider_only: "emitsOnly providerEv (validateProvider E R pc)"
proof -
  have v: "emitsOnly providerEv (validateProviderClient E c)" for c
    by (rule emits_mono [OF validateProviderClient_emits]) (auto simp: providerEv_def)
  show ?thesis
    unfolding validateProvider_def
    by (intro emitsOnly_bind emits_case_sum emits_if v emits_return
        emitsOnly_resolve_provider [OF ResolveProviderConfigObject_emits]
        emitsOnly_resolve_provider [OF InvalidateProvider_emits]) simp_all
qed

lemma reconcileProviderConfig_only: "emitsOnly providerEv (reconcileProviderConfig E R pc)"
proof -
  have st: "emitsOnly providerEv (updateProviderConfigStatus E pc cond rv)" for cond rv
    by (rule emits_mono [OF updateProviderConfigStatus_emits]) (auto simp: providerEv_def)
  have "emitsOnly providerEv (case R of
        Some resolver \<Rightarrow> validateProvider E resolver pc
      | None \<Rightarrow> withOwnCache E (validateProvider E (NewProviderResolver E []) pc))"
    by (intro emits_case_option withOwnCache_emits validateProvider_only)
  then show ?thesis
    unfolding reconcileProviderConfig_def by (intro emitsOnly_bind emits_case_prod st)
qed

lemma ReconcileProviderConfig_only: "emitsOnly providerEv (ReconcileProviderConfig E R req)"
  unfolding ReconcileProviderConfig_def
  by (intro emitsOnly_bind emits_call emits_case_sum emits_if reconcileProviderConfig_only emits_return
      emitsOnly_resolve_provider [OF InvalidateProvider_emits]) (simp_all add: providerEv_def)

text \<open>Only a failed read or write of the resource is returned; a failed validation is not.\<close>

lemma ReconcileProviderConfig_result:
  "emits (ReconcileProviderConfig E R req) (\<lambda>r evs. \<forall>e. r = Some e \<longrightarrow>
     GetProviderConfigEv req (Inl e) \<in> set evs \<or> (\<exists>p p'. PatchProviderConfigStatusEv p p' (Some e) \<in> set evs))"
proof -
  let ?Q = "\<lambda>r evs. \<forall>e. r = Some e \<longrightarrow> (\<exists>p p'. PatchProviderConfigStatusEv p p' (Some e) \<in> set evs)"
  have st: "emits (updateProviderConfigStatus E pc cond rv) ?Q" for pc cond rv
    by (rule emits_mono [OF updateProviderConfigStatus_emits]) auto
  have v: "emitsOnly providerEv (case R of
        Some resolver \<Rightarrow> validateProvider E resolver pc
      | None \<Rightarrow> withOwnCache E (validateProvider E (NewProviderResolver E []) pc))" for pc
    by (intro emits_case_option withOwnCache_emits validateProvider_only)
  have rec: "emits (reconcileProviderConfig E R pc) ?Q" for pc
    unfolding reconcileProviderConfig_def
    by (intro emits_bind emits_mono [OF v] emits_case_prod emits_mono [OF st]) (simp, blast)
  show ?thesis
    unfolding ReconcileProviderConfig_def
    by (intro emits_bind emits_call emits_case_sum emits_if emits_mono [OF rec] emits_return
        emits_mono [OF InvalidateProvider_emits]) auto
qed

section \<open>The cache after a validation\<close>

lemma neutral_validate [neutral_intros]:
  "cacheNeutral (validateProviderClient E c)" "cacheNeutral (updateProviderConfigStatus E pc cond rv)"
  unfolding validateProviderClient_def updateProviderConfigStatus_def Let_def
  by (intro neutral_intros; simp)+

lemma keeps_ledger_validateProvider [keeps_intros]:
  "program_keeps (clientLedger None) (validateProvider E R pc)"
  unfolding validateProvider_def
  by (intro keeps_intros neutral_ledger [OF neutral_validate(1)])

lemma keeps_provenance_validateProvider [keeps_intros]:
  "program_keeps cacheProvenance (validateProvider E R pc)"
  unfolding validateProvider_def InvalidateProvider_def
  by (intro keeps_intros neutral_provenance [OF neutral_validate(1)])

lemma keeps_ledger_ReconcileProviderConfig:
  "program_keeps (clientLedger None) (ReconcileProviderConfig E (Some R) req)"
  unfolding ReconcileProviderConfig_def reconcileProviderConfig_def
  by (auto intro!: keeps_intros neutral_ledger [OF neutral_validate(2)])

lemma keeps_provenance_ReconcileProviderConfig:
  "program_keeps cacheProvenance (ReconcileProviderConfig E (Some R) req)"
  unfolding ReconcileProviderConfig_def reconcileProviderConfig_def InvalidateProvider_def
  by (auto intro!: keeps_intros neutral_provenance [OF neutral_validate(2)])

definition notCached :: "string \<Rightarrow> string \<Rightarrow> ('c, 'w) st \<Rightarrow> bool" where
  "notCached ns n s \<longleftrightarrow> (\<exists>cache. stCache s = Some cache \<and> absCache cache \<lparr>nnNamespace = ns, nnName = n\<rparr> = None)"

lemma invalidate_notCached:
  assumes "clientLedger None s" "run_state (cacheInvalidateProvider E ns n) s = (x, t)"
  shows "notCached ns n t"
proof -
  from assms(1) obtain cache where c: "stCache s = Some cache" "cacheOk cache" by (auto simp: clientLedger_def)
  obtain cache' cl where inv: "invalidateLocked cache \<lparr>nnNamespace = ns, nnName = n\<rparr> = (cache', cl)" by fastforce
  with c(1) assms(2) have "run_state (closeClients E cache' cl) (s\<lparr>stCache := Some cache'\<rparr>) = ((), t)"
    by (auto simp: cacheInvalidateProvider_def run_getCache run_setCache split: prod.splits)
  from closeClients_run [OF this] invalidateLocked_abs [OF c(2) inv] show ?thesis
    by (simp add: notCached_def)
qed

lemma validateProvider_failed:
  assumes "clientLedger None s" "run_state (validateProvider E R pc) s = ((Some err, rv), t)"
  shows "notCached (Namespace (pMeta pc)) (Name (pMeta pc)) t"
proof -
  obtain res s1 where res: "run_state (ResolveProviderConfigObject E R pc) s = (res, s1)" by fastforce
  let ?v = "case res of Inl e \<Rightarrow> ret (Some e) | Inr resolved \<Rightarrow> validateProviderClient E (rcOBS resolved)"
  obtain er s2 where v: "run_state ?v s1 = (er, s2)" by fastforce
  have "er = Some err" "run_state (cacheInvalidateProvider E (Namespace (pMeta pc)) (Name (pMeta pc))) s2 = ((), t)"
    using assms(2) res v by (auto simp: validateProvider_def InvalidateProvider_def split: prod.splits if_splits)
  moreover have "program_keeps (clientLedger None) ?v"
    by (intro keeps_intros neutral_ledger [OF neutral_validate(1)])
  note s1 = keeps_run [OF keeps_ledger_object assms(1) res]
  have s2: "clientLedger None s2"
    by (rule keeps_run [OF \<open>program_keeps (clientLedger None) ?v\<close> s1 v])
  ultimately show ?thesis by (intro invalidate_notCached [OF s2])
qed

lemma validateProvider_ok:
  "emits (validateProvider E R pc) (\<lambda>r evs. fst r = None \<longrightarrow> (\<exists>c. ObsEv c RListBuckets None \<in> set evs))"
  unfolding validateProvider_def
  by (intro emits_bind emits_mono [OF ResolveProviderConfigObject_emits] emits_case_sum emits_if emits_return
      emits_mono [OF validateProviderClient_emits] emits_mono [OF InvalidateProvider_emits]) auto

text \<open>
  When no request of a reconciliation confirmed the client, no client stays cached for the
  ProviderConfig.
\<close>

lemma ReconcileProviderConfig_drops:
  assumes "clientLedger None s" "run_state (ReconcileProviderConfig E (Some R) req) s = (r, t)"
    "apiGetProviderConfig (k8s E) req (stWorld s) = (Inr pc, w)"
    "\<forall>c. ObsEv c RListBuckets None \<notin> set (emitted (ReconcileProviderConfig E (Some R) req) s)"
  shows "notCached (Namespace (pMeta pc)) (Name (pMeta pc)) t"
proof -
  let ?s = "s\<lparr>stWorld := w, stTrace := stTrace s @ [GetProviderConfigEv req (Inr pc)]\<rparr>"
  obtain err rv s1 where v: "run_state (validateProvider E R pc) ?s = ((err, rv), s1)" by (metis surj_pair)
  have u: "run_state (updateProviderConfigStatus E pc (providerConfigReadyCondition (lib E) pc err) rv) s1 = (r, t)"
    using assms(2,3) v by (simp add: ReconcileProviderConfig_def reconcileProviderConfig_def run_call)
  have cache: "stCache t = stCache s1"
    using neutral_validate(2) u unfolding cacheNeutral_def by blast
  have led: "clientLedger None ?s" using assms(1) by (simp add: clientLedger_def)
  obtain e1 where e1: "stTrace s1 = stTrace ?s @ e1" "err = None \<longrightarrow> (\<exists>c. ObsEv c RListBuckets None \<in> set e1)"
    using emitsD [OF validateProvider_ok v] by auto
  obtain e2 where "stTrace t = stTrace s1 @ e2"
    using emitsD [OF updateProviderConfigStatus_emits u] by blast
  with e1(1) have "set e1 \<subseteq> set (emitted (ReconcileProviderConfig E (Some R) req) s)"
    using assms(2) by (auto simp: emitted_def)
  with e1(2) assms(4) have "err \<noteq> None" by blast
  then obtain e where "err = Some e" by blast
  with v have "run_state (validateProvider E R pc) ?s = ((Some e, rv), s1)" by simp
  from validateProvider_failed [OF led this] cache show ?thesis by (simp add: notCached_def)
qed

lemma ReconcileProviderConfig_deleted:
  assumes "clientLedger None s" "run_state (ReconcileProviderConfig E (Some R) req) s = (r, t)"
    "apiGetProviderConfig (k8s E) req (stWorld s) = (Inl e, w)" "IsNotFound (lib E) e"
  shows "r = None \<and> notCached (nnNamespace req) (nnName req) t"
proof -
  let ?s = "s\<lparr>stWorld := w, stTrace := stTrace s @ [GetProviderConfigEv req (Inl e)]\<rparr>"
  have "run_state (cacheInvalidateProvider E (nnNamespace req) (nnName req)) ?s = ((), t)" "r = None"
    using assms(2-4) by (auto simp: ReconcileProviderConfig_def InvalidateProvider_def run_call split: prod.splits)
  moreover have "clientLedger None ?s" using assms(1) by (simp add: clientLedger_def)
  ultimately show ?thesis using invalidate_notCached by blast
qed

end
