(* ===== verification/Watches.thy ===== *)
theory Watches
  imports BucketReconcile
begin

text \<open>
  What makes the controllers reconcile: the event filter on Bucket updates, the field indexers, and
  the map functions from a changed ProviderConfig to the Buckets that use it and from a changed
  Secret to the ProviderConfigs that use it.

  \<open>ref_watch\<close> is the contract of such a map function: it lists the objects whose index entry is the
  changed object's name. Both map functions are interpretations, and that exactly the referring
  objects are enqueued is proved once.
\<close>

section \<open>Operations\<close>

definition bucketProviderConfigRefIndex :: string where
  "bucketProviderConfigRefIndex = ''.spec.providerConfigRef.name''"

definition providerConfigCredentialsSecretIndex :: string where
  "providerConfigCredentialsSecretIndex = ''.spec.credentialsSecretRef.name''"

text \<open>The objects an indexer can be handed; it looks only at its own kind.\<close>

datatype clientObject = BucketObject Bucket | ProviderConfigObject ProviderConfig | OtherObject

definition bucketEventPredicate :: "ObjectMeta option \<Rightarrow> ObjectMeta option \<Rightarrow> bool" where
  "bucketEventPredicate objectOld objectNew =
     (case (objectOld, objectNew) of
        (Some old, Some new) \<Rightarrow>
          Generation old \<noteq> Generation new \<or> DeletionTimestamp old \<noteq> DeletionTimestamp new \<or>
          Finalizers old \<noteq> Finalizers new
      | _ \<Rightarrow> True)"

definition bucketProviderConfigRefIndexer :: "clientObject \<Rightarrow> string list" where
  "bucketProviderConfigRefIndexer rawObj =
     (case rawObj of
        BucketObject bucket \<Rightarrow>
          if specProviderConfigRef (bSpec bucket) = [] then [] else [specProviderConfigRef (bSpec bucket)]
      | _ \<Rightarrow> [])"

definition providerConfigCredentialsSecretRefIndexer :: "clientObject \<Rightarrow> string list" where
  "providerConfigCredentialsSecretRefIndexer rawObj =
     (case rawObj of
        ProviderConfigObject pc \<Rightarrow>
          if pcsCredentialsSecretRef (pSpec pc) = [] then [] else [pcsCredentialsSecretRef (pSpec pc)]
      | _ \<Rightarrow> [])"

definition bucketsForProviderConfig :: "('c, 'w) env \<Rightarrow> NamespacedName \<Rightarrow> ('c, 'w, NamespacedName list) prog" where
  "bucketsForProviderConfig E obj = do {
     r \<leftarrow> call (apiListBucketResources (k8s E) (nnNamespace obj) bucketProviderConfigRefIndex (nnName obj))
           (\<lambda>_. ListBucketsEv (nnNamespace obj) bucketProviderConfigRefIndex (nnName obj));
     ret (case r of
            Inl _ \<Rightarrow> []
          | Inr items \<Rightarrow> map (\<lambda>b. \<lparr>nnNamespace = Namespace (bMeta b), nnName = Name (bMeta b)\<rparr>) items)
   }"

definition providerConfigsForSecret :: "('c, 'w) env \<Rightarrow> NamespacedName \<Rightarrow> ('c, 'w, NamespacedName list) prog" where
  "providerConfigsForSecret E obj = do {
     r \<leftarrow> call (apiListProviderConfigs (k8s E) (nnNamespace obj) providerConfigCredentialsSecretIndex (nnName obj))
           (\<lambda>_. ListProviderConfigsEv (nnNamespace obj) providerConfigCredentialsSecretIndex (nnName obj));
     ret (case r of
            Inl _ \<Rightarrow> []
          | Inr items \<Rightarrow> map (\<lambda>p. \<lparr>nnNamespace = Namespace (pMeta p), nnName = Name (pMeta p)\<rparr>) items)
   }"

section \<open>Map functions\<close>

text \<open>
  What the cached client documents for a list with a field index: when it succeeds, it returns the
  stored objects of the namespace for which the indexer gives the value.
\<close>

definition indexedList :: "('w \<Rightarrow> 'o list) \<Rightarrow> ('o \<Rightarrow> ObjectMeta) \<Rightarrow> ('o \<Rightarrow> string list) \<Rightarrow>
    (string \<Rightarrow> string \<Rightarrow> ('w, 'o list) action) \<Rightarrow> bool" where
  "indexedList stored meta indexer listing \<longleftrightarrow>
     (\<forall>ns v w items w'. listing ns v w = (Inr items, w') \<longrightarrow>
        set items = {x \<in> set (stored w). Namespace (meta x) = ns \<and> v \<in> set (indexer x)})"

locale ref_watch =
  fixes meta :: "'o \<Rightarrow> ObjectMeta"
    and ref :: "'o \<Rightarrow> string"
    and indexer :: "'o \<Rightarrow> string list"
    and listing :: "string \<Rightarrow> string \<Rightarrow> ('w, 'o list) action"
    and mapFn :: "NamespacedName \<Rightarrow> ('c, 'w, NamespacedName list) prog"
  assumes indexer: "indexer x = (if ref x = [] then [] else [ref x])"
    and mapFn: "fst (run_state (mapFn obj) s) =
      (case fst (listing (nnNamespace obj) (nnName obj) (stWorld s)) of
         Inl _ \<Rightarrow> []
       | Inr items \<Rightarrow> map (\<lambda>x. \<lparr>nnNamespace = Namespace (meta x), nnName = Name (meta x)\<rparr>) items)"
begin

lemma enqueues_referrers:
  assumes "indexedList stored meta indexer listing" "nnName obj \<noteq> []"
    "listing (nnNamespace obj) (nnName obj) (stWorld s) = (Inr items, w')"
  shows "set (fst (run_state (mapFn obj) s)) =
    (\<lambda>x. \<lparr>nnNamespace = Namespace (meta x), nnName = Name (meta x)\<rparr>) `
      {x \<in> set (stored (stWorld s)). Namespace (meta x) = nnNamespace obj \<and> ref x = nnName obj}"
proof -
  have "set items = {x \<in> set (stored (stWorld s)). Namespace (meta x) = nnNamespace obj \<and> nnName obj \<in> set (indexer x)}"
    using assms(1,3) by (simp add: indexedList_def)
  also have "\<dots> = {x \<in> set (stored (stWorld s)). Namespace (meta x) = nnNamespace obj \<and> ref x = nnName obj}"
    using assms(2) by (auto simp: indexer)
  finally show ?thesis using assms(3) by (simp add: mapFn)
qed

lemma enqueues_own_namespace:
  assumes "indexedList stored meta indexer listing" "k \<in> set (fst (run_state (mapFn obj) s))"
  shows "nnNamespace k = nnNamespace obj"
proof (cases "fst (listing (nnNamespace obj) (nnName obj) (stWorld s))")
  case (Inl e)
  with assms(2) show ?thesis by (simp add: mapFn)
next
  case (Inr items)
  then obtain w' where "listing (nnNamespace obj) (nnName obj) (stWorld s) = (Inr items, w')"
    by (metis prod.collapse)
  with assms(1) have "set items = {x \<in> set (stored (stWorld s)).
      Namespace (meta x) = nnNamespace obj \<and> nnName obj \<in> set (indexer x)}"
    by (simp add: indexedList_def)
  with assms(2) Inr show ?thesis by (auto simp: mapFn)
qed

end

interpretation bucketWatch: ref_watch bMeta "\<lambda>b. specProviderConfigRef (bSpec b)"
  "\<lambda>b. bucketProviderConfigRefIndexer (BucketObject b)"
  "\<lambda>ns v. apiListBucketResources (k8s E) ns bucketProviderConfigRefIndex v" "bucketsForProviderConfig E" for E
  by unfold_locales
     (auto simp: bucketProviderConfigRefIndexer_def bucketsForProviderConfig_def run_call split: prod.splits)

interpretation secretWatch: ref_watch pMeta "\<lambda>p. pcsCredentialsSecretRef (pSpec p)"
  "\<lambda>p. providerConfigCredentialsSecretRefIndexer (ProviderConfigObject p)"
  "\<lambda>ns v. apiListProviderConfigs (k8s E) ns providerConfigCredentialsSecretIndex v" "providerConfigsForSecret E" for E
  by unfold_locales
     (auto simp: providerConfigCredentialsSecretRefIndexer_def providerConfigsForSecret_def run_call split: prod.splits)

section \<open>The event filter\<close>

text \<open>The controller's own status patches pass no filter; a finalizer change does.\<close>

lemma statusPatch_filtered:
  "statusPatch L b resolved cond md m \<Longrightarrow> \<not> bucketEventPredicate (Some (bMeta b)) (Some (bMeta m))"
  by (auto simp: bucketEventPredicate_def dest: statusPatch_meta)

lemma finalizer_change_passes:
  "fs \<noteq> Finalizers (bMeta b) \<Longrightarrow>
   bucketEventPredicate (Some (bMeta b)) (Some (bMeta (withFinalizers b fs)))"
  by (simp add: bucketEventPredicate_def withFinalizers_def)

end
