(* ===== verification/Simulation.thy ===== *)
theory Simulation
  imports ProviderConfigController Watches
begin

text \<open>
  A concrete environment: an OBS service with one bucket and an API server with one Bucket, one
  ProviderConfig and one Secret, kept in memory. It satisfies every law that theorems of the
  development assume of the environment, so they apply to it, and runs of the controllers on it can
  be evaluated. An OBS client is a number.
\<close>

record sim =
  simExists :: bool
  simView :: settingsView
  simObjects :: "ObjectToDelete list"
  simBucket :: Bucket
  simConfig :: ProviderConfig
  simSecret :: Secret
  simReachable :: bool
  simVisible :: bool \<comment> \<open>whether reads of the bucket see it yet\<close>

definition simSdk :: obs_consts where
  "simSdk = \<lparr>StorageClassStandard = ''STANDARD'', StorageClassWarm = ''WARM'', StorageClassCold = ''COLD'',
     AclPrivate = ''private'', AclPublicRead = ''public-read'', AclPublicReadWrite = ''public-read-write'',
     AclLogDeliveryWrite = ''log-delivery-write'', GranteeUser = ''CanonicalUser'', GranteeGroup = ''Group'',
     GroupAllUsers = ''AllUsers'', GroupLogDelivery = ''LogDelivery'', PermissionRead = ''READ'',
     PermissionWrite = ''WRITE'', PermissionReadAcp = ''READ_ACP'', PermissionFullControl = ''FULL_CONTROL'',
     VersioningStatusEnabled = ''Enabled'', VersioningStatusSuspended = ''Suspended''\<rparr>"

text \<open>Conditions as \<open>meta.SetStatusCondition\<close> documents them.\<close>

fun simSetCondition :: "time \<Rightarrow> Condition list \<Rightarrow> Condition \<Rightarrow> Condition list" where
  "simSetCondition now [] c = [if cLastTransitionTime c = 0 then c\<lparr>cLastTransitionTime := now\<rparr> else c]"
| "simSetCondition now (x # xs) c =
     (if cType x = cType c then
        c\<lparr>cLastTransitionTime := (if cStatus x = cStatus c then cLastTransitionTime x
          else if cLastTransitionTime c = 0 then now else cLastTransitionTime c)\<rparr> # xs
      else x # simSetCondition now xs c)"

definition simLib :: k8s_lib where
  "simLib = \<lparr>IsNotFound = (\<lambda>e. case e of ApiStatusErr r _ \<Rightarrow> r = ''NotFound'' | _ \<Rightarrow> False),
     ContainsFinalizer = (\<lambda>fs f. f \<in> set fs), AddFinalizer = (\<lambda>fs f. if f \<in> set fs then fs else fs @ [f]),
     RemoveFinalizer = (\<lambda>fs f. removeAll f fs), SetStatusCondition = simSetCondition\<rparr>"

definition simK8s :: "sim k8s_api" where
  "simK8s = \<lparr>apiGetBucket = (\<lambda>k w. (if bucketName (simBucket w) = nnName k then Inr (simBucket w)
        else Inl (ApiStatusErr ''NotFound'' ''no such Bucket''), w)),
     apiGetProviderConfig = (\<lambda>_ w. (Inr (simConfig w), w)),
     apiGetSecret = (\<lambda>_ w. (Inr (simSecret w), w)),
     apiPatchBucket = (\<lambda>_ m w. (Inr m, w\<lparr>simBucket := m\<rparr>)),
     apiPatchBucketStatus = (\<lambda>_ m w. (Inr ((simBucket w)\<lparr>bStatus := bStatus m\<rparr>),
        w\<lparr>simBucket := (simBucket w)\<lparr>bStatus := bStatus m\<rparr>\<rparr>)),
     apiPatchProviderConfigStatus = (\<lambda>_ m w. (Inr m, w\<lparr>simConfig := m\<rparr>)),
     apiListBucketResources = (\<lambda>ns _ v w. (Inr (filter (\<lambda>b. Namespace (bMeta b) = ns \<and>
        v \<in> set (bucketProviderConfigRefIndexer (BucketObject b))) [simBucket w]), w)),
     apiListProviderConfigs = (\<lambda>ns _ v w. (Inr (filter (\<lambda>p. Namespace (pMeta p) = ns \<and>
        v \<in> set (providerConfigCredentialsSecretRefIndexer (ProviderConfigObject p))) [simConfig w]), w)),
     apiNow = (\<lambda>w. (1000, w)), apiCtxErr = (\<lambda>w. (None, w))\<rparr>"

definition simError :: "int \<Rightarrow> string \<Rightarrow> error" where
  "simError status code =
     ObsErr \<lparr>oeStatusCode = status, oeCode = code, oeMessage = code, oeText = code\<rparr>"

definition simOwnerGrant :: Grant where
  "simOwnerGrant = \<lparr>grantGrantee = \<lparr>granteeTypeOf = ''CanonicalUser'', granteeIDOf = ''owner'', granteeURIOf = []\<rparr>,
     grantPermission = ''FULL_CONTROL'', grantDelivered = False\<rparr>"

definition simGroupGrant :: "string \<Rightarrow> string \<Rightarrow> Grant" where
  "simGroupGrant grp permission =
     \<lparr>grantGrantee = \<lparr>granteeTypeOf = ''Group'', granteeIDOf = [], granteeURIOf = grp\<rparr>,
      grantPermission = permission, grantDelivered = False\<rparr>"

definition simGrants :: "string \<Rightarrow> Grant list option" where
  "simGrants acl =
     (if acl = ''private'' then Some [simOwnerGrant]
      else if acl = ''public-read'' then Some [simGroupGrant ''AllUsers'' ''READ'', simOwnerGrant]
      else None)"

definition simPutAcl :: "string \<Rightarrow> (sim, unit) action" where
  "simPutAcl acl w =
     (case simGrants acl of
        None \<Rightarrow> (Inl (simError 400 ''InvalidArgument''), w)
      | Some grants \<Rightarrow>
          (Inr (), w\<lparr>simView := (simView w)\<lparr>svAcl := Some \<lparr>aclOwnerID = ''owner'', aclGrants = grants\<rparr>\<rparr>\<rparr>))"

definition simObs :: "(nat, sim) obs_api" where
  "simObs = \<lparr>apiNew = (\<lambda>_ _ _ _ w. (Inr (Some 1), w)), apiClose = (\<lambda>_ w. w),
     apiListBuckets = (\<lambda>_ w. (if simReachable w then Inr () else Inl (LeafErr ''connection refused''), w)),
     apiGetBucketMetadata = (\<lambda>_ _ w. (if simExists w \<and> simVisible w then Inr \<lparr>mdVersion = ''3.0''\<rparr>
        else Inl (simError 404 ''NoSuchBucket''), w)),
     apiCreateBucket = (\<lambda>_ _ w. if simExists w \<and> simVisible w then (Inl (simError 409 ''BucketAlreadyExists''), w)
        else (Inr (), w\<lparr>simExists := True\<rparr>)),
     apiDeleteBucket = (\<lambda>_ _ w. if simObjects w \<noteq> [] then (Inl (simError 409 ''BucketNotEmpty''), w)
        else (Inr (), w\<lparr>simExists := False\<rparr>)),
     apiGetBucketStoragePolicy = (\<lambda>_ _ w. (Inr (svStorageClass (simView w)), w)),
     apiSetBucketStoragePolicy = (\<lambda>_ _ x w. (Inr (), w\<lparr>simView := (simView w)\<lparr>svStorageClass := x\<rparr>\<rparr>)),
     apiGetBucketAcl = (\<lambda>_ _ w. (Inr (svAcl (simView w)), w)),
     apiSetBucketAcl = (\<lambda>_ _ x. simPutAcl x),
     apiGetBucketVersioning = (\<lambda>_ _ w. (Inr (svVersioning (simView w)), w)),
     apiSetBucketVersioning = (\<lambda>_ _ x w. (Inr (), w\<lparr>simView := (simView w)\<lparr>svVersioning := x\<rparr>\<rparr>)),
     apiGetBucketTagging = (\<lambda>_ _ w. (if svTags (simView w) = [] then Inl (simError 404 ''NoSuchTagSet'')
        else Inr (svTags (simView w)), w)),
     apiSetBucketTagging = (\<lambda>_ _ x w. (Inr (), w\<lparr>simView := (simView w)\<lparr>svTags := x\<rparr>\<rparr>)),
     apiDeleteBucketTagging = (\<lambda>_ _ w. (Inr (), w\<lparr>simView := (simView w)\<lparr>svTags := []\<rparr>\<rparr>)),
     apiGetBucketLogging = (\<lambda>_ _ w. (Inr (svLogging (simView w)), w)),
     apiSetBucketLogging = (\<lambda>_ i w. (Inr (), w\<lparr>simView := (simView w)\<lparr>svLogging := Some (sblStatus i)\<rparr>\<rparr>)),
     apiGetBucketEncryption = (\<lambda>_ _ w. (case svEncryption (simView w) of
          None \<Rightarrow> Inl (simError 404 ''NoSuchEncryptionConfiguration'')
        | Some x \<Rightarrow> Inr (Some x), w)),
     apiSetBucketEncryption = (\<lambda>_ _ x w. (Inr (), w\<lparr>simView := (simView w)\<lparr>svEncryption := Some x\<rparr>\<rparr>)),
     apiDeleteBucketEncryption = (\<lambda>_ _ w. (Inr (), w\<lparr>simView := (simView w)\<lparr>svEncryption := None\<rparr>\<rparr>)),
     apiListVersions = (\<lambda>_ _ w. (Inr \<lparr>lvVersions = simObjects w, lvDeleteMarkers = [], lvIsTruncated = False\<rparr>, w)),
     apiDeleteObjects = (\<lambda>_ _ os w. (Inr \<lparr>doErrors = []\<rparr>,
        w\<lparr>simObjects := filter (\<lambda>x. x \<notin> set os) (simObjects w)\<rparr>))\<rparr>"

definition simUrl :: url_lib where
  "simUrl = \<lparr>ulIPLiteral = (\<lambda>_. None), ulErrorText = (\<lambda>_. ''parse error'')\<rparr>"

definition simEnv :: "(nat, sim) env" where
  "simEnv = \<lparr>sdk = simSdk, lib = simLib, k8s = simK8s, obs = simObs, urllib = simUrl\<rparr>"

lemmas simDefs = simEnv_def simSdk_def simLib_def simK8s_def simObs_def simUrl_def

section \<open>The laws hold\<close>

lemma sim_sdkDocumented: "sdkDocumented (sdk simEnv)"
  by (simp add: sdkDocumented_def simDefs)

lemma sim_obsReads: "obsReads simEnv c nm simView"
  by (auto simp: obsReads_def readLaw_def simDefs encryptionReadTolerated_def split: option.splits if_splits)

lemma sim_aclWriteLaw: "aclWriteLaw simEnv c nm simView"
proof -
  have sig: "cannedSignatures simSdk ''owner'' acl = Some (map (grantSignature simSdk) (rev grants))"
    if "simGrants acl = Some grants" for acl grants
    using that
    by (auto simp: simGrants_def simSdk_def cannedSignatures_def cannedGrantDefs grantSignature_def simOwnerGrant_def
        simGroupGrant_def normalizeObsBucketGrantURI_def split: if_splits)
  show ?thesis
    unfolding aclWriteLaw_def
  proof (intro allI impI)
    fix acl w w'
    assume "apiSetBucketAcl (obs simEnv) c nm acl w = (Inr (), w')"
    then obtain grants where g: "simGrants acl = Some grants"
      and w': "w' = w\<lparr>simView := (simView w)\<lparr>svAcl := Some \<lparr>aclOwnerID = ''owner'', aclGrants = grants\<rparr>\<rparr>\<rparr>"
      by (auto simp: simEnv_def simObs_def simPutAcl_def split: option.splits)
    show "\<exists>owner grants sigs. owner \<noteq> [] \<and> cannedSignatures (sdk simEnv) owner acl = Some sigs \<and>
        mset (map (grantSignature (sdk simEnv)) grants) = mset sigs \<and>
        simView w' = (simView w)\<lparr>svAcl := Some \<lparr>aclOwnerID = owner, aclGrants = grants\<rparr>\<rparr>"
      using sig [OF g] w'
      by (intro exI [of _ "''owner''"] exI [of _ grants] exI [of _ "map (grantSignature simSdk) (rev grants)"])
         (simp add: simEnv_def)
  qed
qed

lemma sim_obsWrites: "obsWrites simEnv c nm simView"
  unfolding obsWrites_def
proof (intro conjI)
  show "aclWriteLaw simEnv c nm simView" by (rule sim_aclWriteLaw)
  show "storageWriteLaw simEnv c nm simView" by (auto simp: storageWriteLaw_def simDefs)
  show "versioningWriteLaw simEnv c nm simView" by (auto simp: versioningWriteLaw_def simDefs)
  show "tagsWriteLaw simEnv c nm simView" by (auto simp: tagsWriteLaw_def simDefs)
  show "loggingWriteLaw simEnv c nm simView" by (auto simp: loggingWriteLaw_def simDefs)
  show "encryptionWriteLaw simEnv c nm simView" by (auto simp: encryptionWriteLaw_def simDefs)
qed

lemma sim_settingsFrame: "settingsFrame simEnv c nm simView"
  by (simp add: settingsFrame_def simDefs)

lemma sim_versionsLaw: "versionsLaw simEnv c nm (\<lambda>w. set (simObjects w))"
  by (auto simp: versionsLaw_def simDefs)

lemma simSetCondition_types: "cType ` set (simSetCondition t cs c) = insert (cType c) (cType ` set cs)"
  by (induction t cs c rule: simSetCondition.induct) auto

lemma sim_setConditionSets: "setConditionSets simLib"
proof -
  have "conditionHolds (simSetCondition t cs c) c" for t cs c
    by (induction t cs c rule: simSetCondition.induct) (auto simp: conditionHolds_def)
  then show ?thesis by (simp add: setConditionSets_def simLib_def)
qed

lemma sim_setConditionDistinct: "setConditionDistinct simLib"
proof -
  have "distinct (map cType cs) \<Longrightarrow> distinct (map cType (simSetCondition t cs c))" for t cs c
    by (induction t cs c rule: simSetCondition.induct) (auto simp: simSetCondition_types)
  then show ?thesis by (simp add: setConditionDistinct_def simLib_def)
qed

lemma sim_setConditionStable: "setConditionStable simLib"
proof -
  have "simSetCondition t' (simSetCondition t cs c) c = simSetCondition t cs c" for t t' cs c
    by (induction t cs c rule: simSetCondition.induct) auto
  then show ?thesis by (simp add: setConditionStable_def simLib_def)
qed

lemma sim_settingsLaws: "settingsLaws simEnv nm simView"
  using sim_setConditionSets sim_setConditionDistinct
  by (simp add: settingsLaws_def setConditionLaw_def sim_sdkDocumented sim_obsReads sim_obsWrites sim_settingsFrame)
     (simp add: simEnv_def)

section \<open>Sample objects and states\<close>

definition sampleMeta :: "string \<Rightarrow> string list \<Rightarrow> ObjectMeta" where
  "sampleMeta nm fs = \<lparr>Name = nm, Namespace = ''team-a'', UID = ''uid-1'', ResourceVersion = ''7'',
     Generation = 2, DeletionTimestamp = None, Finalizers = fs\<rparr>"

definition sampleBucket :: Bucket where
  "sampleBucket =
     \<lparr>bMeta = sampleMeta ''data'' [bucketFinalizer],
      bSpec = \<lparr>specProviderConfigRef = ''otc'', specStorageClass = [], specACL = [], specVersioning = True,
        specParallelFS = False, specEnterpriseProjectID = [], specTags = Some [(''env'', ''prod'')],
        specForceDestroy = False, specLogging = None, specServerSideEncryption = None\<rparr>,
      bStatus = \<lparr>stObservedGeneration = 0, stRegion = [], stBucketDomainName = [], stBucketVersion = [],
        stLastSyncTime = None, stConditions = []\<rparr>\<rparr>"

definition freshBucket :: Bucket where
  "freshBucket = sampleBucket\<lparr>bMeta := sampleMeta ''data'' []\<rparr>"

definition deletedBucket :: Bucket where
  "deletedBucket = sampleBucket\<lparr>bMeta := (sampleMeta ''data'' [bucketFinalizer])\<lparr>DeletionTimestamp := Some 900\<rparr>,
     bSpec := (bSpec sampleBucket)\<lparr>specForceDestroy := True\<rparr>\<rparr>"

definition sampleConfig :: ProviderConfig where
  "sampleConfig =
     \<lparr>pMeta = sampleMeta ''otc'' [],
      pSpec = \<lparr>pcsRegion = ''eu-de'', pcsEndpoint = ''obs.eu-de.otc.t-systems.com/'', pcsCredentialsSecretRef = ''creds''\<rparr>,
      pStatus = \<lparr>pcObservedGeneration = 0, pcLastValidationTime = None, pcObservedProviderRevision = [],
        pcConditions = []\<rparr>\<rparr>"

definition sampleSecret :: Secret where
  "sampleSecret = \<lparr>secMeta = sampleMeta ''creds'' [],
     secData = [(''accessKeyID'', ''AK''), (''secretAccessKey'', ''SK'')]\<rparr>"

definition sampleCredentials :: Credentials where
  "sampleCredentials = \<lparr>crAccessKeyID = ''AK'', crSecretAccessKey = ''SK'', crSecurityToken = []\<rparr>"

definition sampleView :: settingsView where
  "sampleView = \<lparr>svStorageClass = ''STANDARD'', svAcl = Some \<lparr>aclOwnerID = ''owner'', aclGrants = [simOwnerGrant]\<rparr>,
     svVersioning = ''Suspended'', svTags = [], svLogging = None, svEncryption = None\<rparr>"

definition sampleWorld :: "bool \<Rightarrow> Bucket \<Rightarrow> ObjectToDelete list \<Rightarrow> sim" where
  "sampleWorld ex b os = \<lparr>simExists = ex, simView = sampleView, simObjects = os, simBucket = b,
     simConfig = sampleConfig, simSecret = sampleSecret, simReachable = True, simVisible = True\<rparr>"

definition sampleState :: "sim \<Rightarrow> (nat, sim) st" where
  "sampleState w = \<lparr>stWorld = w, stCache = Some (NewCache simEnv), stTrace = []\<rparr>"

definition simResolver :: "(nat, sim) ProviderResolver" where
  "simResolver = NewProviderResolver simEnv []"

definition sampleReq :: NamespacedName where
  "sampleReq = \<lparr>nnNamespace = ''team-a'', nnName = ''data''\<rparr>"

lemma sample_names [simp]:
  "nnName sampleReq = ''data''" "bucketName sampleBucket = ''data''" "bucketName freshBucket = ''data''"
  "bucketName deletedBucket = ''data''"
  by (simp_all add: sampleReq_def sampleBucket_def freshBucket_def deletedBucket_def sampleMeta_def)

lemma sample_trim: "TrimSpace ''eu-de'' = ''eu-de''" "TrimSpace ''AK'' = ''AK''" "TrimSpace ''SK'' = ''SK''" "TrimSpace [] = []"
  by (rule TrimSpace_urlChars, code_simp)+

lemma sample_credentials: "CredentialsFromSecret sampleSecret = Inr sampleCredentials"
  by (simp add: CredentialsFromSecret_def sampleSecret_def sampleCredentials_def mapLookup_def sample_trim
      AccessKeyIDSecretKey_def SecretAccessKeySecretKey_def SecurityTokenSecretKey_def)

lemma sample_endpoint:
  "ResolveEndpoint U region ''obs.eu-de.otc.t-systems.com/'' = Inr ''https://obs.eu-de.otc.t-systems.com''"
proof -
  have "list_all hostChar ''obs.eu-de.otc.t-systems.com''" by code_simp
  then have "admittedEndpoint ''obs.eu-de.otc.t-systems.com'' [] ''obs.eu-de.otc.t-systems.com/''"
    unfolding admittedEndpoint_def by (auto simp: portText_def)
  from admittedEndpoint_resolves [OF this] show ?thesis by simp
qed

lemma sample_ledger: "clientLedger None (sampleState w)"
  by (simp add: clientLedger_def sampleState_def cacheOk_NewCache) (simp add: NewCache_def liveClients_def)

lemma sample_provenance: "cacheProvenance (sampleState w)"
  by (simp add: cacheProvenance_def sampleState_def cacheOk_NewCache absCache_NewCache)

lemma sample_wellFormed: "wellFormedBucket sampleBucket"
  by (simp add: wellFormedBucket_def sampleBucket_def desiredTags_def gomap_wf_def)

section \<open>Running the simulation\<close>

lemma sampleState_simps [simp]:
  "stWorld (sampleState w) = w" "stTrace (sampleState w) = []" "stCache (sampleState w) = Some (NewCache simEnv)"
  by (simp_all add: sampleState_def)

lemma sampleWorld_simps [simp]:
  "simBucket (sampleWorld ex b os) = b" "simConfig (sampleWorld ex b os) = sampleConfig"
  "simSecret (sampleWorld ex b os) = sampleSecret" "simExists (sampleWorld ex b os) = ex"
  "simObjects (sampleWorld ex b os) = os" "simView (sampleWorld ex b os) = sampleView"
  "simReachable (sampleWorld ex b os) = True" "simVisible (sampleWorld ex b os) = True"
  by (simp_all add: sampleWorld_def)

lemma simEnv_simps [simp]:
  "lib simEnv = simLib" "sdk simEnv = simSdk" "k8s simEnv = simK8s" "obs simEnv = simObs" "urllib simEnv = simUrl"
  by (simp_all add: simEnv_def)

lemmas simRun = run_call run_obsCall run_quiet run_getCache run_setCache Let_def
  simK8s_def simLib_def simObs_def simUrl_def simSdk_def simError_def

lemma sim_resolve:
  assumes "simConfig (stWorld s) = sampleConfig" "simSecret (stWorld s) = sampleSecret"
    "stCache s = Some (NewCache simEnv)"
  shows "\<exists>res t. run_state (ResolveProviderConfig simEnv simResolver k) s = (Inr res, t) \<and>
    rcOBS res = Some 1 \<and> rcRegion res = ''eu-de'' \<and> stWorld t = stWorld s"
  using assms sample_credentials sample_trim sample_endpoint
  by (simp add: ResolveProviderConfig_def ResolveProviderConfigObject_def resolveClient_def
      cacheGet_def cacheSet_def getLocked_def setLocked_def NewCache_def simRun
      simResolver_def NewProviderResolver_def newOBSClient_def sampleConfig_def
      newResolvedClient_def cloneResolvedClient_def providerCacheKey_def)

lemma sim_update:
  assumes "simView (stWorld s) = sampleView"
  shows "\<exists>t. run_state (update simEnv c sampleBucket) s = (None, t) \<and>
    simExists (stWorld t) = simExists (stWorld s) \<and> simVisible (stWorld t) = simVisible (stWorld s)"
proof -
  have acl: "flattenObsBucketCannedACL simSdk (Some \<lparr>aclOwnerID = ''owner'', aclGrants = [simOwnerGrant]\<rparr>) = Some ''private''"
    by code_simp
  show ?thesis
    using assms acl
    by (simp add: update_def updateSteps_def stepDefs simRun sampleBucket_def sampleView_def sampleMeta_def
        normalizeStorageClass_def bucketStorageClass_def bucketACL_def desiredTags_def mapsEqual_def obsErrorTests
        obsNoSuchTagSetCode_def loggingMatches_def loggingInput_def encryptionReadTolerated_def
        obsNoSuchEncryptionConfigCode_def)
qed

lemma sampleBucket_facts:
  "hasFinalizer simLib sampleBucket" "\<not> deleting sampleBucket" "bucketName sampleBucket = ''data''"
  "stLastSyncTime (bStatus sampleBucket) = None"
  by (simp_all add: hasFinalizer_def simLib_def sampleBucket_def sampleMeta_def IsZeroTime_def)

lemma sim_patchStatus_ready:
  "\<exists>t e. run_state (patchStatus simEnv sampleBucket resolved None md) s = (None, t) \<and>
     stTrace t = stTrace s @ [e] \<and> readyEv simLib sampleBucket e \<and>
     simExists (stWorld t) = simExists (stWorld s) \<and> simVisible (stWorld t) = simVisible (stWorld s)"
proof -
  have "statusPatch simLib sampleBucket resolved (bucketReadyStatusCondition simLib sampleBucket None) md
      (sampleBucket\<lparr>bStatus := (nextBucketStatus simLib 1000 sampleBucket resolved
        (bucketReadyStatusCondition simLib sampleBucket None) md)\<lparr>stLastSyncTime := Some 1000\<rparr>\<rparr>)"
    unfolding statusPatch_def by blast
  from statusPatch_fields [OF sim_setConditionSets this] show ?thesis
    by (simp add: patchStatus_def updateBucketStatus_def Let_def run_quiet run_call simEnv_def simK8s_def
        bucketStatusChanged_def sampleBucket_facts readyEv_def isUserCorrectableBucketError_def)
qed

lemma sim_ready:
  "\<exists>e. e \<in> set (emitted (Reconcile 0 simEnv (Some simResolver) sampleReq)
      (sampleState (sampleWorld True sampleBucket []))) \<and> readyEv simLib sampleBucket e"
proof -
  let ?s = "(sampleState (sampleWorld True sampleBucket []))
    \<lparr>stWorld := sampleWorld True sampleBucket [], stTrace := [GetBucketEv sampleReq (Inr sampleBucket)]\<rparr>"
  let ?k = "\<lparr>nnNamespace = Namespace (bMeta sampleBucket), nnName = specProviderConfigRef (bSpec sampleBucket)\<rparr>"
  have "simConfig (stWorld ?s) = sampleConfig" "simSecret (stWorld ?s) = sampleSecret"
    "stCache ?s = Some (NewCache simEnv)" by simp_all
  from sim_resolve [OF this, of ?k] obtain res t1 where
    t1: "run_state (ResolveProviderConfig simEnv simResolver ?k) ?s = (Inr res, t1)" "stWorld t1 = stWorld ?s"
    by blast
  obtain ob t2 where t2: "run_state (observe simEnv (rcOBS res) sampleBucket) t1 = (Inr ob, t2)" "obExists ob"
    "simView (stWorld t2) = sampleView"
    using t1(2) by (simp add: observe_def simRun)
  obtain t3 where t3: "run_state (update simEnv (rcOBS res) sampleBucket) t2 = (None, t3)"
    using sim_update [OF t2(3)] by blast
  obtain ob2 t4 where t4: "run_state (observe simEnv (rcOBS res) sampleBucket) t3 = (Inr ob2, t4)"
    by (cases "simExists (stWorld t3) \<and> simVisible (stWorld t3)") (simp_all add: observe_def simRun isBucketNotFound_def)
  obtain t e where t: "run_state (patchStatus simEnv sampleBucket (Some res) None (obMetadata ob2)) t4 = (None, t)"
    "stTrace t = stTrace t4 @ [e]" "readyEv simLib sampleBucket e"
    using sim_patchStatus_ready by blast
  have "run_state (Reconcile 0 simEnv (Some simResolver) sampleReq) (sampleState (sampleWorld True sampleBucket []))
      = (Some None, t)"
    using t1 t2 t3 t4 t sampleBucket_facts
    by (simp add: Reconcile_def run_call simK8s_def reconcileBody_def
        resolveBucketClient_def ResolveBucket_def reconcileOwned_def reconcileUpdate_def finish_def)
  then have "emitted (Reconcile 0 simEnv (Some simResolver) sampleReq) (sampleState (sampleWorld True sampleBucket []))
      = stTrace t" by (simp add: emitted_def)
  with t(2,3) show ?thesis by (intro exI [of _ e]) simp
qed

text \<open>An OBS service whose reads do not see a new bucket yet.\<close>

definition laggingWorld :: sim where
  "laggingWorld = (sampleWorld False sampleBucket [])\<lparr>simVisible := False\<rparr>"

lemma sim_lagging:
  "\<exists>t e1 e. run_state (Reconcile 0 simEnv (Some simResolver) sampleReq) (sampleState laggingWorld) = (Some None, t) \<and>
     stTrace t = e1 @ [ObsEv (Some 1) (RGetBucketMetadata ''data'') (Some (simError 404 ''NoSuchBucket'')), e] \<and>
     readyEv simLib sampleBucket e"
proof -
  let ?s = "(sampleState laggingWorld)\<lparr>stTrace := [GetBucketEv sampleReq (Inr sampleBucket)]\<rparr>"
  let ?k = "\<lparr>nnNamespace = Namespace (bMeta sampleBucket), nnName = specProviderConfigRef (bSpec sampleBucket)\<rparr>"
  have "simConfig (stWorld ?s) = sampleConfig" "simSecret (stWorld ?s) = sampleSecret"
    "stCache ?s = Some (NewCache simEnv)" by (simp_all add: laggingWorld_def)
  from sim_resolve [OF this, of ?k] obtain res t1 where
    t1: "run_state (ResolveProviderConfig simEnv simResolver ?k) ?s = (Inr res, t1)" "stWorld t1 = stWorld ?s"
    "rcOBS res = Some 1"
    by blast
  obtain ob t2 where t2: "run_state (observe simEnv (rcOBS res) sampleBucket) t1 = (Inr ob, t2)" "\<not> obExists ob"
    "stWorld t2 = laggingWorld"
    using t1(2) by (simp add: observe_def simRun laggingWorld_def isBucketNotFound_def)
  obtain t3 where t3: "run_state (create simEnv (rcOBS res) sampleBucket (rcRegion res)) t2 = (None, t3)"
    "stWorld t3 = laggingWorld\<lparr>simExists := True\<rparr>"
    using t2(3) by (simp add: create_def simRun laggingWorld_def)
  then have "simView (stWorld t3) = sampleView" by (simp add: laggingWorld_def)
  from sim_update [OF this] obtain t4 where
    t4: "run_state (update simEnv (rcOBS res) sampleBucket) t3 = (None, t4)" "\<not> simVisible (stWorld t4)"
    using t3(2) by (auto simp: laggingWorld_def)
  obtain ob2 t5 where t5: "run_state (observe simEnv (rcOBS res) sampleBucket) t4 = (Inr ob2, t5)"
    "stTrace t5 = stTrace t4 @ [ObsEv (Some 1) (RGetBucketMetadata ''data'') (Some (simError 404 ''NoSuchBucket''))]"
    using t4(2) t1(3) by (simp add: observe_def simRun isBucketNotFound_def sampleBucket_facts)
  obtain t e where t: "run_state (patchStatus simEnv sampleBucket (Some res) None (obMetadata ob2)) t5 = (None, t)"
    "stTrace t = stTrace t5 @ [e]" "readyEv simLib sampleBucket e"
    using sim_patchStatus_ready by blast
  have "run_state (Reconcile 0 simEnv (Some simResolver) sampleReq) (sampleState laggingWorld) = (Some None, t)"
    using t1 t2 t3 t4 t5 t sampleBucket_facts
    by (simp add: Reconcile_def run_call simK8s_def reconcileBody_def laggingWorld_def sampleState_def
        resolveBucketClient_def ResolveBucket_def reconcileOwned_def reconcileUpdate_def finish_def)
  with t(2,3) t5(2) show ?thesis
    by (intro exI [of _ t] exI [of _ "stTrace t4"] exI [of _ e]) simp
qed

text \<open>An environment in which the API server does not answer.\<close>

definition simDown :: "(nat, sim) env" where
  "simDown = simEnv\<lparr>k8s := simK8s\<lparr>apiGetBucket := (\<lambda>_ w. (Inl (LeafErr ''timeout''), w))\<rparr>\<rparr>"

lemma simDown_run:
  "\<exists>t. run_state (Reconcile n simDown R sampleReq) (sampleState w) = (Some (Some (LeafErr ''timeout'')), t)"
  by (simp add: Reconcile_def run_call simDown_def simLib_def)

definition sampleObject :: ObjectToDelete where
  "sampleObject = \<lparr>otdKey = ''a.txt'', otdVersionId = ''v1''\<rparr>"

lemma sim_delete:
  "\<exists>t. run_state (delete 1 simEnv (Some 1) deletedBucket) (sampleState (sampleWorld True deletedBucket [sampleObject]))
     = (Some None, t) \<and> \<not> simExists (stWorld t)"
  by (simp add: delete_def run_obsCall run_quiet Let_def simObs_def simK8s_def simError_def obsErrorTests
      deletedBucket_def sampleBucket_def sampleMeta_def objectsToDelete_def sampleObject_def)

lemma sim_resolve_object:
  assumes "simSecret (stWorld s) = sampleSecret" "stCache s = Some (NewCache simEnv)"
  shows "\<exists>res t. run_state (ResolveProviderConfigObject simEnv simResolver sampleConfig) s = (Inr res, t)"
  using assms sample_credentials sample_trim sample_endpoint
  by (simp add: ResolveProviderConfigObject_def resolveClient_def
      cacheGet_def cacheSet_def getLocked_def setLocked_def NewCache_def simRun
      simResolver_def NewProviderResolver_def newOBSClient_def sampleConfig_def
      newResolvedClient_def cloneResolvedClient_def providerCacheKey_def)

text \<open>A ProviderConfig whose endpoint cannot be reached.\<close>

definition unreachableWorld :: sim where
  "unreachableWorld = (sampleWorld True sampleBucket [])\<lparr>simReachable := False\<rparr>"

lemma sim_unreachable:
  "ObsEv c RListBuckets None \<notin>
     set (emitted (ReconcileProviderConfig simEnv (Some simResolver) sampleReq) (sampleState unreachableWorld))"
  using sample_credentials sample_trim sample_endpoint
  by (simp add: emitted_def ReconcileProviderConfig_def reconcileProviderConfig_def validateProvider_def
      ResolveProviderConfigObject_def resolveClient_def validateProviderClient_def InvalidateProvider_def
      cacheInvalidateProvider_def invalidateLocked_def updateProviderConfigStatus_def
      cacheGet_def cacheSet_def getLocked_def setLocked_def NewCache_def simRun unreachableWorld_def
      simResolver_def NewProviderResolver_def newOBSClient_def sampleConfig_def
      newResolvedClient_def cloneResolvedClient_def providerCacheKey_def)

end
