(* ===== verification/BucketTheorems.thy ===== *)
theory BucketTheorems
  imports Simulation
begin

text \<open>
  What the Bucket controller guarantees, as theorems about the handler and its parts, each with a
  run of the simulated environment that its hypotheses admit.
\<close>

section \<open>The handler\<close>

lemma Reconcile_emitted:
  assumes "\<And>b. emits (reconcileBody n E R b) (\<lambda>r evs. P b evs)"
  shows "\<exists>g evs. emitted (Reconcile n E R req) s = GetBucketEv req g # evs \<and>
    (case g of Inl _ \<Rightarrow> evs = [] | Inr b \<Rightarrow> P b evs)"
proof -
  have "emits (Reconcile n E R req) (\<lambda>r evs. \<exists>g evs'. evs = GetBucketEv req g # evs' \<and>
      (case g of Inl _ \<Rightarrow> evs' = [] | Inr b \<Rightarrow> P b evs'))"
    by (rule Reconcile_cases) (auto intro!: emits_mono [OF assms])
  from emits_emitted [OF this] show ?thesis .
qed


text \<open>
  C3. Ownership. In every reconciliation a create request comes after an observation that the
  bucket does not exist. The finalizer of a Bucket being deleted is patched only after an
  observation that the bucket is missing or an answer that it is deleted, the finalizer of an owned
  Bucket only after a create conflict, and a Bucket without the finalizer gets it only after an
  observation that the bucket does not exist: a bucket that exists before the claim is not adopted.
\<close>

theorem reconcile_ownership:
  "\<exists>g evs. emitted (Reconcile n E R req) s = GetBucketEv req g # evs \<and>
     (case g of Inl _ \<Rightarrow> evs = [] | Inr b \<Rightarrow> ownershipOk (lib E) b evs)"
  by (rule Reconcile_emitted) (rule reconcileBody_ownership)

text \<open>
  C2. When a reconciliation reports the Bucket ready in its status, the settings of the OBS bucket
  are those of the spec at the end of the reconciliation, given that OBS reads and writes behave as
  documented.
\<close>

theorem ready_means_converged:
  assumes "settingsLaws E (bucketName b) view" "wellFormedBucket b"
    "apiGetBucket (k8s E) req (stWorld s) = (Inr b, w)" "run_state (Reconcile n E R req) s = (r, t)"
    "e \<in> set (emitted (Reconcile n E R req) s)" "readyEv (lib E) b e"
  shows "converged (sdk E) b (view (stWorld t))"
  using assms by (rule Reconcile_ready)

theorem ready_means_converged_witness:
  "converged simSdk sampleBucket (simView (stWorld (snd (run_state
     (Reconcile 0 simEnv (Some simResolver) sampleReq) (sampleState (sampleWorld True sampleBucket []))))))"
proof -
  let ?s = "sampleState (sampleWorld True sampleBucket [])"
  obtain r t where run: "run_state (Reconcile 0 simEnv (Some simResolver) sampleReq) ?s = (r, t)" by fastforce
  obtain e where e: "e \<in> set (emitted (Reconcile 0 simEnv (Some simResolver) sampleReq) ?s)"
    "readyEv simLib sampleBucket e" using sim_ready by blast
  have get: "apiGetBucket (k8s simEnv) sampleReq (stWorld ?s) = (Inr sampleBucket, stWorld ?s)"
    by (simp add: simK8s_def)
  have "converged (sdk simEnv) sampleBucket (simView (stWorld t))"
    by (rule ready_means_converged [OF sim_settingsLaws sample_wellFormed get run e(1)]) (simp add: e(2))
  with run show ?thesis by simp
qed

text \<open>
  C7. A reconciliation returns: with enough fuel for the loop that empties a bucket the handler
  gives a result, given that listing and deleting object versions behave as documented and a bucket
  holds finitely many versions.
\<close>

theorem reconcile_returns:
  assumes "\<And>c nm. versionsLaw E c nm (objs nm)" "\<And>nm w. finite (objs nm w)"
  shows "\<exists>n r t. run_state (Reconcile n E R req) s = (Some r, t)"
  using terminates_Reconcile [OF assms] unfolding terminates_def by blast

theorem reconcile_returns_witness:
  "\<exists>n r t. run_state (Reconcile n simEnv (Some simResolver) sampleReq)
     (sampleState (sampleWorld True deletedBucket [sampleObject])) = (Some r, t)"
  by (rule reconcile_returns [where objs = "\<lambda>_ w. set (simObjects w)"]) (simp_all add: sim_versionsLaw)

text \<open>
  C19. A reconciliation is retried only for a reason: an error it returns is that of the read of the
  Bucket, of a failed patch of the Bucket or its status, or it is not one the user has to correct.
\<close>

theorem reconcile_retry:
  assumes "run_state (Reconcile n E R req) s = (Some (Some e), t)"
  shows "GetBucketEv req (Inl e) \<in> set (emitted (Reconcile n E R req) s) \<or>
    apiWriteFailed (emitted (Reconcile n E R req) s) e \<or> \<not> correctable e"
proof -
  have "emits (Reconcile n E R req) (\<lambda>r evs. \<forall>e. r = Some (Some e) \<longrightarrow>
      GetBucketEv req (Inl e) \<in> set evs \<or> apiWriteFailed evs e \<or> \<not> correctable e)"
    by (rule Reconcile_cases)
       (auto intro!: emits_mono [OF retryCause_body] simp: retryCause_def apiWriteFailed_def split: if_splits)
  from emits_emitted [OF this, of s] assms show ?thesis by simp
qed

theorem reconcile_retry_witness:
  "GetBucketEv sampleReq (Inl (LeafErr ''timeout'')) \<in>
       set (emitted (Reconcile 0 simDown None sampleReq) (sampleState (sampleWorld True sampleBucket []))) \<or>
     apiWriteFailed (emitted (Reconcile 0 simDown None sampleReq) (sampleState (sampleWorld True sampleBucket [])))
       (LeafErr ''timeout'') \<or> \<not> correctable (LeafErr ''timeout'')"
proof -
  obtain t where "run_state (Reconcile 0 simDown None sampleReq) (sampleState (sampleWorld True sampleBucket [])) =
      (Some (Some (LeafErr ''timeout'')), t)" using simDown_run by blast
  from reconcile_retry [OF this] show ?thesis .
qed



end
