(* ===== verification/Adoption.thy ===== *)
theory Adoption
  imports Simulation
begin

text \<open>
  What the finalizer does not protect from: a bucket that is created after the claim.
  A Bucket that carries the finalizer takes a bucket it finds for its own: unless it has to create the
  bucket itself, it sends no create request, which is where a foreign bucket would be noticed.
\<close>

definition notCreate :: "'c event \<Rightarrow> bool" where
  "notCreate e \<longleftrightarrow> (\<forall>c i x. e \<noteq> ObsEv c (RCreateBucket i) x)"

lemma notCreate_update: "emitsOnly notCreate (update E c b)"
  by (rule emits_mono [OF update_emitsOnly]) (fastforce simp: list_all_iff notCreate_def reqFor_def)

lemma notCreate_others:
  "emitsOnly notCreate (observe E c b)" "emitsOnly notCreate (patchStatus E b resolved err md)"
  "emitsOnly notCreate (patchFinalizer E b f)" "emitsOnly notCreate (resolveBucketClient E R b)"
  by (rule emits_mono [OF observe_emits] emits_mono [OF patchStatus_emits] emits_mono [OF patchFinalizer_emits]
      emits_mono [OF resolveBucketClient_emits], auto simp: notCreate_def list_all_iff split: prod.splits)+

lemma notCreate_owned:
  assumes "obExists ob"
  shows "emitsOnly notCreate (reconcileOwned E b resolved ob)"
proof -
  have "emitsOnly notCreate (reconcileUpdate E b resolved ob)"
    unfolding reconcileUpdate_def
    by (intro emitsOnly_bind notCreate_update notCreate_others emits_case_option emits_case_sum
        emitsOnly_finish)
  with assms show ?thesis by (simp add: reconcileOwned_def)
qed

lemma notCreate_claim: "emitsOnly notCreate (reconcileClaim E b resolved ob)"
  unfolding reconcileClaim_def
  by (intro emits_if emitsOnly_finish emitsOnly_bind notCreate_others emits_case_prod emits_return) simp

lemma sim_resolve_own:
  assumes "simConfig (stWorld s) = sampleConfig" "simSecret (stWorld s) = sampleSecret"
  shows "\<exists>res t. run_state (resolveBucketClient simEnv None b) s = (Inr res, t) \<and> stWorld t = stWorld s"
proof -
  let ?s = "s\<lparr>stCache := Some (NewCache simEnv)\<rparr>"
  obtain res t where "run_state (ResolveBucket simEnv simResolver b) ?s = (Inr res, t)" "stWorld t = stWorld ?s"
    using sim_resolve [of ?s "\<lparr>nnNamespace = Namespace (bMeta b), nnName = specProviderConfigRef (bSpec b)\<rparr>"] assms
    by (auto simp: ResolveBucket_def)
  then show ?thesis
    by (simp add: resolveBucketClient_def withOwnCache_def run_getCache run_setCache simResolver_def)
qed

lemma withFinalizer_fresh: "withFinalizers freshBucket [bucketFinalizer] = sampleBucket"
  by (simp add: withFinalizers_def freshBucket_def sampleBucket_def sampleMeta_def)

text \<open>The first reconciliation claims the missing bucket.\<close>

lemma sim_claim:
  assumes "w = sampleWorld False freshBucket []"
  shows "\<exists>t. run_state (Reconcile 0 simEnv None sampleReq) (sampleState w) = (Some None, t) \<and>
    stWorld t = sampleWorld False sampleBucket [] \<and> list_all notCreate (stTrace t)"
proof -
  let ?s = "(sampleState w)\<lparr>stTrace := [GetBucketEv sampleReq (Inr freshBucket)]\<rparr>"
  have fresh: "\<not> deleting freshBucket" "\<not> hasFinalizer simLib freshBucket" "Finalizers (bMeta freshBucket) = []"
    by (simp_all add: freshBucket_def sampleMeta_def IsZeroTime_def hasFinalizer_def simLib_def)
  obtain res t1 where t1: "run_state (resolveBucketClient simEnv None freshBucket) ?s = (Inr res, t1)" "stWorld t1 = w"
    using sim_resolve_own [of ?s freshBucket] assms by auto
  obtain ob t2 where t2: "run_state (observe simEnv (rcOBS res) freshBucket) t1 = (Inr ob, t2)" "\<not> obExists ob" "stWorld t2 = w"
    using t1(2) assms by (simp add: observe_def simRun isBucketNotFound_def)
  obtain t where t: "run_state (reconcileClaim simEnv freshBucket res ob) t2 = (Some None, t)" "stWorld t = w\<lparr>simBucket := sampleBucket\<rparr>"
    using t2(2,3) fresh(3) withFinalizer_fresh
    by (simp add: reconcileClaim_def patchFinalizer_def simRun withFinalizers_def)
  have "run_state (Reconcile 0 simEnv None sampleReq) (sampleState w) = (Some None, t)"
    using t1(1) t2(1) t(1) fresh assms by (simp add: Reconcile_def run_call simK8s_def reconcileBody_def sampleState_def)
  moreover have "list_all notCreate (stTrace t)"
    using emitsD [OF notCreate_others(4) t1(1)] emitsD [OF notCreate_others(1) t2(1)] emitsD [OF notCreate_claim t(1)]
    by (auto simp: notCreate_def)
  ultimately show ?thesis using t(2) assms by (simp add: sampleWorld_def)
qed

text \<open>The second finds it, whoever has created it.\<close>

lemma sim_adopt:
  assumes "stWorld s = sampleWorld True sampleBucket []"
  shows "\<exists>t evs e. run_state (Reconcile 0 simEnv None sampleReq) s = (Some None, t) \<and>
    stTrace t = stTrace s @ evs @ [e] \<and> readyEv simLib sampleBucket e \<and> list_all notCreate (evs @ [e]) \<and>
    simExists (stWorld t) \<and> simVisible (stWorld t)"
proof -
  let ?w = "sampleWorld True sampleBucket []"
  let ?s = "s\<lparr>stWorld := ?w, stTrace := stTrace s @ [GetBucketEv sampleReq (Inr sampleBucket)]\<rparr>"
  obtain res t1 where t1: "run_state (resolveBucketClient simEnv None sampleBucket) ?s = (Inr res, t1)" "stWorld t1 = ?w"
    using sim_resolve_own [of ?s sampleBucket] by auto
  obtain ob t2 where t2: "run_state (observe simEnv (rcOBS res) sampleBucket) t1 = (Inr ob, t2)" "obExists ob"
    "simView (stWorld t2) = sampleView" "simExists (stWorld t2)" "simVisible (stWorld t2)"
    using t1(2) by (simp add: observe_def simRun)
  obtain t3 where t3: "run_state (update simEnv (rcOBS res) sampleBucket) t2 = (None, t3)"
    "simExists (stWorld t3)" "simVisible (stWorld t3)"
    using sim_update [OF t2(3)] t2(4,5) by blast
  obtain ob2 t4 where t4: "run_state (observe simEnv (rcOBS res) sampleBucket) t3 = (Inr ob2, t4)"
    "stWorld t4 = stWorld t3"
    using t3(2,3) by (simp add: observe_def simRun)
  obtain t e where t: "run_state (patchStatus simEnv sampleBucket (Some res) None (obMetadata ob2)) t4 = (None, t)"
    "stTrace t = stTrace t4 @ [e]" "readyEv simLib sampleBucket e" "simExists (stWorld t)" "simVisible (stWorld t)"
    using sim_patchStatus_ready t3(2,3) t4(2) by metis
  have own: "run_state (reconcileOwned simEnv sampleBucket res ob) t2 = (Some None, t)"
    using t2(2) t3(1) t4(1) t(1) by (simp add: reconcileOwned_def reconcileUpdate_def finish_def)
  have "run_state (Reconcile 0 simEnv None sampleReq) s = (Some None, t)"
    using t1(1) t2(1) own sampleBucket_facts assms
    by (simp add: Reconcile_def run_call simK8s_def reconcileBody_def)
  moreover obtain e1 e2 e3 where evs: "stTrace t1 = stTrace ?s @ e1" "list_all notCreate e1"
    "stTrace t2 = stTrace t1 @ e2" "list_all notCreate e2" "stTrace t = stTrace t2 @ e3" "list_all notCreate e3"
    using emitsD [OF notCreate_others(4) t1(1)] emitsD [OF notCreate_others(1) t2(1)]
      emitsD [OF notCreate_owned [OF t2(2)] own] by blast
  moreover obtain e4 where "stTrace t4 = stTrace t2 @ e4"
    using emitsD [OF notCreate_update t3(1)] emitsD [OF notCreate_others(1) t4(1)] by auto
  ultimately have "stTrace t = stTrace s @ (GetBucketEv sampleReq (Inr sampleBucket) # e1 @ e2 @ e4) @ [e]"
    "e3 = e4 @ [e]" using t(2) by auto
  with evs t(3-5) \<open>run_state (Reconcile 0 simEnv None sampleReq) s = (Some None, t)\<close> show ?thesis
    by (intro exI [of _ t] exI [of _ "GetBucketEv sampleReq (Inr sampleBucket) # e1 @ e2 @ e4"] exI [of _ e])
       (simp add: notCreate_def)
qed

text \<open>
  A bucket that somebody else creates after a Bucket has claimed the missing bucket and before it
  has created it is adopted: the first reconciliation adds the finalizer, then the bucket appears, and
  the next reconciliation reports the Bucket ready, although no create request was ever sent.
\<close>

lemma created_after_claim_adopted:
  "\<exists>t u e. run_state (Reconcile 0 simEnv None sampleReq) (sampleState (sampleWorld False freshBucket [])) = (Some None, t) \<and>
     simBucket (stWorld t) = sampleBucket \<and> \<not> simExists (stWorld t) \<and>
     run_state (Reconcile 0 simEnv None sampleReq) (t\<lparr>stWorld := (stWorld t)\<lparr>simExists := True\<rparr>\<rparr>) = (Some None, u) \<and>
     e \<in> set (stTrace u) \<and> readyEv simLib sampleBucket e \<and>
     (\<forall>c i x. ObsEv c (RCreateBucket i) x \<notin> set (stTrace u))"
proof -
  obtain t where t: "run_state (Reconcile 0 simEnv None sampleReq) (sampleState (sampleWorld False freshBucket [])) = (Some None, t)"
    "stWorld t = sampleWorld False sampleBucket []" "list_all notCreate (stTrace t)"
    using sim_claim by blast
  let ?s = "t\<lparr>stWorld := (stWorld t)\<lparr>simExists := True\<rparr>\<rparr>"
  have "stWorld ?s = sampleWorld True sampleBucket []" using t(2) by (simp add: sampleWorld_def)
  from sim_adopt [OF this] obtain u evs e where u: "run_state (Reconcile 0 simEnv None sampleReq) ?s = (Some None, u)"
    "stTrace u = stTrace ?s @ evs @ [e]" "readyEv simLib sampleBucket e" "list_all notCreate (evs @ [e])" by blast
  have "\<forall>c i x. ObsEv c (RCreateBucket i) x \<notin> set (stTrace u)"
    using u(2,4) t(3) by (auto simp: list_all_iff notCreate_def)
  with t u show ?thesis
    by (intro exI [of _ t] exI [of _ u] exI [of _ e]) simp
qed

end
