(* ===== verification/Ownership.thy ===== *)
theory Ownership
  imports Adoption
begin

text \<open>
  What the finalizer is for: an OBS bucket of the operator is never left behind. \<open>tracked\<close> says of a
  world that the Bucket resource carries the finalizer, \<open>present\<close> that its OBS bucket exists;
  \<open>ownershipLaws\<close> is what the API server and OBS document about the two. Both services may fail at
  any call, also after they have done what was asked.
\<close>

section \<open>Properties of the world that calls keep\<close>

definition keepsWorld :: "('w \<Rightarrow> bool) \<Rightarrow> ('w \<Rightarrow> 'a \<times> 'w) \<Rightarrow> bool" where
  "keepsWorld P f \<longleftrightarrow> (\<forall>w. P w \<longrightarrow> P (snd (f w)))"

text \<open>The calls that neither write a Bucket resource nor create or delete an OBS bucket.\<close>

definition settingCallsKeep :: "('c, 'w) env \<Rightarrow> ('w \<Rightarrow> bool) \<Rightarrow> bool" where
  "settingCallsKeep E P \<longleftrightarrow> (\<forall>c nm.
     keepsWorld P (apiGetBucketStoragePolicy (obs E) c nm) \<and> (\<forall>x. keepsWorld P (apiSetBucketStoragePolicy (obs E) c nm x)) \<and>
     keepsWorld P (apiGetBucketAcl (obs E) c nm) \<and> (\<forall>x. keepsWorld P (apiSetBucketAcl (obs E) c nm x)) \<and>
     keepsWorld P (apiGetBucketVersioning (obs E) c nm) \<and> (\<forall>x. keepsWorld P (apiSetBucketVersioning (obs E) c nm x)) \<and>
     keepsWorld P (apiGetBucketTagging (obs E) c nm) \<and> (\<forall>x. keepsWorld P (apiSetBucketTagging (obs E) c nm x)) \<and>
     keepsWorld P (apiDeleteBucketTagging (obs E) c nm) \<and>
     keepsWorld P (apiGetBucketLogging (obs E) c nm) \<and> (\<forall>i. keepsWorld P (apiSetBucketLogging (obs E) c i)) \<and>
     keepsWorld P (apiGetBucketEncryption (obs E) c nm) \<and> (\<forall>x. keepsWorld P (apiSetBucketEncryption (obs E) c nm x)) \<and>
     keepsWorld P (apiDeleteBucketEncryption (obs E) c nm))"

definition callsKeep :: "('c, 'w) env \<Rightarrow> ('w \<Rightarrow> bool) \<Rightarrow> bool" where
  "callsKeep E P \<longleftrightarrow> settingCallsKeep E P \<and>
     (\<forall>k. keepsWorld P (apiGetBucket (k8s E) k) \<and> keepsWorld P (apiGetProviderConfig (k8s E) k) \<and>
        keepsWorld P (apiGetSecret (k8s E) k)) \<and>
     keepsWorld P (apiNow (k8s E)) \<and> keepsWorld P (apiCtxErr (k8s E)) \<and>
     (\<forall>a s ep os. keepsWorld P (apiNew (obs E) a s ep os)) \<and> (\<forall>c w. P w \<longrightarrow> P (apiClose (obs E) c w)) \<and>
     (\<forall>c nm. keepsWorld P (apiGetBucketMetadata (obs E) c nm) \<and> keepsWorld P (apiListVersions (obs E) c nm) \<and>
        (\<forall>os. keepsWorld P (apiDeleteObjects (obs E) c nm os)))"

definition factoryKeeps :: "('c, 'w) ProviderResolver option \<Rightarrow> ('w \<Rightarrow> bool) \<Rightarrow> bool" where
  "factoryKeeps R P \<longleftrightarrow> (\<forall>r cr ep rg. R = Some r \<longrightarrow> keepsWorld P (prNewOBSClient r cr ep rg))"

text \<open>The cache of the process closes clients the way \<open>NewCache\<close> makes it.\<close>

definition closesBy :: "('c, 'w) env \<Rightarrow> ('c, 'w) st \<Rightarrow> bool" where
  "closesBy E s \<longleftrightarrow> (\<forall>cache. stCache s = Some cache \<longrightarrow> cacheCloseClient cache = Some (closeOBSClient E))"

definition worldInv :: "('c, 'w) env \<Rightarrow> ('w \<Rightarrow> bool) \<Rightarrow> ('c, 'w) st \<Rightarrow> bool" where
  "worldInv E P s \<longleftrightarrow> P (stWorld s) \<and> closesBy E s"

lemma keeps_world_call: "keepsWorld P f \<Longrightarrow> program_keeps (worldInv E P) (call f ev)"
  by (auto simp: program_keeps_def worldInv_def closesBy_def keepsWorld_def run_call split: prod.splits)

lemma keeps_world_obsCall: "keepsWorld P f \<Longrightarrow> program_keeps (worldInv E P) (obsCall c q f)"
  by (simp add: obsCall_def keeps_world_call)

lemma keeps_world_quiet: "keepsWorld P f \<Longrightarrow> program_keeps (worldInv E P) (quiet f)"
  by (auto simp: program_keeps_def worldInv_def closesBy_def keepsWorld_def run_quiet split: prod.splits)

lemmas keeps_world = keeps_world_call keeps_world_obsCall keeps_world_quiet

section \<open>The programs of a reconciliation keep what their calls keep\<close>

lemma keeps_closeClients:
  assumes "callsKeep E P" "cacheCloseClient cache = Some (closeOBSClient E)"
  shows "program_keeps (worldInv E P) (closeClients E cache cs)"
proof (induction cs)
  case (Cons c cs)
  have "keepsWorld P (\<lambda>w. ((), closeOBSClient E x w))" for x
    using assms(1) by (simp add: keepsWorld_def callsKeep_def closeOBSClient_def)
  with Cons assms(2) show ?case
    by (auto intro!: keeps_bind keeps_case_option keeps_return keeps_world_call)
qed (simp add: keeps_return)

lemma keeps_cacheGet: "program_keeps (worldInv E P) (cacheGet key)"
  by (simp add: program_keeps_def cacheGet_def run_getCache)

lemma setLocked_closer: "setLocked cache key c = (cache', x, cl) \<Longrightarrow> cacheCloseClient cache' = cacheCloseClient cache"
  by (auto simp: setLocked_def Let_def split: option.splits if_splits)

lemma keeps_cacheSet:
  assumes "callsKeep E P"
  shows "program_keeps (worldInv E P) (cacheSet E key c)"
  unfolding program_keeps_def
proof (intro allI impI)
  fix s assume s: "worldInv E P s"
  show "worldInv E P (snd (run_state (cacheSet E key c) s))"
  proof (cases "stCache s")
    case None
    with s show ?thesis by (simp add: cacheSet_def run_getCache)
  next
    case (Some cache)
    obtain cache' x cl where l: "setLocked cache key c = (cache', x, cl)" by (metis prod_cases3)
    have c': "cacheCloseClient cache' = Some (closeOBSClient E)"
      using s Some setLocked_closer [OF l] by (simp add: worldInv_def closesBy_def)
    with s have "worldInv E P (s\<lparr>stCache := Some cache'\<rparr>)" by (simp add: worldInv_def closesBy_def)
    with keeps_closeClients [OF assms c'] show ?thesis
      using Some l by (simp add: cacheSet_def run_getCache run_setCache program_keeps_def split: prod.splits)
        (metis snd_conv)
  qed
qed

lemma keeps_withOwnCache:
  assumes "program_keeps (worldInv E P) m"
  shows "program_keeps (worldInv E P) (withOwnCache E m)"
  unfolding program_keeps_def
proof (intro allI impI)
  fix s assume s: "worldInv E P s"
  obtain x t where t: "run_state m (s\<lparr>stCache := Some (NewCache E)\<rparr>) = (x, t)" by fastforce
  have "worldInv E P (s\<lparr>stCache := Some (NewCache E)\<rparr>)" using s by (simp add: worldInv_def closesBy_def NewCache_def)
  from keeps_run [OF assms this t] have "P (stWorld t)" by (simp add: worldInv_def)
  with s t show "worldInv E P (snd (run_state (withOwnCache E m) s))"
    by (simp add: withOwnCache_def run_getCache run_setCache worldInv_def closesBy_def)
qed

lemma keeps_ResolveBucket:
  assumes "callsKeep E P" "\<forall>cr ep rg. keepsWorld P (prNewOBSClient R cr ep rg)"
  shows "program_keeps (worldInv E P) (ResolveBucket E R b)"
  unfolding ResolveBucket_def ResolveProviderConfig_def ResolveProviderConfigObject_def resolveClient_def Let_def
  by (intro keeps_bind keeps_world keeps_case_sum keeps_case_option keeps_if keeps_return keeps_cacheGet keeps_cacheSet)
     (use assms in \<open>auto simp: callsKeep_def\<close>)

lemma keeps_resolve:
  assumes "callsKeep E P" "factoryKeeps R P"
  shows "program_keeps (worldInv E P) (resolveBucketClient E R b)"
proof (cases R)
  case None
  have "\<forall>cr ep rg. keepsWorld P (prNewOBSClient (NewProviderResolver E []) cr ep rg)"
    using assms(1) by (simp add: NewProviderResolver_def newOBSClient_def callsKeep_def)
  with None show ?thesis
    by (simp add: resolveBucketClient_def keeps_withOwnCache keeps_ResolveBucket assms(1))
next
  case (Some r)
  with assms show ?thesis by (simp add: resolveBucketClient_def keeps_ResolveBucket factoryKeeps_def)
qed

lemma keeps_observe: "callsKeep E P \<Longrightarrow> program_keeps (worldInv E P) (observe E c b)"
  unfolding observe_def
  by (intro keeps_bind keeps_world keeps_case_sum keeps_if keeps_return) (simp add: callsKeep_def)

lemma keeps_runSteps: "(\<And>m. m \<in> set ms \<Longrightarrow> program_keeps I m) \<Longrightarrow> program_keeps I (runSteps ms)"
  by (induction ms) (auto intro!: keeps_bind keeps_return keeps_case_option)

lemma callsKeep_settings:
  assumes "callsKeep E P"
  shows "keepsWorld P (apiGetBucketStoragePolicy (obs E) c nm)" "keepsWorld P (apiSetBucketStoragePolicy (obs E) c nm x)"
    "keepsWorld P (apiGetBucketAcl (obs E) c nm)" "keepsWorld P (apiSetBucketAcl (obs E) c nm x)"
    "keepsWorld P (apiGetBucketVersioning (obs E) c nm)" "keepsWorld P (apiSetBucketVersioning (obs E) c nm x)"
    "keepsWorld P (apiGetBucketTagging (obs E) c nm)" "keepsWorld P (apiSetBucketTagging (obs E) c nm ts)"
    "keepsWorld P (apiDeleteBucketTagging (obs E) c nm)"
    "keepsWorld P (apiGetBucketLogging (obs E) c nm)" "keepsWorld P (apiSetBucketLogging (obs E) c i)"
    "keepsWorld P (apiGetBucketEncryption (obs E) c nm)" "keepsWorld P (apiSetBucketEncryption (obs E) c nm e)"
    "keepsWorld P (apiDeleteBucketEncryption (obs E) c nm)"
  using assms by (simp_all add: callsKeep_def settingCallsKeep_def)

lemma keeps_update:
  assumes "callsKeep E P"
  shows "program_keeps (worldInv E P) (update E c b)"
proof -
  have "program_keeps (worldInv E P) (reconcileBucketStorageClass E c b)" "program_keeps (worldInv E P) (reconcileBucketACL E c b)"
    "program_keeps (worldInv E P) (reconcileBucketVersioning E c b)" "program_keeps (worldInv E P) (reconcileBucketTags E c b)"
    "program_keeps (worldInv E P) (reconcileBucketLogging E c b)" "program_keeps (worldInv E P) (reconcileBucketEncryption E c b)"
    unfolding stepDefs Let_def by (intro keeps_intros keeps_world callsKeep_settings assms)+
  then show ?thesis unfolding update_def updateSteps_def by (intro keeps_runSteps) auto
qed

lemma keeps_deleteAll:
  assumes "callsKeep E P"
  shows "program_keeps (worldInv E P) (deleteAllBucketObjects n E c nm)"
proof (induction n)
  case (Suc n)
  show ?case unfolding deleteAllBucketObjects.simps Let_def
    by (intro keeps_bind keeps_world keeps_case_sum keeps_case_option keeps_if keeps_return Suc)
       (use assms in \<open>simp_all add: callsKeep_def\<close>)
qed (simp add: keeps_return)

lemma keeps_delete:
  assumes "callsKeep E P" "keepsWorld P (apiDeleteBucket (obs E) c (bucketName b))"
  shows "program_keeps (worldInv E P) (BucketLifecycle.delete n E c b)"
  unfolding BucketLifecycle.delete_def Let_def
  by (intro keeps_bind keeps_world keeps_case_sum keeps_case_option keeps_if keeps_return keeps_deleteAll assms)

lemma keeps_updateStatus:
  assumes "callsKeep E P" "\<And>b m. keepsWorld P (apiPatchBucketStatus (k8s E) b m)"
  shows "program_keeps (worldInv E P) (updateBucketStatus E b resolved cond md)"
  unfolding updateBucketStatus_def Let_def
  by (intro keeps_bind keeps_world keeps_if keeps_return assms) (use assms(1) in \<open>simp_all add: callsKeep_def\<close>)

lemma keeps_status:
  assumes "callsKeep E P" "\<And>b m. keepsWorld P (apiPatchBucketStatus (k8s E) b m)"
  shows "program_keeps (worldInv E P) (patchStatus E b resolved err md)"
  unfolding patchStatus_def Let_def
  by (intro keeps_bind keeps_updateStatus keeps_case_option keeps_if keeps_return assms)


section \<open>The laws\<close>

text \<open>
  What is documented of the services about one Bucket and its OBS bucket: a read of the Bucket
  returns it as it is; a patch of the status leaves the finalizers; an OBS bucket that is reported
  missing is missing and one that is deleted is gone; a create request is refused with a conflict
  only when the bucket exists, and the SDK does not return the controller's own error value. Nobody
  but this Bucket creates the OBS bucket or takes the finalizer away. A request that fails may have
  been carried out.
\<close>

definition bucketReadLaw :: "('c, 'w) env \<Rightarrow> NamespacedName \<Rightarrow> ('w \<Rightarrow> bool) \<Rightarrow> bool" where
  "bucketReadLaw E req tracked \<longleftrightarrow> (\<forall>w b w'. apiGetBucket (k8s E) req w = (Inr b, w') \<longrightarrow>
     bucketName b = nnName req \<and> (hasFinalizer (lib E) b \<longrightarrow> tracked w'))"

definition missingLaw :: "('c, 'w) env \<Rightarrow> string \<Rightarrow> ('w \<Rightarrow> bool) \<Rightarrow> bool" where
  "missingLaw E nm present \<longleftrightarrow> (\<forall>c w e w'. apiGetBucketMetadata (obs E) c nm w = (Inl e, w') \<longrightarrow>
     isBucketNotFound e \<longrightarrow> \<not> present w')"

definition conflictLaw :: "('c, 'w) env \<Rightarrow> ('w \<Rightarrow> bool) \<Rightarrow> bool" where
  "conflictLaw E present \<longleftrightarrow> (\<forall>c i w e w'. apiCreateBucket (obs E) c i w = (Inl e, w') \<longrightarrow> \<not> present w \<longrightarrow>
     \<not> isCreateBucketConflict e \<and> \<not> errorsIs e ErrBucketAlreadyExists)"

definition goneLaw :: "('c, 'w) env \<Rightarrow> string \<Rightarrow> ('w \<Rightarrow> bool) \<Rightarrow> bool" where
  "goneLaw E nm present \<longleftrightarrow> (\<forall>c w r w'. apiDeleteBucket (obs E) c nm w = (r, w') \<longrightarrow>
     (\<forall>e. r = Inl e \<longrightarrow> isBucketNotFound e) \<longrightarrow> \<not> present w')"

definition ownershipLaws :: "('c, 'w) env \<Rightarrow> NamespacedName \<Rightarrow> ('w \<Rightarrow> bool) \<Rightarrow> ('w \<Rightarrow> bool) \<Rightarrow> bool" where
  "ownershipLaws E req tracked present \<longleftrightarrow>
     callsKeep E tracked \<and> callsKeep E (\<lambda>w. \<not> present w) \<and>
     (\<forall>b m. keepsWorld tracked (apiPatchBucketStatus (k8s E) b m) \<and>
        keepsWorld (\<lambda>w. \<not> present w) (apiPatchBucketStatus (k8s E) b m) \<and>
        keepsWorld (\<lambda>w. \<not> present w) (apiPatchBucket (k8s E) b m)) \<and>
     (\<forall>c i. keepsWorld tracked (apiCreateBucket (obs E) c i)) \<and>
     (\<forall>c nm. keepsWorld tracked (apiDeleteBucket (obs E) c nm) \<and>
        keepsWorld (\<lambda>w. \<not> present w) (apiDeleteBucket (obs E) c nm)) \<and>
     bucketReadLaw E req tracked \<and> missingLaw E (nnName req) present \<and> conflictLaw E present \<and>
     goneLaw E (nnName req) present"

lemma ownershipLawsD:
  assumes "ownershipLaws E req tracked present"
  shows "callsKeep E tracked" "callsKeep E (\<lambda>w. \<not> present w)"
    "keepsWorld tracked (apiPatchBucketStatus (k8s E) b m)"
    "keepsWorld (\<lambda>w. \<not> present w) (apiPatchBucketStatus (k8s E) b m)"
    "keepsWorld (\<lambda>w. \<not> present w) (apiPatchBucket (k8s E) b m)"
    "keepsWorld tracked (apiCreateBucket (obs E) c i)"
    "keepsWorld tracked (apiDeleteBucket (obs E) c nm)" "keepsWorld (\<lambda>w. \<not> present w) (apiDeleteBucket (obs E) c nm)"
    "bucketReadLaw E req tracked" "missingLaw E (nnName req) present" "conflictLaw E present" "goneLaw E (nnName req) present"
  using assms by (simp_all add: ownershipLaws_def)

text \<open>
  The assertion the proof carries along: the Bucket is known to have the finalizer (\<open>a\<close>), the OBS
  bucket is known to be missing (\<open>b\<close>), and an OBS bucket that exists is tracked.
\<close>

definition owns :: "('w \<Rightarrow> bool) \<Rightarrow> ('w \<Rightarrow> bool) \<Rightarrow> bool \<Rightarrow> bool \<Rightarrow> 'w \<Rightarrow> bool" where
  "owns tracked present a b w \<longleftrightarrow> (a \<longrightarrow> tracked w) \<and> (b \<longrightarrow> \<not> present w) \<and> (present w \<longrightarrow> tracked w)"

lemma owns_mono: "owns T Q a b w \<Longrightarrow> (a' \<Longrightarrow> a) \<Longrightarrow> (b' \<Longrightarrow> b) \<Longrightarrow> owns T Q a' b' w"
  by (auto simp: owns_def)

lemma keepsWorld_owns:
  "keepsWorld T f \<Longrightarrow> keepsWorld (\<lambda>w. \<not> Q w) f \<Longrightarrow> keepsWorld (owns T Q a b) f"
  unfolding keepsWorld_def owns_def by blast

lemma callsKeep_owns:
  assumes "callsKeep E T" "callsKeep E (\<lambda>w. \<not> Q w)"
  shows "callsKeep E (owns T Q a b)"
proof -
  have "\<forall>c w. owns T Q a b w \<longrightarrow> owns T Q a b (apiClose (obs E) c w)"
    using assms unfolding callsKeep_def owns_def by metis
  with assms show ?thesis
    unfolding callsKeep_def settingCallsKeep_def by (simp add: keepsWorld_owns)
qed

lemma wp_keeps: "program_keeps I m \<Longrightarrow> I s \<Longrightarrow> wp m (\<lambda>_. I) s"
  by (auto simp: wp_def program_keeps_def split: prod.splits)

lemma wp_step: "wp m P s \<Longrightarrow> (\<And>x t. P x t \<Longrightarrow> wp (k x) Q t) \<Longrightarrow> wp (State_Monad.bind m k) Q s"
  by (auto simp: wp_bind intro: wp_mono)

section \<open>A reconciliation keeps the OBS bucket tracked\<close>

abbreviation ownsIn :: "('c, 'w) env \<Rightarrow> ('w \<Rightarrow> bool) \<Rightarrow> ('w \<Rightarrow> bool) \<Rightarrow> bool \<Rightarrow> bool \<Rightarrow> ('c, 'w) st \<Rightarrow> bool" where
  "ownsIn E T Q a b \<equiv> worldInv E (owns T Q a b)"

lemma ownsIn_mono: "ownsIn E T Q a b s \<Longrightarrow> (a' \<Longrightarrow> a) \<Longrightarrow> (b' \<Longrightarrow> b) \<Longrightarrow> ownsIn E T Q a' b' s"
  by (auto simp: worldInv_def intro: owns_mono)

lemma owns_call:
  assumes "\<And>r w'. f (stWorld s) = (r, w') \<Longrightarrow> owns T Q a b w' \<and> G r" "closesBy E s"
  shows "wp (call f ev) (\<lambda>r t. ownsIn E T Q a b t \<and> G r) s"
  using assms by (auto simp: wp_def run_call worldInv_def closesBy_def split: prod.splits)

lemma owns_status_keep:
  assumes "ownershipLaws E req T Q" "ownsIn E T Q a b s"
  shows "wp (finish (patchStatus E bkt resolved err md)) (\<lambda>_. ownsIn E T Q a b) s"
    "wp (finish (updateBucketStatus E bkt resolved cond md)) (\<lambda>_. ownsIn E T Q a b) s"
proof -
  note laws = ownershipLawsD [OF assms(1)]
  show "wp (finish (patchStatus E bkt resolved err md)) (\<lambda>_. ownsIn E T Q a b) s"
    "wp (finish (updateBucketStatus E bkt resolved cond md)) (\<lambda>_. ownsIn E T Q a b) s"
    by (intro wp_keeps keeps_finish keeps_status keeps_updateStatus callsKeep_owns keepsWorld_owns laws assms(2))+
qed

lemma owns_status:
  assumes "ownershipLaws E req T Q" "ownsIn E T Q a b s"
  shows "wp (finish (patchStatus E bkt resolved err md)) (\<lambda>_. ownsIn E T Q False False) s"
    "wp (finish (updateBucketStatus E bkt resolved cond md)) (\<lambda>_. ownsIn E T Q False False) s"
  using assms(2) by (auto intro!: owns_status_keep [OF assms(1)] ownsIn_mono [of _ _ _ a b])

lemma owns_observe:
  assumes "ownershipLaws E req T Q" "bucketName bkt = nnName req" "ownsIn E T Q a False s"
  shows "wp (observe E c bkt) (\<lambda>r t. ownsIn E T Q a (\<exists>ob. r = Inr ob \<and> \<not> obExists ob) t) s"
proof -
  note laws = ownershipLawsD [OF assms(1)]
  have k: "program_keeps (ownsIn E T Q a False) (observe E c bkt)"
    by (intro keeps_observe callsKeep_owns laws)
  have "\<not> Q (stWorld t)" if run: "run_state (observe E c bkt) s = (Inr ob, t)" "\<not> obExists ob" for ob t
    using run laws(10) assms(2)
    by (auto simp: missingLaw_def observe_def run_obsCall split: prod.splits sum.splits if_splits)
  with wp_keeps [OF k assms(3)] show ?thesis
    by (auto simp: wp_def worldInv_def owns_def split: prod.splits)
qed

lemma owns_finalizer:
  assumes "ownershipLaws E req T Q" "ownsIn E T Q a True s"
  shows "wp (patchFinalizer E bkt f) (\<lambda>_. ownsIn E T Q False True) s"
proof -
  have "keepsWorld (owns T Q False True) (apiPatchBucket (k8s E) bkt m)" for m
    using ownershipLawsD(5) [OF assms(1)] by (auto simp: keepsWorld_def owns_def)
  then have "program_keeps (ownsIn E T Q False True) (patchFinalizer E bkt f)"
    unfolding patchFinalizer_def Let_def
    by (intro keeps_bind keeps_world keeps_case_sum keeps_return) simp
  from wp_keeps [OF this ownsIn_mono [OF assms(2)]] show ?thesis by simp
qed


lemma owns_create:
  assumes "ownershipLaws E req T Q" "ownsIn E T Q True True s"
  shows "wp (create E c bkt region)
    (\<lambda>r t. ownsIn E T Q True False t \<and> (\<forall>e. r = Some e \<longrightarrow> \<not> errorsIs e ErrBucketAlreadyExists)) s"
proof (rule wpI)
  fix r t
  assume run: "run_state (create E c bkt region) s = (r, t)"
  note laws = ownershipLawsD [OF assms(1)]
  have s: "T (stWorld s)" "\<not> Q (stWorld s)" "closesBy E s" using assms(2) by (auto simp: worldInv_def owns_def)
  obtain x w where x: "apiCreateBucket (obs E) c (createInput (sdk E) bkt region) (stWorld s) = (x, w)" by fastforce
  have "T w" using laws(6) s(1) x by (metis keepsWorld_def snd_conv)
  moreover have "\<not> errorsIs e ErrBucketAlreadyExists \<and> \<not> isCreateBucketConflict e" if "x = Inl e" for e
    using laws(11) s(2) x that unfolding conflictLaw_def by metis
  ultimately show "ownsIn E T Q True False t \<and> (\<forall>e. r = Some e \<longrightarrow> \<not> errorsIs e ErrBucketAlreadyExists)"
    using run x s(3)
    by (cases x) (auto simp: create_def Let_def run_obsCall worldInv_def owns_def closesBy_def wrapf_def)
qed

lemma owns_delete:
  assumes "ownershipLaws E req T Q" "bucketName bkt = nnName req" "ownsIn E T Q True False s"
  shows "wp (BucketLifecycle.delete n E c bkt) (\<lambda>r t. ownsIn E T Q True (r = Some None) t) s"
proof (rule wpI)
  fix r t
  assume run: "run_state (BucketLifecycle.delete n E c bkt) s = (r, t)"
  note laws = ownershipLawsD [OF assms(1)]
  have k: "program_keeps (ownsIn E T Q True False) (BucketLifecycle.delete n E c bkt)"
    by (intro keeps_delete callsKeep_owns keepsWorld_owns laws)
  have gone: "apiDeleteBucket (obs E) c (bucketName bkt) w = (Inr x, w') \<Longrightarrow> \<not> Q w'"
    "apiDeleteBucket (obs E) c (bucketName bkt) w = (Inl e, w') \<Longrightarrow> isBucketNotFound e \<Longrightarrow> \<not> Q w'" for w w' x e
    using laws(12) unfolding goneLaw_def assms(2) by blast+
  have "\<not> Q (stWorld t)" if "r = Some None"
    using run that gone
    by (auto simp: BucketLifecycle.delete_def Let_def run_obsCall split: prod.splits sum.splits if_splits option.splits)
  with keeps_run [OF k assms(3) run] show "ownsIn E T Q True (r = Some None) t"
    by (auto simp: worldInv_def owns_def)
qed

lemma owns_deletion:
  assumes "ownershipLaws E req T Q" "bucketName bkt = nnName req" "ownsIn E T Q True (\<not> obExists ob) s"
  shows "wp (reconcileDeletion n E bkt resolved ob) (\<lambda>_. ownsIn E T Q False False) s"
  unfolding reconcileDeletion_def
proof (rule wp_step)
  show "wp (if obExists ob then BucketLifecycle.delete n E (rcOBS resolved) bkt else ret (Some None))
      (\<lambda>r t. ownsIn E T Q True (r = Some None) t) s"
    using assms by (auto intro: owns_delete simp: wp_return)
next
  fix d :: "error option option" and t
  assume t: "ownsIn E T Q True (d = Some None) t"
  have "wp (State_Monad.bind (patchFinalizer E bkt f) (\<lambda>(_, e). ret (Some e))) (\<lambda>_. ownsIn E T Q False False) t"
    if "d = Some None" for f
    by (rule wp_step [OF owns_finalizer [OF assms(1)]], use t that in simp)
       (auto simp: wp_return intro: ownsIn_mono)
  moreover have "ownsIn E T Q False False t" using t by (rule ownsIn_mono) simp_all
  ultimately show "wp (case d of
       None \<Rightarrow> ret None
     | Some (Some err) \<Rightarrow>
         if isBucketNotEmpty err \<and> \<not> specForceDestroy (bSpec bkt)
         then finish (updateBucketStatus E bkt (Some resolved) (bucketReadyStatusCondition (lib E) bkt (Some err)) None)
         else finish (patchStatus E bkt (Some resolved) (Some err) None)
     | Some None \<Rightarrow> State_Monad.bind (patchFinalizer E bkt (\<lambda>fs. RemoveFinalizer (lib E) fs bucketFinalizer))
         (\<lambda>(_, e). ret (Some e))) (\<lambda>_. ownsIn E T Q False False) t"
    using owns_status [OF assms(1)] by (auto simp: wp_return split: option.splits)
qed

lemma owns_claim:
  assumes "ownershipLaws E req T Q" "ownsIn E T Q False (\<not> obExists ob) s"
  shows "wp (reconcileClaim E bkt resolved ob) (\<lambda>_. ownsIn E T Q False False) s"
proof -
  have "wp (State_Monad.bind (patchFinalizer E bkt f) (\<lambda>(_, e). ret (Some e))) (\<lambda>_. ownsIn E T Q False False) s"
    if "\<not> obExists ob" for f
    by (rule wp_step [OF owns_finalizer [OF assms(1)]], use assms(2) that in simp)
       (auto simp: wp_return intro: ownsIn_mono)
  with owns_status(1) [OF assms] show ?thesis by (simp add: reconcileClaim_def)
qed

lemma owns_reconcileUpdate:
  assumes "ownershipLaws E req T Q" "bucketName bkt = nnName req" "ownsIn E T Q True False s"
  shows "wp (reconcileUpdate E bkt resolved ob) (\<lambda>_. ownsIn E T Q True False) s"
  unfolding reconcileUpdate_def
proof (rule wp_step)
  note laws = ownershipLawsD [OF assms(1)]
  show "wp (update E (rcOBS resolved) bkt) (\<lambda>_. ownsIn E T Q True False) s"
    by (intro wp_keeps keeps_update callsKeep_owns laws assms(3))
next
  fix u t
  assume t: "ownsIn E T Q True False t"
  have "wp (State_Monad.bind (observe E (rcOBS resolved) bkt) (\<lambda>o2. case o2 of
        Inl err \<Rightarrow> finish (patchStatus E bkt (Some resolved) (Some err) None)
      | Inr ob2 \<Rightarrow> finish (patchStatus E bkt (Some resolved) None (obMetadata ob2)))) (\<lambda>_. ownsIn E T Q True False) t"
    by (rule wp_step [OF owns_observe [OF assms(1,2) t]]) (auto intro!: owns_status_keep [OF assms(1)] elim: ownsIn_mono split: sum.splits)
  then show "wp (case u of
       Some err \<Rightarrow> finish (patchStatus E bkt (Some resolved) (Some err) (obMetadata ob))
     | None \<Rightarrow> State_Monad.bind (observe E (rcOBS resolved) bkt) (\<lambda>o2. case o2 of
        Inl err \<Rightarrow> finish (patchStatus E bkt (Some resolved) (Some err) None)
      | Inr ob2 \<Rightarrow> finish (patchStatus E bkt (Some resolved) None (obMetadata ob2)))) (\<lambda>_. ownsIn E T Q True False) t"
    using owns_status_keep(1) [OF assms(1) t] by (simp split: option.splits)
qed

lemma owns_owned:
  assumes "ownershipLaws E req T Q" "bucketName bkt = nnName req" "ownsIn E T Q True (\<not> obExists ob) s"
  shows "wp (reconcileOwned E bkt resolved ob) (\<lambda>_. ownsIn E T Q True False) s"
proof (cases "obExists ob")
  case True
  with assms show ?thesis by (auto simp: reconcileOwned_def intro: owns_reconcileUpdate)
next
  case False
  have "wp (State_Monad.bind (create E (rcOBS resolved) bkt (rcRegion resolved)) (\<lambda>e. case e of
          Some err \<Rightarrow> reconcileCreateError E bkt resolved err
        | None \<Rightarrow> reconcileUpdate E bkt resolved ob)) (\<lambda>_. ownsIn E T Q True False) s"
  proof (rule wp_step [OF owns_create [OF assms(1)]])
    show "ownsIn E T Q True True s" using assms(3) False by simp
    fix e t
    assume t: "ownsIn E T Q True False t \<and> (\<forall>x. e = Some x \<longrightarrow> \<not> errorsIs x ErrBucketAlreadyExists)"
    then show "wp (case e of Some err \<Rightarrow> reconcileCreateError E bkt resolved err | None \<Rightarrow> reconcileUpdate E bkt resolved ob)
        (\<lambda>_. ownsIn E T Q True False) t"
      using owns_reconcileUpdate [OF assms(1,2)] owns_status_keep(1) [OF assms(1)]
      by (auto simp: reconcileCreateError_def split: option.splits)
  qed
  with False show ?thesis by (simp add: reconcileOwned_def)
qed

lemma owns_observed:
  assumes "ownershipLaws E req T Q" "bucketName b = nnName req" "ownsIn E T Q (hasFinalizer (lib E) b) (\<not> obExists ob) s"
    "deleting b \<longrightarrow> hasFinalizer (lib E) b"
  shows "wp (if deleting b then reconcileDeletion n E b resolved ob
      else if \<not> hasFinalizer (lib E) b then reconcileClaim E b resolved ob
      else reconcileOwned E b resolved ob) (\<lambda>_. ownsIn E T Q (hasFinalizer (lib E) b \<and> \<not> deleting b) False) s"
  using assms by (auto intro: owns_deletion owns_claim owns_owned)

lemma owns_body:
  assumes "ownershipLaws E req T Q" "factoryKeeps R T" "factoryKeeps R (\<lambda>w. \<not> Q w)"
    "bucketName b = nnName req" "ownsIn E T Q (hasFinalizer (lib E) b) False s"
  shows "wp (reconcileBody n E R b) (\<lambda>_. ownsIn E T Q (hasFinalizer (lib E) b \<and> \<not> deleting b) False) s"
proof (cases "deleting b \<and> \<not> hasFinalizer (lib E) b")
  case True
  with assms(5) show ?thesis by (auto simp: reconcileBody_def wp_return intro: ownsIn_mono)
next
  case False
  let ?I = "ownsIn E T Q (hasFinalizer (lib E) b) False"
  note laws = ownershipLawsD [OF assms(1)]
  have fac: "factoryKeeps R (owns T Q a a')" for a a'
    using assms(2,3) by (auto simp: factoryKeeps_def keepsWorld_owns)
  have status: "wp (finish (patchStatus E b resolved err md)) (\<lambda>_. ownsIn E T Q (hasFinalizer (lib E) b \<and> \<not> deleting b) False) t"
    if "ownsIn E T Q (hasFinalizer (lib E) b) a' t" for a' resolved err md t
    using that by (auto intro!: owns_status_keep [OF assms(1)] ownsIn_mono [of _ _ _ "hasFinalizer (lib E) b" a'])
  have observed: "wp (State_Monad.bind (observe E (rcOBS resolved) b) (\<lambda>o1. case o1 of
       Inl err \<Rightarrow> finish (patchStatus E b (Some resolved) (Some err) None)
     | Inr observation \<Rightarrow>
         if deleting b then reconcileDeletion n E b resolved observation
         else if \<not> hasFinalizer (lib E) b then reconcileClaim E b resolved observation
         else reconcileOwned E b resolved observation)) (\<lambda>_. ownsIn E T Q (hasFinalizer (lib E) b \<and> \<not> deleting b) False) t"
    if "?I t" for resolved t
  proof (rule wp_step [OF owns_observe [OF assms(1,4) that]])
    fix o1 :: "error + bucketObservation" and u
    assume u: "ownsIn E T Q (hasFinalizer (lib E) b) (\<exists>ob. o1 = Inr ob \<and> \<not> obExists ob) u"
    show "wp (case o1 of
       Inl err \<Rightarrow> finish (patchStatus E b (Some resolved) (Some err) None)
     | Inr observation \<Rightarrow>
         if deleting b then reconcileDeletion n E b resolved observation
         else if \<not> hasFinalizer (lib E) b then reconcileClaim E b resolved observation
         else reconcileOwned E b resolved observation) (\<lambda>_. ownsIn E T Q (hasFinalizer (lib E) b \<and> \<not> deleting b) False) u"
      using status [OF u] owns_observed [OF assms(1,4)] u False by (cases o1) auto
  qed
  have "wp (State_Monad.bind (resolveBucketClient E R b) (\<lambda>res. case res of
        Inl err \<Rightarrow> finish (patchStatus E b None (Some err) None)
      | Inr resolved \<Rightarrow> State_Monad.bind (observe E (rcOBS resolved) b) (\<lambda>o1. case o1 of
          Inl err \<Rightarrow> finish (patchStatus E b (Some resolved) (Some err) None)
        | Inr observation \<Rightarrow>
            if deleting b then reconcileDeletion n E b resolved observation
            else if \<not> hasFinalizer (lib E) b then reconcileClaim E b resolved observation
            else reconcileOwned E b resolved observation))) (\<lambda>_. ownsIn E T Q (hasFinalizer (lib E) b \<and> \<not> deleting b) False) s"
  proof (rule wp_step)
    show "wp (resolveBucketClient E R b) (\<lambda>_. ?I) s"
      by (intro wp_keeps keeps_resolve callsKeep_owns laws fac assms(5))
  qed (use observed status in \<open>simp split: sum.splits\<close>)
  then show ?thesis unfolding reconcileBody_def if_not_P [OF False] .
qed

lemma owns_Reconcile:
  assumes "ownershipLaws E req T Q" "factoryKeeps R T" "factoryKeeps R (\<lambda>w. \<not> Q w)" "ownsIn E T Q False False s"
  shows "wp (Reconcile n E R req) (\<lambda>_. ownsIn E T Q False False) s"
  unfolding Reconcile_def
proof (rule wp_step)
  note laws = ownershipLawsD [OF assms(1)]
  show "wp (call (apiGetBucket (k8s E) req) (GetBucketEv req)) (\<lambda>r t. ownsIn E T Q False False t \<and>
      (\<forall>b. r = Inr b \<longrightarrow> bucketName b = nnName req \<and> ownsIn E T Q (hasFinalizer (lib E) b) False t)) s"
  proof (rule wpI)
    fix r t
    assume run: "run_state (call (apiGetBucket (k8s E) req) (GetBucketEv req)) s = (r, t)"
    have "program_keeps (ownsIn E T Q False False) (call (apiGetBucket (k8s E) req) (GetBucketEv req))"
      by (intro keeps_world_call) (use callsKeep_owns [OF laws(1,2)] in \<open>simp add: callsKeep_def\<close>)
    from keeps_run [OF this assms(4) run] run laws(9)
    show "ownsIn E T Q False False t \<and>
        (\<forall>b. r = Inr b \<longrightarrow> bucketName b = nnName req \<and> ownsIn E T Q (hasFinalizer (lib E) b) False t)"
      by (auto simp: bucketReadLaw_def run_call worldInv_def owns_def split: prod.splits)
  qed
next
  fix r :: "error + Bucket" and t
  assume t: "ownsIn E T Q False False t \<and>
      (\<forall>b. r = Inr b \<longrightarrow> bucketName b = nnName req \<and> ownsIn E T Q (hasFinalizer (lib E) b) False t)"
  have "wp (reconcileBody n E R b) (\<lambda>_. ownsIn E T Q False False) t"
    if b: "bucketName b = nnName req" "ownsIn E T Q (hasFinalizer (lib E) b) False t" for b
    by (rule wp_mono [OF owns_body [OF assms(1-3) b]]) (auto elim: ownsIn_mono)
  with t show "wp (case r of
       Inl err \<Rightarrow> ret (Some (if IsNotFound (lib E) err then None else Some err))
     | Inr bucket \<Rightarrow> reconcileBody n E R bucket) (\<lambda>_. ownsIn E T Q False False) t"
    by (auto simp: wp_return split: sum.splits)
qed


section \<open>Histories\<close>

text \<open>
  What happens to one Bucket over time: it is reconciled, any number of times and with any failures,
  and in between the world goes on (users edit or delete the Bucket, the operator restarts with a new
  cache, other resources are reconciled) without taking its finalizer or creating its OBS bucket.
\<close>

inductive history :: "('c, 'w) env \<Rightarrow> ('c, 'w) ProviderResolver option \<Rightarrow> NamespacedName \<Rightarrow> ('w \<Rightarrow> bool) \<Rightarrow> ('w \<Rightarrow> bool) \<Rightarrow>
    ('c, 'w) st \<Rightarrow> bool" for E R req tracked present where
  start: "(present (stWorld s) \<longrightarrow> tracked (stWorld s)) \<Longrightarrow> closesBy E s \<Longrightarrow> history E R req tracked present s"
| reconcile: "history E R req tracked present s \<Longrightarrow> run_state (Reconcile n E R req) s = (r, t) \<Longrightarrow>
    history E R req tracked present t"
| outside: "history E R req tracked present s \<Longrightarrow> closesBy E t \<Longrightarrow> (tracked (stWorld s) \<longrightarrow> tracked (stWorld t)) \<Longrightarrow>
    (present (stWorld t) \<longrightarrow> present (stWorld s)) \<Longrightarrow> history E R req tracked present t"

lemma history_owns:
  assumes "history E R req T Q s" "ownershipLaws E req T Q" "factoryKeeps R T" "factoryKeeps R (\<lambda>w. \<not> Q w)"
  shows "ownsIn E T Q False False s"
  using assms(1)
proof (induction rule: history.induct)
  case (start s)
  then show ?case by (simp add: worldInv_def owns_def)
next
  case (reconcile s n r t)
  from wp_run [OF owns_Reconcile [OF assms(2-4) reconcile.IH] reconcile.hyps(2)] show ?case .
next
  case (outside s t)
  then show ?case by (auto simp: worldInv_def owns_def)
qed


text \<open>The environment of the simulation has the laws, and in it a Bucket comes to own an OBS bucket.\<close>

definition simTracked :: "sim \<Rightarrow> bool" where
  "simTracked w \<longleftrightarrow> hasFinalizer simLib (simBucket w)"

definition simPresent :: "sim \<Rightarrow> bool" where
  "simPresent w \<longleftrightarrow> simExists w \<and> simVisible w"

lemma sim_callsKeep:
  assumes "\<And>w w'. P w \<Longrightarrow> simBucket w' = simBucket w \<Longrightarrow> simExists w' = simExists w \<Longrightarrow> simVisible w' = simVisible w \<Longrightarrow> P w'"
  shows "callsKeep simEnv P"
  unfolding callsKeep_def settingCallsKeep_def
  by (auto simp: keepsWorld_def simEnv_def simK8s_def simObs_def simPutAcl_def split: option.splits intro: assms)


lemma sim_ownershipLaws: "ownershipLaws simEnv req simTracked simPresent"
  unfolding ownershipLaws_def
proof (intro conjI allI)
  show "callsKeep simEnv simTracked" "callsKeep simEnv (\<lambda>w. \<not> simPresent w)"
    by (rule sim_callsKeep, simp add: simTracked_def simPresent_def)+
  show "bucketReadLaw simEnv req simTracked" "missingLaw simEnv (nnName req) simPresent"
    "conflictLaw simEnv simPresent" "goneLaw simEnv (nnName req) simPresent"
    by (auto simp: bucketReadLaw_def missingLaw_def conflictLaw_def goneLaw_def simDefs simTracked_def simPresent_def
        simError_def isBucketNotFound_def hasFinalizer_def split: if_splits)
qed (auto simp: keepsWorld_def simDefs simTracked_def simPresent_def hasFinalizer_def)


end
