(* ===== verification/Progress.thy ===== *)
theory Progress
  imports Simulation
begin

text \<open>
  Progress: a reconciliation whose calls are answered as one hopes does what it is for. An event is an
  \<open>obstacle\<close> when it is a request that failed, except with the answers the code expects in normal
  operation. \<open>unhindered m Q\<close>: a run of \<open>m\<close> without obstacles establishes \<open>Q\<close>.
\<close>

section \<open>Obstacles\<close>

fun expectedAnswer :: "obs_req \<Rightarrow> error \<Rightarrow> bool" where
  "expectedAnswer (RGetBucketMetadata nm) e \<longleftrightarrow> isBucketNotFound e"
| "expectedAnswer (RDeleteBucket nm) e \<longleftrightarrow> isBucketNotFound e"
| "expectedAnswer (RGetBucketTagging nm) e \<longleftrightarrow> tagsAbsentError e"
| "expectedAnswer (RDeleteBucketTagging nm) e \<longleftrightarrow> tagsAbsentError e"
| "expectedAnswer (RGetBucketEncryption nm) e \<longleftrightarrow> encryptionReadTolerated e"
| "expectedAnswer (RDeleteBucketEncryption nm) e \<longleftrightarrow> encryptionAbsentError e"
| "expectedAnswer q e \<longleftrightarrow> False"

fun obstacle :: "'c event \<Rightarrow> bool" where
  "obstacle (ObsEv c q (Some e)) \<longleftrightarrow> \<not> expectedAnswer q e"
| "obstacle (PatchBucketEv b b' (Some e)) \<longleftrightarrow> True"
| "obstacle (PatchBucketStatusEv b b' (Some e)) \<longleftrightarrow> True"
| "obstacle e \<longleftrightarrow> False"

abbreviation unhindered :: "('c, 'w, 'a) prog \<Rightarrow> ('a \<Rightarrow> 'c event list \<Rightarrow> bool) \<Rightarrow> bool" where
  "unhindered m Q \<equiv> emits m (\<lambda>x evs. list_ex obstacle evs \<or> Q x evs)"

lemma unhindered_bind:
  assumes "unhindered m P" "\<And>x e1. P x e1 \<Longrightarrow> unhindered (k x) (\<lambda>y e2. Q y (e1 @ e2))"
    "\<And>x. emits (k x) (\<lambda>_ _. True)"
  shows "unhindered (State_Monad.bind m k) Q"
proof (rule emits_bind, rule emits_mono [OF assms(1)])
  fix x e1
  assume "list_ex obstacle e1 \<or> P x e1"
  then show "emits (k x) (\<lambda>y e2. list_ex obstacle (e1 @ e2) \<or> Q y (e1 @ e2))"
  proof
    assume "list_ex obstacle e1"
    then show ?thesis by (intro emits_mono [OF assms(3)]) simp
  next
    assume "P x e1"
    then show ?thesis by (intro emits_mono [OF assms(2)]) auto
  qed
qed

lemma obstacle_ObsEv: "obstacle (ObsEv c q x) \<longleftrightarrow> (\<exists>e. x = Some e \<and> \<not> expectedAnswer q e)"
  by (cases x) auto

lemma failure_Some: "failure r = Some e \<longleftrightarrow> r = Inl e"
  by (cases r) auto

lemma unhindered_storage: "unhindered (reconcileBucketStorageClass E c b) (\<lambda>r _. r = None)"
  unfolding reconcileBucketStorageClass_def Let_def
  by (auto intro!: emits_intros simp: obstacle_ObsEv split: sum.splits)

lemma unhindered_acl: "unhindered (reconcileBucketACL E c b) (\<lambda>r _. r = None)"
  unfolding reconcileBucketACL_def Let_def
  by (auto intro!: emits_intros simp: obstacle_ObsEv split: sum.splits)

lemma unhindered_versioning: "unhindered (reconcileBucketVersioning E c b) (\<lambda>r _. r = None)"
  unfolding reconcileBucketVersioning_def Let_def
  by (auto intro!: emits_intros simp: obstacle_ObsEv split: sum.splits)

lemma unhindered_tags: "unhindered (reconcileBucketTags E c b) (\<lambda>r _. r = None)"
  unfolding reconcileBucketTags_def bucketTags_def Let_def
  by (auto intro!: emits_intros simp: obstacle_ObsEv tagsAbsentError_def split: sum.splits)

lemma unhindered_logging: "unhindered (reconcileBucketLogging E c b) (\<lambda>r _. r = None)"
  unfolding reconcileBucketLogging_def Let_def
  by (auto intro!: emits_intros simp: obstacle_ObsEv split: sum.splits)

lemma unhindered_encryption: "unhindered (reconcileBucketEncryption E c b) (\<lambda>r _. r = None)"
  unfolding reconcileBucketEncryption_def Let_def
  by (auto intro!: emits_intros simp: obstacle_ObsEv encryptionAbsentError_def split: sum.splits option.splits)

lemma unhindered_runSteps:
  assumes "\<And>m. m \<in> set ms \<Longrightarrow> unhindered m (\<lambda>r _. r = None)"
  shows "unhindered (runSteps ms) (\<lambda>r _. r = None)"
  using assms
proof (induction ms)
  case Nil
  then show ?case by (simp add: emits_return)
next
  case (Cons m ms)
  have "unhindered (runSteps ms) (\<lambda>r _. r = None)" using Cons by simp
  then show ?case
    unfolding runSteps.simps
    by (intro unhindered_bind [OF Cons.prems [of m]])
       (auto intro: emits_return elim!: emits_mono split: option.splits)
qed

lemma unhindered_update: "unhindered (update E c b) (\<lambda>r _. r = None)"
  unfolding update_def updateSteps_def
  by (rule unhindered_runSteps)
     (auto simp: unhindered_storage unhindered_acl unhindered_versioning unhindered_tags unhindered_logging unhindered_encryption)

lemma unhindered_delete: "unhindered (BucketLifecycle.delete n E c b) (\<lambda>r _. r = Some None)"
  unfolding BucketLifecycle.delete_def Let_def
proof (rule unhindered_bind)
  show "unhindered (obsCall c (RDeleteBucket (bucketName b)) (apiDeleteBucket (obs E) c (bucketName b)))
      (\<lambda>r _. \<forall>e. r = Inl e \<longrightarrow> isBucketNotFound e)"
    by (auto intro!: emits_obsCall simp: obstacle_ObsEv failure_Some)
qed (auto intro!: emits_intros emits_mono [OF deleteAllBucketObjects_emits] split: sum.splits option.splits)

lemma unhindered_create: "unhindered (create E c b region) (\<lambda>r _. r = None)"
  by (rule emits_mono [OF create_emits]) (auto simp: obstacle_ObsEv)

lemma unhindered_observe:
  "unhindered (observe E c b) (\<lambda>r evs. \<exists>ob. r = Inr ob \<and>
     (if obExists ob then \<exists>c. ObsEv c (RGetBucketMetadata (bucketName b)) None \<in> set evs
      else \<exists>c e. ObsEv c (RGetBucketMetadata (bucketName b)) (Some e) \<in> set evs \<and> isBucketNotFound e))"
  by (rule emits_mono [OF observe_emits], rename_tac r evs, case_tac r) (auto simp: obstacle_ObsEv)

lemma owned_emits:
  "emits (case e of Some err \<Rightarrow> reconcileCreateError E b resolved err | None \<Rightarrow> reconcileUpdate E b resolved ob) (\<lambda>_ _. True)"
  by (intro emits_case_option emits_mono [OF retryCause_createError] emits_mono [OF retryCause_update]) simp_all

section \<open>Phases\<close>

lemma obstacle_Patch:
  "obstacle (PatchBucketEv b b' x) \<longleftrightarrow> x \<noteq> None" "obstacle (PatchBucketStatusEv b b' x) \<longleftrightarrow> x \<noteq> None"
  by (cases x; simp)+

lemma unhindered_finalizer:
  "unhindered (State_Monad.bind (patchFinalizer E b f) (\<lambda>(_, e). ret (Some e)))
     (\<lambda>r evs. r = Some None \<and> PatchBucketEv b (withFinalizers b (f (Finalizers (bMeta b)))) None \<in> set evs)"
  by (intro emits_bind emits_mono [OF patchFinalizer_emits])
     (auto intro!: emits_return simp: withFinalizers_def obstacle_Patch split: prod.splits)

lemma unhindered_deletion:
  "unhindered (reconcileDeletion n E b resolved ob) (\<lambda>r evs. r = Some None \<and>
     PatchBucketEv b (withFinalizers b (RemoveFinalizer (lib E) (Finalizers (bMeta b)) bucketFinalizer)) None \<in> set evs)"
  unfolding reconcileDeletion_def
proof (rule unhindered_bind)
  show "unhindered (if obExists ob then BucketLifecycle.delete n E (rcOBS resolved) b else ret (Some None))
      (\<lambda>r _. r = Some None)"
    by (intro emits_if unhindered_delete emits_return) simp
next
  fix d :: "error option option" and e1 :: "'a event list"
  assume "d = Some None"
  then show "unhindered (case d of
       None \<Rightarrow> ret None
     | Some (Some err) \<Rightarrow>
         if isBucketNotEmpty err \<and> \<not> specForceDestroy (bSpec b)
         then finish (updateBucketStatus E b (Some resolved) (bucketReadyStatusCondition (lib E) b (Some err)) None)
         else finish (patchStatus E b (Some resolved) (Some err) None)
     | Some None \<Rightarrow> State_Monad.bind (patchFinalizer E b (\<lambda>fs. RemoveFinalizer (lib E) fs bucketFinalizer))
         (\<lambda>(_, e). ret (Some e)))
     (\<lambda>r e2. r = Some None \<and>
       PatchBucketEv b (withFinalizers b (RemoveFinalizer (lib E) (Finalizers (bMeta b)) bucketFinalizer)) None \<in> set (e1 @ e2))"
    by (simp, intro emits_mono [OF unhindered_finalizer]) auto
next
  fix d :: "error option option"
  show "emits (case d of
       None \<Rightarrow> ret None
     | Some (Some err) \<Rightarrow>
         if isBucketNotEmpty err \<and> \<not> specForceDestroy (bSpec b)
         then finish (updateBucketStatus E b (Some resolved) (bucketReadyStatusCondition (lib E) b (Some err)) None)
         else finish (patchStatus E b (Some resolved) (Some err) None)
     | Some None \<Rightarrow> State_Monad.bind (patchFinalizer E b (\<lambda>fs. RemoveFinalizer (lib E) fs bucketFinalizer))
         (\<lambda>(_, e). ret (Some e))) (\<lambda>_ _. True)"
    by (intro emits_case_option emits_if emits_return emits_mono [OF retryCause_status]
        emits_mono [OF retryCause_patchStatus] emits_mono [OF retryCause_finalizer]) simp_all
qed

text \<open>
  After a status update without obstacles the Bucket carries the condition: the patch was accepted, or
  there was nothing to patch because the status had it already.
\<close>

definition reported :: "k8s_lib \<Rightarrow> Bucket \<Rightarrow> error option \<Rightarrow> 'c event list \<Rightarrow> bool" where
  "reported L b err evs \<longleftrightarrow>
     conditionHolds (stConditions (bStatus b)) (bucketReadyStatusCondition L b err) \<or>
     (\<exists>m. PatchBucketStatusEv b m None \<in> set evs \<and>
        conditionHolds (stConditions (bStatus m)) (bucketReadyStatusCondition L b err))"

lemma nextBucketStatus_conditions:
  "stConditions (nextBucketStatus L t b resolved cond md) = SetStatusCondition L t (stConditions (bStatus b)) cond"
  by (simp add: nextBucketStatus_def Let_def split: option.splits)

lemma nextBucketStatus_holds:
  "setConditionSets L \<Longrightarrow> conditionHolds (stConditions (nextBucketStatus L t b resolved cond md)) cond"
  by (simp add: nextBucketStatus_conditions setConditionSets_def)

lemma unchanged_holds:
  assumes "setConditionSets L" "\<not> bucketStatusChanged (bStatus b) (nextBucketStatus L t b resolved cond md)"
  shows "conditionHolds (stConditions (bStatus b)) cond"
proof -
  have "stConditions (bStatus b) = stConditions (nextBucketStatus L t b resolved cond md)"
    using assms(2) by (simp add: bucketStatusChanged_def)
  then show ?thesis using nextBucketStatus_holds [OF assms(1)] by metis
qed

lemma unhindered_updateStatus:
  assumes "setConditionSets (lib E)"
  shows "unhindered (updateBucketStatus E b resolved (bucketReadyStatusCondition (lib E) b err) md)
    (\<lambda>r evs. r = None \<and> reported (lib E) b err evs)"
  unfolding updateBucketStatus_def Let_def
  by (intro emits_intros)
     (auto simp: reported_def obstacle_Patch nextBucketStatus_holds [OF assms] dest: unchanged_holds [OF assms])

lemma unhindered_patchStatus:
  assumes "setConditionSets (lib E)"
  shows "unhindered (finish (patchStatus E b resolved err md)) (\<lambda>r evs.
    r = Some (if isUserCorrectableBucketError err then None else err) \<and> reported (lib E) b err evs)"
  unfolding patchStatus_def finish_def Let_def
  by (intro emits_bind emits_mono [OF unhindered_updateStatus [OF assms]])
     (auto intro!: emits_intros simp: reported_def split: option.splits)

lemma unmanaged_correctable: "correctable (unmanagedError b)"
  by (simp add: unmanagedError_def isUserCorrectableBucketErrorType_def)

lemma unhindered_claim:
  assumes "setConditionSets (lib E)"
  shows "unhindered (reconcileClaim E b resolved ob) (\<lambda>r evs. r = Some None \<and>
     (if obExists ob then reported (lib E) b (Some (unmanagedError b)) evs
      else PatchBucketEv b (withFinalizers b (AddFinalizer (lib E) (Finalizers (bMeta b)) bucketFinalizer)) None \<in> set evs))"
  unfolding reconcileClaim_def
  by (intro emits_if emits_mono [OF unhindered_patchStatus [OF assms]] emits_mono [OF unhindered_finalizer])
     (auto simp: isUserCorrectableBucketError_def unmanaged_correctable)

lemma reported_append: "reported L b err e2 \<Longrightarrow> reported L b err (e1 @ e2)"
  by (auto simp: reported_def)

lemma unhindered_reconcileUpdate:
  assumes "setConditionSets (lib E)"
  shows "unhindered (reconcileUpdate E b resolved ob) (\<lambda>r evs. r = Some None \<and> reported (lib E) b None evs)"
  unfolding reconcileUpdate_def
proof (rule unhindered_bind [OF unhindered_update], simp, rule unhindered_bind)
  show "unhindered (observe E (rcOBS resolved) b) (\<lambda>r _. \<exists>ob. r = Inr ob)"
    by (rule emits_mono [OF unhindered_observe]) auto
  show "unhindered (case x of Inl err \<Rightarrow> finish (patchStatus E b (Some resolved) (Some err) None)
      | Inr ob2 \<Rightarrow> finish (patchStatus E b (Some resolved) None (obMetadata ob2)))
      (\<lambda>r e2. r = Some None \<and> reported (lib E) b None (e1 @ e1' @ e2))"
    if "\<exists>ob. x = Inr ob" for x e1 e1'
    using that by (auto intro!: emits_mono [OF unhindered_patchStatus [OF assms]] reported_append
        simp: isUserCorrectableBucketError_def)
qed (auto intro!: emits_intros emits_mono [OF retryCause_patchStatus] emits_mono [OF observe_emits] split: option.splits sum.splits)

lemma unhindered_owned:
  assumes "setConditionSets (lib E)"
  shows "unhindered (reconcileOwned E b resolved ob) (\<lambda>r evs. r = Some None \<and> reported (lib E) b None evs)"
  unfolding reconcileOwned_def
proof (intro emits_if unhindered_reconcileUpdate [OF assms] unhindered_bind [OF unhindered_create _ owned_emits])
  fix e :: "error option" and e1 :: "'a event list"
  show "unhindered (case e of Some err \<Rightarrow> reconcileCreateError E b resolved err | None \<Rightarrow> reconcileUpdate E b resolved ob)
     (\<lambda>r e2. r = Some None \<and> reported (lib E) b None (e1 @ e2))" if "e = None"
    using that by (auto intro!: emits_mono [OF unhindered_reconcileUpdate [OF assms]] reported_append)
qed

section \<open>A reconciliation\<close>

text \<open>What a reconciliation of the Bucket is for, in each of the three states the Bucket can be in.\<close>

definition progressMade :: "k8s_lib \<Rightarrow> Bucket \<Rightarrow> 'c event list \<Rightarrow> bool" where
  "progressMade L b evs \<longleftrightarrow>
     (if deleting b
      then PatchBucketEv b (withFinalizers b (RemoveFinalizer L (Finalizers (bMeta b)) bucketFinalizer)) None \<in> set evs
      else if hasFinalizer L b then reported L b None evs
      else (\<exists>c. ObsEv c (RGetBucketMetadata (bucketName b)) None \<in> set evs) \<and>
             reported L b (Some (unmanagedError b)) evs \<or>
           (\<exists>c e. ObsEv c (RGetBucketMetadata (bucketName b)) (Some e) \<in> set evs \<and> isBucketNotFound e) \<and>
             PatchBucketEv b (withFinalizers b (AddFinalizer L (Finalizers (bMeta b)) bucketFinalizer)) None \<in> set evs)"

lemma progressMade_append: "progressMade L b e2 \<Longrightarrow> progressMade L b (e1 @ e2)"
  unfolding progressMade_def by (auto intro: reported_append split: if_splits)

definition afterResolve :: "nat \<Rightarrow> ('c, 'w) env \<Rightarrow> Bucket \<Rightarrow> 'c ResolvedClient \<Rightarrow> ('c, 'w, error option option) prog" where
  "afterResolve n E b resolved = do {
     o1 \<leftarrow> observe E (rcOBS resolved) b;
     case o1 of
       Inl err \<Rightarrow> finish (patchStatus E b (Some resolved) (Some err) None)
     | Inr observation \<Rightarrow>
         if deleting b then reconcileDeletion n E b resolved observation
         else if \<not> hasFinalizer (lib E) b then reconcileClaim E b resolved observation
         else reconcileOwned E b resolved observation
   }"

lemma unhindered_afterResolve:
  assumes "setConditionSets (lib E)"
  shows "unhindered (afterResolve n E b resolved) (\<lambda>r evs. r = Some None \<and> progressMade (lib E) b evs)"
  unfolding afterResolve_def
proof (rule unhindered_bind [OF unhindered_observe])
  fix o1 :: "error + bucketObservation" and e1 :: "'a event list"
  assume "\<exists>ob. o1 = Inr ob \<and>
     (if obExists ob then \<exists>c. ObsEv c (RGetBucketMetadata (bucketName b)) None \<in> set e1
      else \<exists>c e. ObsEv c (RGetBucketMetadata (bucketName b)) (Some e) \<in> set e1 \<and> isBucketNotFound e)"
  then obtain ob where o1: "o1 = Inr ob" and ob:
     "if obExists ob then \<exists>c. ObsEv c (RGetBucketMetadata (bucketName b)) None \<in> set e1
      else \<exists>c e. ObsEv c (RGetBucketMetadata (bucketName b)) (Some e) \<in> set e1 \<and> isBucketNotFound e" by blast
  show "unhindered (case o1 of
       Inl err \<Rightarrow> finish (patchStatus E b (Some resolved) (Some err) None)
     | Inr observation \<Rightarrow>
         if deleting b then reconcileDeletion n E b resolved observation
         else if \<not> hasFinalizer (lib E) b then reconcileClaim E b resolved observation
         else reconcileOwned E b resolved observation)
     (\<lambda>r e2. r = Some None \<and> progressMade (lib E) b (e1 @ e2))"
    unfolding o1 sum.case
    by (intro emits_if emits_mono [OF unhindered_deletion] emits_mono [OF unhindered_claim [OF assms]]
        emits_mono [OF unhindered_owned [OF assms]])
       (use ob in \<open>auto simp: progressMade_def intro: reported_append split: if_splits\<close>)
next
  fix o1 :: "error + bucketObservation"
  show "emits (case o1 of
       Inl err \<Rightarrow> finish (patchStatus E b (Some resolved) (Some err) None)
     | Inr observation \<Rightarrow>
         if deleting b then reconcileDeletion n E b resolved observation
         else if \<not> hasFinalizer (lib E) b then reconcileClaim E b resolved observation
         else reconcileOwned E b resolved observation) (\<lambda>_ _. True)"
    by (intro emits_case_sum emits_if emits_mono [OF retryCause_patchStatus] emits_mono [OF retryCause_deletion]
        emits_mono [OF retryCause_claim] emits_mono [OF retryCause_owned]) simp_all
qed

lemma Reconcile_afterResolve:
  assumes "apiGetBucket (k8s E) req (stWorld s) = (Inr b, w)" "deleting b \<longrightarrow> hasFinalizer (lib E) b"
    "run_state (resolveBucketClient E R b) (s\<lparr>stWorld := w, stTrace := stTrace s @ [GetBucketEv req (Inr b)]\<rparr>) =
       (Inr resolved, s1)"
  shows "run_state (Reconcile n E R req) s = run_state (afterResolve n E b resolved) s1"
  using assms by (auto simp: Reconcile_def run_call reconcileBody_def afterResolve_def)

section \<open>Convergence\<close>

text \<open>A run without obstacles ends in a world where the settings are as \<open>C\<close> says.\<close>

definition settles :: "('w \<Rightarrow> bool) \<Rightarrow> ('c, 'w, 'a) prog \<Rightarrow> bool" where
  "settles C m \<longleftrightarrow> (\<forall>s r t. run_state m s = (r, t) \<longrightarrow>
     (\<exists>evs. stTrace t = stTrace s @ evs \<and> (list_ex obstacle evs \<or> C (stWorld t))))"

lemma settles_bind:
  assumes "unhindered m P" "\<And>x e1. P x e1 \<Longrightarrow> settles C (k x)" "\<And>x. emits (k x) (\<lambda>_ _. True)"
  shows "settles C (State_Monad.bind m k)"
  unfolding settles_def
proof (intro allI impI)
  fix s y u
  assume "run_state (State_Monad.bind m k) s = (y, u)"
  then obtain x t where 1: "run_state m s = (x, t)" and 2: "run_state (k x) t = (y, u)"
    by (auto split: prod.splits)
  from emitsD [OF assms(1) 1] obtain e1 where e1: "stTrace t = stTrace s @ e1" "list_ex obstacle e1 \<or> P x e1" by blast
  have "\<exists>e2. stTrace u = stTrace t @ e2 \<and> (list_ex obstacle e1 \<or> list_ex obstacle e2 \<or> C (stWorld u))"
    using e1(2) emitsD [OF assms(3) 2] assms(2) [of x e1] 2 unfolding settles_def by blast
  with e1(1) show "\<exists>evs. stTrace u = stTrace s @ evs \<and> (list_ex obstacle evs \<or> C (stWorld u))" by auto
qed

lemma reconcileUpdate_settles:
  assumes "settingsLaws E (bucketName b) view" "wellFormedBucket b"
  shows "settles (\<lambda>w. converged (sdk E) b (view w)) (reconcileUpdate E b resolved ob)"
  unfolding settles_def
proof (intro allI impI)
  fix s r t
  assume run: "run_state (reconcileUpdate E b resolved ob) s = (r, t)"
  let ?c = "rcOBS resolved" and ?C = "\<lambda>s. converged (sdk E) b (view (stWorld s))"
  have law: "sdkDocumented (sdk E)" "obsReads E ?c (bucketName b) view" "obsWrites E ?c (bucketName b) view"
    "settingsFrame E ?c (bucketName b) view" "gomap_wf (desiredTags b)"
    using assms by (auto simp: settingsLaws_def wellFormedBucket_def)
  let ?k = "\<lambda>u. case u of
      Some err \<Rightarrow> finish (patchStatus E b (Some resolved) (Some err) (obMetadata ob))
    | None \<Rightarrow> State_Monad.bind (observe E ?c b) (\<lambda>o2. case o2 of
          Inl err \<Rightarrow> finish (patchStatus E b (Some resolved) (Some err) None)
        | Inr ob2 \<Rightarrow> finish (patchStatus E b (Some resolved) None (obMetadata ob2)))"
  obtain u s1 where u: "run_state (update E ?c b) s = (u, s1)" by fastforce
  with run have k: "run_state (?k u) s1 = (r, t)" by (simp add: reconcileUpdate_def)
  have keeps: "program_keeps ?C (?k None)"
    using law(4) by (auto intro!: keeps_intros keeps_view_observe keeps_view_patchStatus)
  have "emits (?k u) (\<lambda>_ _. True)"
    by (cases u) (auto intro!: emits_intros emits_mono [OF retryCause_patchStatus] emits_mono [OF observe_emits] split: sum.splits)
  from emitsD [OF this k] emitsD [OF unhindered_update u] obtain e1 e2 where
    e: "stTrace s1 = stTrace s @ e1" "list_ex obstacle e1 \<or> u = None" "stTrace t = stTrace s1 @ e2" by blast
  have "?C t" if "u = None"
  proof -
    have "?C s1" using update_establishes [OF law(1-3,5)] u that by blast
    with keeps_run [OF keeps] k that show ?thesis by blast
  qed
  with e show "\<exists>evs. stTrace t = stTrace s @ evs \<and> (list_ex obstacle evs \<or> converged (sdk E) b (view (stWorld t)))"
    by (intro exI [of _ "e1 @ e2"]) auto
qed

lemma reconcileOwned_settles:
  assumes "settingsLaws E (bucketName b) view" "wellFormedBucket b"
  shows "settles (\<lambda>w. converged (sdk E) b (view w)) (reconcileOwned E b resolved ob)"
proof -
  have "settles (\<lambda>w. converged (sdk E) b (view w))
      (State_Monad.bind (create E (rcOBS resolved) b (rcRegion resolved)) (\<lambda>e. case e of
         Some err \<Rightarrow> reconcileCreateError E b resolved err | None \<Rightarrow> reconcileUpdate E b resolved ob))"
    by (rule settles_bind [OF unhindered_create _ owned_emits]) (simp add: reconcileUpdate_settles [OF assms])
  then show ?thesis
    unfolding reconcileOwned_def using reconcileUpdate_settles [OF assms] by simp
qed

lemma afterResolve_settles:
  assumes "settingsLaws E (bucketName b) view" "wellFormedBucket b" "\<not> deleting b" "hasFinalizer (lib E) b"
  shows "settles (\<lambda>w. converged (sdk E) b (view w)) (afterResolve n E b resolved)"
  unfolding afterResolve_def
  by (rule settles_bind [OF unhindered_observe])
     (use assms in \<open>auto intro!: emits_intros emits_mono [OF retryCause_patchStatus] emits_mono [OF retryCause_owned]
        reconcileOwned_settles split: sum.splits\<close>)

text \<open>
  Progress. When the provider of a Bucket resolves and no request of a reconciliation fails
  except with answers that belong to normal operation (the bucket, its tags or its encryption do not
  exist), the reconciliation returns without an error and has done its work: a Bucket being deleted
  has given up its finalizer; an owned Bucket is reported ready and the settings of its OBS bucket
  are those of the spec; a Bucket without the finalizer has got it when the OBS bucket did not exist,
  and is reported as not its own when it did.
\<close>

lemma reconcile_progress:
  assumes "settingsLaws E (bucketName b) view" "wellFormedBucket b"
    "apiGetBucket (k8s E) req (stWorld s) = (Inr b, w)" "deleting b \<longrightarrow> hasFinalizer (lib E) b"
    "run_state (resolveBucketClient E R b) (s\<lparr>stWorld := w, stTrace := stTrace s @ [GetBucketEv req (Inr b)]\<rparr>) =
       (Inr resolved, s1)"
    "\<not> list_ex obstacle (emitted (Reconcile n E R req) s)"
  shows "\<exists>t. run_state (Reconcile n E R req) s = (Some None, t) \<and>
    progressMade (lib E) b (emitted (Reconcile n E R req) s) \<and>
    (\<not> deleting b \<and> hasFinalizer (lib E) b \<longrightarrow> converged (sdk E) b (view (stWorld t)))"
proof -
  have sets: "setConditionSets (lib E)" using assms(1) by (simp add: settingsLaws_def setConditionLaw_def)
  obtain r t where t: "run_state (afterResolve n E b resolved) s1 = (r, t)" by fastforce
  then have run: "run_state (Reconcile n E R req) s = (r, t)" by (simp add: Reconcile_afterResolve [OF assms(3-5)])
  from emitsD [OF resolveBucketClient_emits assms(5)] obtain e1 where
    e1: "stTrace s1 = stTrace s @ GetBucketEv req (Inr b) # e1" by auto
  from emitsD [OF unhindered_afterResolve [OF sets] t] obtain e2 where e2: "stTrace t = stTrace s1 @ e2"
    "list_ex obstacle e2 \<or> r = Some None \<and> progressMade (lib E) b e2" by blast
  have em: "emitted (Reconcile n E R req) s = (GetBucketEv req (Inr b) # e1) @ e2"
    by (simp add: emitted_def run e1 e2(1))
  with assms(6) have ok: "\<not> list_ex obstacle e2" by auto
  have "converged (sdk E) b (view (stWorld t))" if "\<not> deleting b" "hasFinalizer (lib E) b"
    using afterResolve_settles [OF assms(1,2) that] t ok e2(1) unfolding settles_def by fastforce
  moreover have "progressMade (lib E) b (emitted (Reconcile n E R req) s)"
    using em ok e2(2) progressMade_append [of "lib E" b e2 "GetBucketEv req (Inr b) # e1"] by simp
  ultimately show ?thesis using run ok e2(2) by (intro exI [of _ t]) simp
qed

end
