(* ===== verification/Liveness.thy ===== *)
theory Liveness
  imports Ownership Progress
begin

text \<open>
  From any history to a bucket that is as it should be: however a Bucket got to where it is, two
  reconciliations that meet no obstacle make it ready, and one removes it.
\<close>

text \<open>
  What is documented in addition: the Bucket that is read has the finalizer exactly when it is
  there, an accepted patch is stored, a bucket whose metadata is returned exists, and adding a
  finalizer adds it.
\<close>

definition claimLaws :: "('c, 'w) env \<Rightarrow> NamespacedName \<Rightarrow> ('w \<Rightarrow> bool) \<Rightarrow> ('w \<Rightarrow> bool) \<Rightarrow> bool" where
  "claimLaws E req tracked present \<longleftrightarrow>
     (\<forall>w b w'. apiGetBucket (k8s E) req w = (Inr b, w') \<longrightarrow> tracked w' \<longrightarrow> hasFinalizer (lib E) b) \<and>
     (\<forall>b m w b' w'. apiPatchBucket (k8s E) b m w = (Inr b', w') \<longrightarrow> hasFinalizer (lib E) m \<longrightarrow> tracked w') \<and>
     (\<forall>c w md w'. apiGetBucketMetadata (obs E) c (nnName req) w = (Inr md, w') \<longrightarrow> present w') \<and>
     (\<forall>fs. ContainsFinalizer (lib E) (AddFinalizer (lib E) fs bucketFinalizer) bucketFinalizer)"

text \<open>A reconciliation that reads the Bucket, resolves its provider and meets no obstacle.\<close>

definition smoothRun :: "nat \<Rightarrow> ('c, 'w) env \<Rightarrow> ('c, 'w) ProviderResolver option \<Rightarrow> NamespacedName \<Rightarrow>
    ('c, 'w) st \<Rightarrow> Bucket \<Rightarrow> ('c, 'w) st \<Rightarrow> bool" where
  "smoothRun n E R req s b t \<longleftrightarrow>
     (\<exists>w resolved s1. apiGetBucket (k8s E) req (stWorld s) = (Inr b, w) \<and>
        run_state (resolveBucketClient E R b) (s\<lparr>stWorld := w, stTrace := stTrace s @ [GetBucketEv req (Inr b)]\<rparr>) =
          (Inr resolved, s1)) \<and>
     snd (run_state (Reconcile n E R req) s) = t \<and> \<not> list_ex obstacle (emitted (Reconcile n E R req) s)"

lemma smoothRunE:
  assumes "smoothRun n E R req s b t" "deleting b \<longrightarrow> hasFinalizer (lib E) b"
  obtains w resolved s1 r evs where "apiGetBucket (k8s E) req (stWorld s) = (Inr b, w)"
    "run_state (resolveBucketClient E R b) (s\<lparr>stWorld := w, stTrace := stTrace s @ [GetBucketEv req (Inr b)]\<rparr>) =
       (Inr resolved, s1)"
    "run_state (Reconcile n E R req) s = (r, t)" "run_state (afterResolve n E b resolved) s1 = (r, t)"
    "stTrace t = stTrace s1 @ evs" "\<not> list_ex obstacle evs"
    "\<exists>e1. emitted (Reconcile n E R req) s = e1 @ evs"
proof -
  from assms(1) obtain w resolved s1 where 1: "apiGetBucket (k8s E) req (stWorld s) = (Inr b, w)"
    "run_state (resolveBucketClient E R b) (s\<lparr>stWorld := w, stTrace := stTrace s @ [GetBucketEv req (Inr b)]\<rparr>) =
       (Inr resolved, s1)" and t: "snd (run_state (Reconcile n E R req) s) = t"
    and ok: "\<not> list_ex obstacle (emitted (Reconcile n E R req) s)" unfolding smoothRun_def by blast
  obtain r where r: "run_state (Reconcile n E R req) s = (r, t)" using t by (metis prod.collapse)
  then have ar: "run_state (afterResolve n E b resolved) s1 = (r, t)"
    by (simp add: Reconcile_afterResolve [OF 1(1) assms(2) 1(2)])
  from emitsD [OF resolveBucketClient_emits 1(2)] obtain e1 where
    e1: "stTrace s1 = stTrace s @ GetBucketEv req (Inr b) # e1" by auto
  have "emits (afterResolve n E b resolved) (\<lambda>_ _. True)"
    unfolding afterResolve_def
    by (auto intro!: emits_intros emits_mono [OF observe_emits] emits_mono [OF retryCause_patchStatus]
        emits_mono [OF retryCause_deletion] emits_mono [OF retryCause_claim] emits_mono [OF retryCause_owned] split: sum.splits)
  from emitsD [OF this ar] obtain evs where evs: "stTrace t = stTrace s1 @ evs" by blast
  have em: "emitted (Reconcile n E R req) s = (GetBucketEv req (Inr b) # e1) @ evs"
    by (simp add: emitted_def r e1 evs)
  with ok have "\<not> list_ex obstacle evs" by auto
  with that 1 r ar evs em show ?thesis by blast
qed

lemma afterResolveE:
  assumes "run_state (afterResolve n E b resolved) s = (r, t)" "stTrace t = stTrace s @ evs" "\<not> list_ex obstacle evs"
  obtains ob s2 e1 e2 where "run_state (observe E (rcOBS resolved) b) s = (Inr ob, s2)" "stTrace s2 = stTrace s @ e1"
    "\<not> list_ex obstacle e1" "run_state (if deleting b then reconcileDeletion n E b resolved ob
       else if \<not> hasFinalizer (lib E) b then reconcileClaim E b resolved ob
       else reconcileOwned E b resolved ob) s2 = (r, t)" "stTrace t = stTrace s2 @ e2" "\<not> list_ex obstacle e2"
proof -
  let ?k = "\<lambda>o1. case o1 of
       Inl err \<Rightarrow> finish (patchStatus E b (Some resolved) (Some err) None)
     | Inr ob \<Rightarrow> if deleting b then reconcileDeletion n E b resolved ob
         else if \<not> hasFinalizer (lib E) b then reconcileClaim E b resolved ob
         else reconcileOwned E b resolved ob"
  obtain o1 s2 where o1: "run_state (observe E (rcOBS resolved) b) s = (o1, s2)" by fastforce
  from emitsD [OF unhindered_observe o1] obtain e1 where e1: "stTrace s2 = stTrace s @ e1"
    "list_ex obstacle e1 \<or> (\<exists>ob. o1 = Inr ob)" by blast
  have k: "run_state (?k o1) s2 = (r, t)" using assms(1) o1 by (simp add: afterResolve_def)
  have "emits (?k o1) (\<lambda>_ _. True)"
    by (intro emits_case_sum emits_if emits_mono [OF retryCause_patchStatus] emits_mono [OF retryCause_deletion]
        emits_mono [OF retryCause_claim] emits_mono [OF retryCause_owned]) simp_all
  from emitsD [OF this k] obtain e2 where e2: "stTrace t = stTrace s2 @ e2" by blast
  with assms(2,3) e1(1) have ok: "\<not> list_ex obstacle e1" "\<not> list_ex obstacle e2" by auto
  with e1(2) obtain ob where "o1 = Inr ob" by blast
  with that o1 e1(1) k e2 ok show ?thesis by simp
qed

lemma read_owns:
  assumes "ownershipLaws E req T Q" "ownsIn E T Q False False s" "apiGetBucket (k8s E) req (stWorld s) = (Inr b, w)"
  shows "ownsIn E T Q (hasFinalizer (lib E) b) False (s\<lparr>stWorld := w, stTrace := stTrace s @ evs\<rparr>)" "bucketName b = nnName req"
proof -
  note laws = ownershipLawsD [OF assms(1)]
  have "keepsWorld (owns T Q False False) (apiGetBucket (k8s E) req)"
    using callsKeep_owns [OF laws(1,2)] by (simp add: callsKeep_def)
  with assms(2,3) have "owns T Q False False w"
    by (auto simp: worldInv_def keepsWorld_def dest: spec [of _ "stWorld s"])
  with laws(9) assms(2,3) show "ownsIn E T Q (hasFinalizer (lib E) b) False (s\<lparr>stWorld := w, stTrace := stTrace s @ evs\<rparr>)"
    "bucketName b = nnName req"
    by (auto simp: bucketReadLaw_def worldInv_def owns_def closesBy_def)
qed

lemma resolved_owns:
  assumes "ownershipLaws E req T Q" "factoryKeeps R T" "factoryKeeps R (\<lambda>w. \<not> Q w)" "ownsIn E T Q a b s"
    "run_state (resolveBucketClient E R bkt) s = (res, s1)"
  shows "ownsIn E T Q a b s1"
proof -
  have "factoryKeeps R (owns T Q a b)" using assms(2,3) by (auto simp: factoryKeeps_def keepsWorld_owns)
  from keeps_run [OF keeps_resolve [OF callsKeep_owns [OF ownershipLawsD(1,2) [OF assms(1)]] this] assms(4,5)]
  show ?thesis .
qed

section \<open>The claim\<close>

lemma observe_run:
  assumes "run_state (observe E c b) s = (r, t)"
  shows "\<exists>x w. apiGetBucketMetadata (obs E) c (bucketName b) (stWorld s) = (x, w) \<and> stWorld t = w \<and>
    stTrace t = stTrace s @ [ObsEv c (RGetBucketMetadata (bucketName b)) (failure x)] \<and>
    (case r of Inr ob \<Rightarrow> obExists ob \<longleftrightarrow> (\<exists>md. x = Inr md) | Inl _ \<Rightarrow> \<exists>e. x = Inl e \<and> \<not> isBucketNotFound e)"
  using assms by (auto simp: observe_def run_obsCall split: prod.splits sum.splits if_splits)

text \<open>When the Bucket is read without the finalizer, its OBS bucket does not exist.\<close>

lemma unclaimed_missing:
  assumes "ownershipLaws E req T Q" "claimLaws E req T Q" "ownsIn E T Q False False s"
    "apiGetBucket (k8s E) req (stWorld s) = (Inr b, w)" "\<not> hasFinalizer (lib E) b"
  shows "ownsIn E T Q False True (s\<lparr>stWorld := w, stTrace := stTrace s @ evs\<rparr>)"
proof -
  have "\<not> T w" using assms(2,4,5) unfolding claimLaws_def by blast
  with read_owns(1) [OF assms(1,3,4)] show ?thesis by (auto simp: owns_def worldInv_def closesBy_def)
qed

text \<open>Then observing it finds it missing, and an accepted claim is stored.\<close>

lemma observe_missing:
  assumes "ownershipLaws E req T Q" "claimLaws E req T Q" "bucketName b = nnName req" "ownsIn E T Q False True s"
    "run_state (observe E c b) s = (r, t)" "stTrace t = stTrace s @ evs" "\<not> list_ex obstacle evs"
  shows "\<exists>ob. r = Inr ob \<and> \<not> obExists ob"
proof -
  from observe_run [OF assms(5)] obtain x where x: "apiGetBucketMetadata (obs E) c (nnName req) (stWorld s) = (x, stWorld t)"
    "evs = [ObsEv c (RGetBucketMetadata (bucketName b)) (failure x)]"
    "case r of Inr ob \<Rightarrow> obExists ob \<longleftrightarrow> (\<exists>md. x = Inr md) | Inl _ \<Rightarrow> \<exists>e. x = Inl e \<and> \<not> isBucketNotFound e"
    using assms(3,6) by auto
  have "program_keeps (ownsIn E T Q False True) (observe E c b)"
    by (intro keeps_observe callsKeep_owns ownershipLawsD [OF assms(1)])
  from keeps_run [OF this assms(4,5)] have "\<not> Q (stWorld t)" by (simp add: worldInv_def owns_def)
  then have "\<not> (\<exists>md. x = Inr md)" using assms(2) x(1) unfolding claimLaws_def by blast
  with x assms(7) show ?thesis by (cases r) auto
qed

lemma claim_stored:
  assumes "claimLaws E req T Q" "\<not> obExists ob" "run_state (reconcileClaim E b resolved ob) s = (r, t)"
    "stTrace t = stTrace s @ evs" "\<not> list_ex obstacle evs"
  shows "T (stWorld t)"
proof -
  let ?m = "b\<lparr>bMeta := (bMeta b)\<lparr>Finalizers := AddFinalizer (lib E) (Finalizers (bMeta b)) bucketFinalizer\<rparr>\<rparr>"
  obtain y w where y: "apiPatchBucket (k8s E) b ?m (stWorld s) = (y, w)" by fastforce
  with assms(2,3) have t: "stWorld t = w" "stTrace t = stTrace s @ [PatchBucketEv b ?m (failure y)]"
    by (auto simp: reconcileClaim_def patchFinalizer_def Let_def run_call split: sum.splits)
  have "\<exists>b'. y = Inr b'" using assms(4,5) t(2) by (cases y) auto
  moreover have "hasFinalizer (lib E) ?m" using assms(1) by (simp add: claimLaws_def hasFinalizer_def)
  ultimately show ?thesis using assms(1) y t(1) unfolding claimLaws_def by blast
qed

lemma smooth_tracks:
  assumes "ownershipLaws E req T Q" "claimLaws E req T Q" "factoryKeeps R T" "factoryKeeps R (\<lambda>w. \<not> Q w)"
    "ownsIn E T Q False False s" "smoothRun n E R req s b t" "\<not> deleting b"
  shows "T (stWorld t)"
proof -
  from smoothRunE [OF assms(6)] assms(7) obtain w resolved s1 r evs where
    get: "apiGetBucket (k8s E) req (stWorld s) = (Inr b, w)" and
    res: "run_state (resolveBucketClient E R b) (s\<lparr>stWorld := w, stTrace := stTrace s @ [GetBucketEv req (Inr b)]\<rparr>) =
       (Inr resolved, s1)" and
    rec: "run_state (Reconcile n E R req) s = (r, t)" and
    run: "run_state (afterResolve n E b resolved) s1 = (r, t)" and
    tr: "stTrace t = stTrace s1 @ evs" "\<not> list_ex obstacle evs" by metis
  note s = read_owns [OF assms(1,5) get]
  show ?thesis
  proof (cases "hasFinalizer (lib E) b")
    case True
    have "run_state (reconcileBody n E R b) (s\<lparr>stWorld := w, stTrace := stTrace s @ [GetBucketEv req (Inr b)]\<rparr>) = (r, t)"
      using rec get by (simp add: Reconcile_def run_call)
    from wp_run [OF owns_body [OF assms(1,3,4) s(2,1)] this] True assms(7) show ?thesis by (simp add: worldInv_def owns_def)
  next
    case False
    obtain ob s2 e1 e2 where o1: "run_state (observe E (rcOBS resolved) b) s1 = (Inr ob, s2)"
      "stTrace s2 = stTrace s1 @ e1" "\<not> list_ex obstacle e1" and k: "run_state (if deleting b then reconcileDeletion n E b resolved ob
         else if \<not> hasFinalizer (lib E) b then reconcileClaim E b resolved ob else reconcileOwned E b resolved ob) s2 = (r, t)"
      "stTrace t = stTrace s2 @ e2" "\<not> list_ex obstacle e2" by (rule afterResolveE [OF run tr])
    note s1 = resolved_owns [OF assms(1,3,4) unclaimed_missing [OF assms(1,2,5) get False] res]
    from observe_missing [OF assms(1,2) s(2) s1 o1] have "\<not> obExists ob" by simp
    from claim_stored [OF assms(2) this _ k(2,3)] k(1) False assms(7) show ?thesis by simp
  qed
qed

section \<open>The deletion\<close>

lemma deletion_gone:
  assumes "ownershipLaws E req T Q" "bucketName b = nnName req" "ownsIn E T Q True (\<not> obExists ob) s"
    "run_state (reconcileDeletion n E b resolved ob) s = (r, t)" "stTrace t = stTrace s @ evs" "\<not> list_ex obstacle evs"
  shows "\<not> Q (stWorld t)"
proof -
  let ?m = "if obExists ob then BucketLifecycle.delete n E (rcOBS resolved) b else ret (Some None)"
  let ?k = "\<lambda>d. case d of
       None \<Rightarrow> ret None
     | Some (Some err) \<Rightarrow>
         if isBucketNotEmpty err \<and> \<not> specForceDestroy (bSpec b)
         then finish (updateBucketStatus E b (Some resolved) (bucketReadyStatusCondition (lib E) b (Some err)) None)
         else finish (patchStatus E b (Some resolved) (Some err) None)
     | Some None \<Rightarrow> State_Monad.bind (patchFinalizer E b (\<lambda>fs. RemoveFinalizer (lib E) fs bucketFinalizer))
         (\<lambda>(_, e). ret (Some e))"
  obtain d s1 where d: "run_state ?m s = (d, s1)" by fastforce
  have k: "run_state (?k d) s1 = (r, t)" using assms(4) d by (simp add: reconcileDeletion_def)
  have "unhindered ?m (\<lambda>r _. r = Some None)" by (intro emits_if unhindered_delete emits_return) simp
  from emitsD [OF this d] obtain e1 where e1: "stTrace s1 = stTrace s @ e1" "list_ex obstacle e1 \<or> d = Some None" by blast
  have "emits (?k d) (\<lambda>_ _. True)"
    by (intro emits_case_option emits_if emits_return emits_mono [OF retryCause_status]
        emits_mono [OF retryCause_patchStatus] emits_mono [OF retryCause_finalizer]) simp_all
  from emitsD [OF this k] e1 assms(5,6) have ok: "d = Some None" by auto
  have "wp ?m (\<lambda>r t. ownsIn E T Q True (r = Some None) t) s"
    using assms(1-3) by (auto intro: owns_delete simp: wp_return)
  from wp_run [OF this d] ok have s1: "ownsIn E T Q True True s1" by simp
  obtain y s2 where y: "run_state (patchFinalizer E b (\<lambda>fs. RemoveFinalizer (lib E) fs bucketFinalizer)) s1 = (y, s2)" by fastforce
  with k ok have "t = s2" by (auto split: prod.splits)
  with wp_run [OF owns_finalizer [OF assms(1) s1] y] show ?thesis by (simp add: worldInv_def owns_def)
qed


section \<open>The simulation\<close>

lemma sim_claimLaws: "claimLaws simEnv req simTracked simPresent"
  by (auto simp: claimLaws_def simDefs simTracked_def simPresent_def hasFinalizer_def split: if_splits)

definition clearRun :: "('c, 'w, 'a) prog \<Rightarrow> ('c, 'w) st \<Rightarrow> (('c, 'w) st \<Rightarrow> bool) \<Rightarrow> bool" where
  "clearRun m s G \<longleftrightarrow> (\<exists>r t evs. run_state m s = (r, t) \<and> stTrace t = stTrace s @ evs \<and> \<not> list_ex obstacle evs \<and> G t)"

lemma sim_smoothI:
  assumes "simConfig (stWorld s) = sampleConfig" "simSecret (stWorld s) = sampleSecret"
    "simBucket (stWorld s) = b" "bucketName b = ''data''" "deleting b \<longrightarrow> hasFinalizer simLib b"
    "\<And>res s1. stWorld s1 = stWorld s \<Longrightarrow> clearRun (afterResolve 0 simEnv b res) s1 G"
  shows "\<exists>t. smoothRun 0 simEnv None sampleReq s b t \<and> G t"
proof -
  let ?s = "s\<lparr>stWorld := stWorld s, stTrace := stTrace s @ [GetBucketEv sampleReq (Inr b)]\<rparr>"
  have get: "apiGetBucket (k8s simEnv) sampleReq (stWorld s) = (Inr b, stWorld s)"
    using assms(3,4) by (simp add: simK8s_def)
  obtain res s1 where res: "run_state (resolveBucketClient simEnv None b) ?s = (Inr res, s1)" "stWorld s1 = stWorld s"
    using sim_resolve_own [of ?s b] assms(1,2) by auto
  from assms(6) [OF res(2), of res] obtain r t evs where t: "run_state (afterResolve 0 simEnv b res) s1 = (r, t)"
    "stTrace t = stTrace s1 @ evs" "\<not> list_ex obstacle evs" "G t" unfolding clearRun_def by blast
  from emitsD [OF resolveBucketClient_emits res(1)] obtain e1 where
    e1: "stTrace s1 = stTrace s @ GetBucketEv sampleReq (Inr b) # e1" "list_all resolveEv e1" by auto
  have "\<not> obstacle e" if "resolveEv e" for e :: "nat event" using that by (auto simp: resolveEv_def)
  with e1(2) have clear: "\<not> list_ex obstacle e1" by (auto simp: list_all_iff list_ex_iff)
  have del: "deleting b \<longrightarrow> hasFinalizer (lib simEnv) b" using assms(5) by simp
  have run: "run_state (Reconcile 0 simEnv None sampleReq) s = (r, t)"
    using t(1) by (simp add: Reconcile_afterResolve [OF get del res(1)])
  then have "emitted (Reconcile 0 simEnv None sampleReq) s = GetBucketEv sampleReq (Inr b) # e1 @ evs"
    by (simp add: emitted_def e1(1) t(2))
  with clear t(3) have "\<not> list_ex obstacle (emitted (Reconcile 0 simEnv None sampleReq) s)" by simp
  moreover have "\<exists>w resolved s1. apiGetBucket (k8s simEnv) sampleReq (stWorld s) = (Inr b, w) \<and>
      run_state (resolveBucketClient simEnv None b) (s\<lparr>stWorld := w, stTrace := stTrace s @ [GetBucketEv sampleReq (Inr b)]\<rparr>) =
        (Inr resolved, s1)" using get res(1) by blast
  ultimately show ?thesis using run t(4) unfolding smoothRun_def by auto
qed

lemma sim_smooth_claim:
  assumes "stWorld s = sampleWorld False freshBucket []"
  shows "\<exists>t. smoothRun 0 simEnv None sampleReq s freshBucket t \<and> stWorld t = sampleWorld False sampleBucket []"
proof (rule sim_smoothI)
  have fresh: "\<not> deleting freshBucket" "\<not> hasFinalizer simLib freshBucket" "Finalizers (bMeta freshBucket) = []"
    by (simp_all add: freshBucket_def sampleMeta_def IsZeroTime_def hasFinalizer_def simLib_def)
  then show "deleting freshBucket \<longrightarrow> hasFinalizer simLib freshBucket" by simp
  fix res and s1 :: "(nat, sim) st"
  assume "stWorld s1 = stWorld s"
  then show "clearRun (afterResolve 0 simEnv freshBucket res) s1 (\<lambda>t. stWorld t = sampleWorld False sampleBucket [])"
    using assms fresh withFinalizer_fresh
    by (simp add: clearRun_def afterResolve_def observe_def simRun isBucketNotFound_def reconcileClaim_def patchFinalizer_def
        withFinalizers_def sampleWorld_def)
qed (use assms in simp_all)

lemma sim_clear_update:
  assumes "simView (stWorld s) = sampleView"
  shows "\<exists>t evs. run_state (update simEnv c sampleBucket) s = (None, t) \<and> stTrace t = stTrace s @ evs \<and>
    \<not> list_ex obstacle evs \<and> simExists (stWorld t) = simExists (stWorld s) \<and> simVisible (stWorld t) = simVisible (stWorld s)"
proof -
  have acl: "flattenObsBucketCannedACL simSdk (Some \<lparr>aclOwnerID = ''owner'', aclGrants = [simOwnerGrant]\<rparr>) = Some ''private''"
    by code_simp
  show ?thesis
    using assms acl
    by (simp add: update_def updateSteps_def stepDefs simRun sampleBucket_def sampleView_def sampleMeta_def
        normalizeStorageClass_def bucketStorageClass_def bucketACL_def desiredTags_def mapsEqual_def obsErrorTests
        obsNoSuchTagSetCode_def loggingMatches_def loggingInput_def encryptionReadTolerated_def tagsAbsentError_def
        obsNoSuchEncryptionConfigCode_def)
qed

lemma sim_smooth_create:
  assumes "stWorld s = sampleWorld False sampleBucket []"
  shows "\<exists>t. smoothRun 0 simEnv None sampleReq s sampleBucket t \<and> True"
proof (rule sim_smoothI)
  show "deleting sampleBucket \<longrightarrow> hasFinalizer simLib sampleBucket" by (simp add: sampleBucket_facts)
  fix res :: "nat ResolvedClient" and s1 :: "(nat, sim) st"
  assume s1: "stWorld s1 = stWorld s"
  let ?c = "rcOBS res"
  obtain s2 where s2: "run_state (observe simEnv ?c sampleBucket) s1 = (Inr \<lparr>obExists = False, obMetadata = None\<rparr>, s2)"
    "stTrace s2 = stTrace s1 @ [ObsEv ?c (RGetBucketMetadata ''data'') (Some (simError 404 ''NoSuchBucket''))]" "stWorld s2 = stWorld s"
    using s1 assms by (simp add: observe_def simRun isBucketNotFound_def)
  obtain s3 where s3: "run_state (create simEnv ?c sampleBucket (rcRegion res)) s2 = (None, s3)"
    "stTrace s3 = stTrace s2 @ [ObsEv ?c (RCreateBucket (createInput simSdk sampleBucket (rcRegion res))) None]"
    "stWorld s3 = sampleWorld True sampleBucket []"
    using s2(3) assms by (simp add: create_def simRun sampleWorld_def)
  obtain s4 e4 where s4: "run_state (update simEnv ?c sampleBucket) s3 = (None, s4)" "stTrace s4 = stTrace s3 @ e4"
    "\<not> list_ex obstacle e4" "simExists (stWorld s4)" "simVisible (stWorld s4)"
    using sim_clear_update [of s3 ?c] s3(3) by auto
  obtain md s5 where s5: "run_state (observe simEnv ?c sampleBucket) s4 = (Inr \<lparr>obExists = True, obMetadata = Some md\<rparr>, s5)"
    "stTrace s5 = stTrace s4 @ [ObsEv ?c (RGetBucketMetadata ''data'') None]"
    using s4(4,5) by (simp add: observe_def simRun)
  obtain t e where t: "run_state (patchStatus simEnv sampleBucket (Some res) None (Some md)) s5 = (None, t)"
    "stTrace t = stTrace s5 @ [e]" "readyEv simLib sampleBucket e"
    using sim_patchStatus_ready by blast
  from emitsD [OF patchStatus_emits t(1)] t(2) have e: "\<not> obstacle e"
    by (auto simp: obstacle_Patch split: option.splits)
  have "run_state (afterResolve 0 simEnv sampleBucket res) s1 = (Some None, t)"
    using s2(1) s3(1) s4(1) s5(1) t(1) sampleBucket_facts
    by (simp add: afterResolve_def reconcileOwned_def reconcileUpdate_def finish_def)
  then show "clearRun (afterResolve 0 simEnv sampleBucket res) s1 (\<lambda>_. True)"
    using s2(2) s3(2) s4(2,3) s5(2) t(2) e unfolding clearRun_def
    by (intro exI [of _ "Some None"] exI [of _ t]) (simp add: isBucketNotFound_def simError_def)
qed (use assms in simp_all)

section \<open>Progress over several reconciliations\<close>



text \<open>
  C12. Deletion completes. When a reconciliation of a Bucket that is being deleted and carries the
  finalizer meets no obstacle, the finalizer is given up and the OBS bucket does not exist any more.
\<close>

theorem deletion_completes:
  assumes "ownershipLaws E req tracked present" "factoryKeeps R tracked" "factoryKeeps R (\<lambda>w. \<not> present w)"
    "setConditionSets (lib E)" "history E R req tracked present s" "smoothRun n E R req s b t"
    "deleting b" "hasFinalizer (lib E) b"
  shows "run_state (Reconcile n E R req) s = (Some None, t) \<and> \<not> present (stWorld t) \<and>
    PatchBucketEv b (withFinalizers b (RemoveFinalizer (lib E) (Finalizers (bMeta b)) bucketFinalizer)) None
      \<in> set (emitted (Reconcile n E R req) s)"
proof -
  from smoothRunE [OF assms(6)] assms(8) obtain w resolved s1 r evs where
    get: "apiGetBucket (k8s E) req (stWorld s) = (Inr b, w)" and
    res: "run_state (resolveBucketClient E R b) (s\<lparr>stWorld := w, stTrace := stTrace s @ [GetBucketEv req (Inr b)]\<rparr>) =
       (Inr resolved, s1)" and
    rec: "run_state (Reconcile n E R req) s = (r, t)" and
    run: "run_state (afterResolve n E b resolved) s1 = (r, t)" and
    tr: "stTrace t = stTrace s1 @ evs" "\<not> list_ex obstacle evs" "\<exists>e1. emitted (Reconcile n E R req) s = e1 @ evs" by metis
  note s = read_owns [OF assms(1) history_owns [OF assms(5,1-3)] get]
  note s1 = resolved_owns [OF assms(1-3) s(1) res]
  obtain ob s2 e1 e2 where o1: "run_state (observe E (rcOBS resolved) b) s1 = (Inr ob, s2)"
    and k: "run_state (if deleting b then reconcileDeletion n E b resolved ob
       else if \<not> hasFinalizer (lib E) b then reconcileClaim E b resolved ob else reconcileOwned E b resolved ob) s2 = (r, t)"
    "stTrace t = stTrace s2 @ e2" "\<not> list_ex obstacle e2" by (rule afterResolveE [OF run tr(1,2)])
  from wp_run [OF owns_observe [OF assms(1) s(2) s1] o1] assms(8)
  have "ownsIn E tracked present True (\<not> obExists ob) s2" by simp
  from deletion_gone [OF assms(1) s(2) this _ k(2,3)] k(1) assms(7) have "\<not> present (stWorld t)" by simp
  moreover from emitsD [OF unhindered_afterResolve [OF assms(4)] run] tr(1,2) assms(7)
  have "r = Some None" "PatchBucketEv b (withFinalizers b (RemoveFinalizer (lib E) (Finalizers (bMeta b)) bucketFinalizer)) None \<in> set evs"
    by (auto simp: progressMade_def)
  ultimately show ?thesis using rec tr(3) by auto
qed



lemma sim_smooth_delete:
  assumes "stWorld s = sampleWorld True deletedBucket []"
  shows "\<exists>t. smoothRun 0 simEnv None sampleReq s deletedBucket t \<and> True"
proof (rule sim_smoothI)
  have fin: "hasFinalizer simLib deletedBucket" "deleting deletedBucket"
    by (simp_all add: deletedBucket_def sampleMeta_def IsZeroTime_def hasFinalizer_def simLib_def)
  then show "deleting deletedBucket \<longrightarrow> hasFinalizer simLib deletedBucket" by simp
  fix res and s1 :: "(nat, sim) st"
  assume "stWorld s1 = stWorld s"
  then show "clearRun (afterResolve 0 simEnv deletedBucket res) s1 (\<lambda>_. True)"
    using assms fin
    by (simp add: clearRun_def afterResolve_def observe_def simRun reconcileDeletion_def BucketLifecycle.delete_def
        patchFinalizer_def)
qed (use assms in simp_all)


theorem deletion_completes_witness:
  "\<exists>t. run_state (Reconcile 0 simEnv None sampleReq) (sampleState (sampleWorld True deletedBucket [])) = (Some None, t) \<and>
     \<not> simPresent (stWorld t)"
proof -
  let ?s = "sampleState (sampleWorld True deletedBucket [])"
  obtain t where t: "smoothRun 0 simEnv None sampleReq ?s deletedBucket t" using sim_smooth_delete [of ?s] by auto
  have fin: "hasFinalizer simLib deletedBucket" "deleting deletedBucket"
    by (simp_all add: deletedBucket_def sampleMeta_def IsZeroTime_def hasFinalizer_def simLib_def)
  have h: "history simEnv None sampleReq simTracked simPresent ?s"
    by (rule history.start) (simp_all add: simTracked_def fin closesBy_def NewCache_def sampleState_def)
  have fac: "factoryKeeps None P" for P :: "sim \<Rightarrow> bool" by (simp add: factoryKeeps_def)
  have "setConditionSets (lib simEnv)" using sim_setConditionSets by simp
  from deletion_completes [OF sim_ownershipLaws fac fac this h t fin(2)] fin(1) show ?thesis by auto
qed

end
