(* ===== verification/Admission.thy ===== *)
theory Admission
  imports BucketAcl BucketLifecycle BucketStatus Endpoint "HOL-Library.Sublist"
begin

text \<open>
  What the API server admits, from the \<open>+kubebuilder\<close> markers on the types of \<open>api/v1alpha1\<close>: default
  values, field validation, and the rules an update has to satisfy. An optional string that is
  absent is the empty string, as \<open>omitempty\<close> makes it. The server fills in the defaults before it
  validates. A transition rule (one that mentions \<open>oldSelf\<close>) on an optional field is evaluated only
  when the field is present before and after the update.
\<close>

section \<open>Buckets\<close>

definition BucketStorageClasses :: "string list" where
  "BucketStorageClasses = [''STANDARD'', ''WARM'', ''COLD'']"

definition BucketACLs :: "string list" where
  "BucketACLs = [''private'', ''public-read'', ''public-read-write'', ''log-delivery-write'']"

text \<open>The pattern \<open>^[a-z0-9][a-z0-9-]{1,61}[a-z0-9]$\<close> of the Bucket's name.\<close>

definition lowerAlnum :: "char \<Rightarrow> bool" where
  "lowerAlnum c \<longleftrightarrow> isLower c \<or> isDigit c"

definition matchesBucketName :: "string \<Rightarrow> bool" where
  "matchesBucketName s \<longleftrightarrow> 3 \<le> length s \<and> length s \<le> 63 \<and> lowerAlnum (hd s) \<and> lowerAlnum (last s) \<and>
     list_all (\<lambda>c. lowerAlnum c \<or> c = CHR ''-'') s"

definition defaultBucketLogging :: "BucketLoggingSpec \<Rightarrow> BucketLoggingSpec" where
  "defaultBucketLogging l = (if logTargetPrefix l = [] then l\<lparr>logTargetPrefix := ''logs/''\<rparr> else l)"

definition defaultBucketSpec :: "BucketSpec \<Rightarrow> BucketSpec" where
  "defaultBucketSpec spec =
     spec\<lparr>specStorageClass := (if specStorageClass spec = [] then ''STANDARD'' else specStorageClass spec),
          specACL := (if specACL spec = [] then ''private'' else specACL spec),
          specLogging := map_option defaultBucketLogging (specLogging spec)\<rparr>"

definition validBucketSpec :: "BucketSpec \<Rightarrow> bool" where
  "validBucketSpec spec \<longleftrightarrow>
     specProviderConfigRef spec \<noteq> [] \<and> specStorageClass spec \<in> set BucketStorageClasses \<and>
     specACL spec \<in> set BucketACLs \<and>
     (case specLogging spec of None \<Rightarrow> True | Some l \<Rightarrow> logTargetBucket l \<noteq> [] \<and> logTargetPrefix l \<noteq> []) \<and>
     (case specServerSideEncryption spec of None \<Rightarrow> True | Some e \<Rightarrow> sseKMSKeyID e \<noteq> [])"

text \<open>\<open>self == oldSelf\<close> for a required or defaulted field, and for an optional one.\<close>

definition validBucketUpdate :: "BucketSpec \<Rightarrow> BucketSpec \<Rightarrow> bool" where
  "validBucketUpdate old new \<longleftrightarrow> validBucketSpec new \<and>
     specProviderConfigRef new = specProviderConfigRef old \<and> specParallelFS new = specParallelFS old \<and>
     (specEnterpriseProjectID new = [] \<or> specEnterpriseProjectID old = [] \<or>
      specEnterpriseProjectID new = specEnterpriseProjectID old)"

section \<open>ProviderConfigs\<close>

text \<open>The pattern \<open>^[a-z0-9]+(-[a-z0-9]+)*$\<close> of the region.\<close>

definition matchesRegion :: "string \<Rightarrow> bool" where
  "matchesRegion s \<longleftrightarrow> list_all (\<lambda>part. part \<noteq> [] \<and> list_all lowerAlnum part) (Split (CHR ''-'') s)"

text \<open>The pattern \<open>^(https://)?[A-Za-z0-9.-]+(:[0-9]+)?/?$\<close> of the endpoint.\<close>

definition endpointAuthority :: "string \<Rightarrow> string" where
  "endpointAuthority s =
     (let t = (if prefix ''https://'' s then drop 8 s else s)
      in if t \<noteq> [] \<and> last t = CHR ''/'' then butlast t else t)"

definition matchesEndpoint :: "string \<Rightarrow> bool" where
  "matchesEndpoint s \<longleftrightarrow>
     (let a = endpointAuthority s
      in takeWhile hostChar a \<noteq> [] \<and>
         (case dropWhile hostChar a of
            [] \<Rightarrow> True
          | c # ds \<Rightarrow> c = CHR '':'' \<and> ds \<noteq> [] \<and> list_all isDigit ds))"

definition validProviderConfigSpec :: "ProviderConfigSpec \<Rightarrow> bool" where
  "validProviderConfigSpec spec \<longleftrightarrow> matchesRegion (pcsRegion spec) \<and>
     (pcsEndpoint spec = [] \<or> matchesEndpoint (pcsEndpoint spec)) \<and> pcsCredentialsSecretRef spec \<noteq> []"

section \<open>What admitted objects give the controllers\<close>

lemma lowerAlnum_hostChar: "lowerAlnum c \<Longrightarrow> hostChar c"
  by (auto simp: lowerAlnum_def hostChar_def isAlnum_def)

lemma Split_set: "set s \<subseteq> insert c (\<Union>p \<in> set (Split c s). set p)"
proof (induction c s rule: Split.induct)
  case (2 c x xs)
  obtain p ps where "Split c xs = p # ps" using Split_nonempty by (metis neq_Nil_conv)
  with 2 show ?case by (cases "x = c") auto
qed simp

lemma matchesRegion_chars:
  assumes "matchesRegion s"
  shows "list_all hostChar s"
proof -
  have "hostChar c" if "c \<in> set s" for c
    using that assms Split_set [of s "CHR ''-''"] lowerAlnum_hostChar
    by (fastforce simp: matchesRegion_def list_all_iff hostChar_def)
  then show ?thesis by (simp add: list_all_iff)
qed

lemma stripSlash_split: "t = (if t \<noteq> [] \<and> last t = c then butlast t else t) @ (if t \<noteq> [] \<and> last t = c then [c] else [])"
  by (cases t rule: rev_cases) auto

lemma endpointAuthority_split:
  "\<exists>pre \<in> {[], ''https://''}. \<exists>suf \<in> {[], ''/''}. s = pre @ endpointAuthority s @ suf"
proof -
  let ?t = "if prefix ''https://'' s then drop 8 s else s"
  let ?suf = "if ?t \<noteq> [] \<and> last ?t = CHR ''/'' then ''/'' else []"
  have t: "?t = endpointAuthority s @ ?suf"
    unfolding endpointAuthority_def Let_def by (rule stripSlash_split)
  show ?thesis
  proof (cases "prefix ''https://'' s")
    case True
    then have "s = ''https://'' @ ?t" by (auto elim: prefixE)
    also have "?t = endpointAuthority s @ ?suf" by (rule t)
    finally show ?thesis by (intro bexI [of _ "''https://''"] bexI [of _ ?suf]) simp_all
  next
    case False
    then have "s = [] @ endpointAuthority s @ ?suf" using t by simp
    then show ?thesis by (intro bexI [of _ "[]"] bexI [of _ ?suf]) simp_all
  qed
qed

lemma matchesEndpoint_admitted:
  assumes "matchesEndpoint s"
  shows "admittedEndpoint (takeWhile hostChar (endpointAuthority s)) (dropWhile hostChar (endpointAuthority s)) s"
proof -
  let ?a = "endpointAuthority s"
  have "portText (dropWhile hostChar ?a)" "takeWhile hostChar ?a \<noteq> []"
    using assms by (auto simp: matchesEndpoint_def portText_def Let_def split: list.splits)
  moreover have "list_all hostChar (takeWhile hostChar ?a)"
    by (auto simp: list_all_iff dest: set_takeWhileD)
  moreover have "\<exists>pre \<in> {[], ''https://''}. \<exists>suf \<in> {[], ''/''}.
      s = pre @ takeWhile hostChar ?a @ dropWhile hostChar ?a @ suf"
    using endpointAuthority_split [of s] by (metis append.assoc takeWhile_dropWhile_id)
  ultimately show ?thesis unfolding admittedEndpoint_def by blast
qed

text \<open>And nothing else is admitted: the function is the pattern.\<close>

lemma endpointAuthority_parts:
  assumes "host \<noteq> []" "list_all hostChar host" "portText port" "pre = [] \<or> pre = ''https://''" "suf = [] \<or> suf = ''/''"
  shows "endpointAuthority (pre @ host @ port @ suf) = host @ port"
proof -
  have "\<not> Contains (host @ port @ suf) ''://''" by (rule no_scheme_separator [OF assms(2,3,5)])
  then have "\<not> prefix ''https://'' (host @ port @ suf)"
    using Contains_https by (metis prefixE)
  then have t: "(if prefix ''https://'' (pre @ host @ port @ suf) then drop 8 (pre @ host @ port @ suf)
      else pre @ host @ port @ suf) = host @ port @ suf"
    using assms(4) by auto
  have "last (host @ port) \<in> set (host @ port)" using assms(1) by (intro last_in_set) simp
  then have "last (host @ port) \<noteq> CHR ''/''"
    using hostPort_chars [OF assms(2,3)] unfolding list_all_iff by blast
  with assms(1,5) show ?thesis unfolding endpointAuthority_def t Let_def by (auto simp: butlast_append)
qed

lemma matchesEndpoint_iff: "matchesEndpoint s \<longleftrightarrow> (\<exists>host port. admittedEndpoint host port s)"
proof
  assume "matchesEndpoint s"
  from matchesEndpoint_admitted [OF this] show "\<exists>host port. admittedEndpoint host port s" by blast
next
  assume "\<exists>host port. admittedEndpoint host port s"
  then obtain host port pre suf where h: "host \<noteq> []" "list_all hostChar host" "portText port"
    and s: "pre = [] \<or> pre = ''https://''" "suf = [] \<or> suf = ''/''" "s = pre @ host @ port @ suf"
    unfolding admittedEndpoint_def by blast
  have a: "endpointAuthority s = host @ port" unfolding s(3) by (rule endpointAuthority_parts [OF h s(1,2)])
  have all: "\<forall>c \<in> set host. hostChar c" using h(2) by (simp add: list_all_iff)
  have "\<not> hostChar (CHR '':'')" using hostChar_not_sep by blast
  with h(3) have port: "takeWhile hostChar port = []" "dropWhile hostChar port = port"
    by (auto simp: portText_def)
  have "takeWhile hostChar (host @ port) = host" "dropWhile hostChar (host @ port) = port"
    using all port by simp_all
  with h(1,3) a show "matchesEndpoint s"
    by (auto simp: matchesEndpoint_def portText_def)
qed

text \<open>The domain name of an admitted Bucket in an admitted region is a host name.\<close>

lemma bucketDomainName_host:
  assumes "matchesBucketName nm" "matchesRegion region"
  shows "list_all hostChar (bucketDomainName nm region)"
proof -
  have "hostChar (CHR ''-'')" by (simp add: hostChar_def)
  then have nm: "list_all hostChar nm"
    using assms(1) lowerAlnum_hostChar by (auto simp: matchesBucketName_def list_all_iff)
  have lit: "list_all hostChar ''.obs.''" "list_all hostChar ''.otc.t-systems.com''" by code_simp+
  show ?thesis
    unfolding bucketDomainName_def list_all_append using nm matchesRegion_chars [OF assms(2)] lit by simp
qed

section \<open>Defaults and updates\<close>

text \<open>The controller's fallbacks for absent fields are the CRD's defaults.\<close>

lemma default_createInput:
  assumes "sdkDocumented K"
  shows "createInput K (b\<lparr>bSpec := defaultBucketSpec (bSpec b)\<rparr>) region = createInput K b region"
  using assms
  by (simp add: createInput_def bucketACL_def bucketStorageClass_def defaultBucketSpec_def sdkDocumented_def)

lemma valid_canned:
  assumes "sdkDocumented K" "validBucketSpec (bSpec b)"
  shows "cannedSignatures K owner (bucketACL K b) \<noteq> None"
  using assms
  by (auto simp: validBucketSpec_def BucketACLs_def bucketACL_def cannedSignatures_def sdkDocumented_def)

lemma updates_keep:
  "validBucketUpdate\<^sup>*\<^sup>* old new \<Longrightarrow>
     specProviderConfigRef new = specProviderConfigRef old \<and> specParallelFS new = specParallelFS old"
  by (induction rule: rtranclp_induct) (auto simp: validBucketUpdate_def)

end
