(* ===== verification/SettingsTheorems.thy ===== *)
theory SettingsTheorems
  imports Simulation Admission
begin

text \<open>
  What the operations on the OBS bucket guarantee: creating it, bringing its settings to the spec,
  deleting and emptying it, and how their errors and outcomes are reported in the status.
\<close>

text \<open>A simulated OBS bucket whose settings are those of the sample spec.\<close>

definition convergedWorld :: sim where
  "convergedWorld = (sampleWorld True sampleBucket [])\<lparr>simView := sampleView\<lparr>svVersioning := ''Enabled'',
     svTags := [\<lparr>tagKey = ''env'', tagValue = ''prod''\<rparr>]\<rparr>\<rparr>"

lemma sim_converged: "converged simSdk sampleBucket (simView convergedWorld)"
proof -
  have acl: "flattenObsBucketCannedACL simSdk (Some \<lparr>aclOwnerID = ''owner'', aclGrants = [simOwnerGrant]\<rparr>) = Some ''private''"
    by code_simp
  show ?thesis
    using acl
    by (simp add: converged_def convergedWorld_def sampleView_def sampleBucket_def sampleMeta_def simSdk_def
        wantStorageClass_def wantAcl_def wantVersioning_def wantTags_def wantLogging_def wantEncryption_def
        normalizeStorageClass_def bucketStorageClass_def bucketACL_def desiredTags_def loggingMatches_def
        loggingInput_def tagsToMap_def mapsEqual_def)
qed

section \<open>Settings\<close>

text \<open>
  C10. A successful update leaves the six settings of the OBS bucket as the spec wants them, given
  that OBS reads and writes behave as documented and the SDK's constants are different.
\<close>

theorem update_converges:
  assumes "sdkDocumented (sdk E)" "obsReads E c (bucketName b) view" "obsWrites E c (bucketName b) view"
    "gomap_wf (desiredTags b)" "run_state (update E c b) s = (None, t)"
  shows "converged (sdk E) b (view (stWorld t))"
  using assms by (rule update_establishes)

theorem update_converges_witness:
  "\<exists>t. run_state (update simEnv (Some 1) sampleBucket) (sampleState (sampleWorld True sampleBucket [])) = (None, t) \<and>
     converged simSdk sampleBucket (simView (stWorld t))"
proof -
  let ?s = "sampleState (sampleWorld True sampleBucket [])"
  obtain t where t: "run_state (update simEnv (Some 1) sampleBucket) ?s = (None, t)"
    using sim_update [of ?s] by auto
  have wf: "gomap_wf (desiredTags sampleBucket)" using sample_wellFormed by (simp add: wellFormedBucket_def)
  from update_converges [OF sim_sdkDocumented sim_obsReads sim_obsWrites wf t] t show ?thesis by auto
qed

text \<open>
  C11. An update of a bucket whose settings are already as the spec wants them sends read requests
  only: repeated reconciliations do not write.
\<close>

theorem update_idempotent:
  assumes "obsReads E c (bucketName b) view" "converged (sdk E) b (view (stWorld s))"
    "gomap_wf (desiredTags b)" "run_state (update E c b) s = (x, t)"
  shows "\<exists>evs. stTrace t = stTrace s @ evs \<and> list_all (\<lambda>e. \<exists>c q r. e = ObsEv c q r \<and> readOnlyReq q) evs \<and>
    view (stWorld t) = view (stWorld s)"
  using update_noop [OF assms] by (simp add: onlyReads_def)


theorem update_idempotent_witness:
  "\<exists>x t evs. run_state (update simEnv (Some 1) sampleBucket) (sampleState convergedWorld) = (x, t) \<and>
     stTrace t = evs \<and> list_all (\<lambda>e. \<exists>c q r. e = ObsEv c q r \<and> readOnlyReq q) evs \<and>
     simView (stWorld t) = simView convergedWorld"
proof -
  obtain x t where t: "run_state (update simEnv (Some 1) sampleBucket) (sampleState convergedWorld) = (x, t)"
    by fastforce
  have wf: "gomap_wf (desiredTags sampleBucket)" using sample_wellFormed by (simp add: wellFormedBucket_def)
  have conv: "converged (sdk simEnv) sampleBucket (simView (stWorld (sampleState convergedWorld)))"
    by (simp add: sim_converged)
  from update_idempotent [OF sim_obsReads conv wf t] t show ?thesis by auto
qed

text \<open>
  An update handles the settings one after the other in the order storage class, ACL,
  versioning, tags, logging, encryption, each with one read and at most one write of this setting
  of this bucket. Without an error it handles all six; with an error it stops at the failed
  request, whose error it wraps.
\<close>

lemma update_requests:
  "\<exists>blocks. emitted (update E c b) s = concat blocks \<and>
     list_all2 (stepTrace c (bucketName b)) (take (length blocks) settingOrder) blocks \<and>
     (case fst (run_state (update E c b) s) of
        None \<Rightarrow> length blocks = 6
      | Some err \<Rightarrow> blocks \<noteq> [] \<and> length blocks \<le> 6 \<and> lastFailure (last blocks) err)"
  using emits_emitted [OF update_emits, of E c b s]
  by (auto simp: settingOrder_def split: option.splits)

section \<open>Creating and deleting\<close>

text \<open>
  Creating sends one request with the name, canned ACL, storage class, file system flag and
  enterprise project of the spec and the region of the provider. It succeeds exactly when OBS
  accepts the request, and a conflict is reported as an existing bucket.
\<close>

lemma create_outcome:
  "\<exists>x. emitted (create E c b region) s = [ObsEv c (RCreateBucket
       \<lparr>cbBucket = bucketName b, cbACL = bucketACL (sdk E) b, cbIsFSFileInterface = specParallelFS (bSpec b),
        cbStorageClass = bucketStorageClass (sdk E) b, cbEpid = specEnterpriseProjectID (bSpec b),
        cbLocation = region\<rparr>) x] \<and>
     (case (fst (run_state (create E c b region) s), x) of
        (None, None) \<Rightarrow> True
      | (Some err, Some e) \<Rightarrow>
          if isCreateBucketConflict e then errorsIs err ErrBucketAlreadyExists else \<exists>p. err = wrapf p e
      | _ \<Rightarrow> False)"
  using emits_emitted [OF create_emits, of E c b region s]
  by (cases "fst (run_state (create E c b region) s)") (auto simp: createInput_def)

text \<open>
  C16. Deleting asks OBS to delete the bucket first. It lists and deletes objects only when that
  failed because the bucket is not empty and the spec sets forceDestroy, and it succeeds only when
  the last answer of OBS is that the bucket is deleted or does not exist.
\<close>

theorem delete_requests:
  "deleteTrace c b (emitted (BucketLifecycle.delete n E c b) s) \<and>
   (case fst (run_state (BucketLifecycle.delete n E c b) s) of
      Some None \<Rightarrow> bucketGoneEv c (bucketName b) (last (emitted (BucketLifecycle.delete n E c b) s))
    | _ \<Rightarrow> True)"
  using emits_emitted [OF delete_emits [of n E c b], of s]
  by (auto split: option.splits)

text \<open>
  C17. Emptying a bucket ends after at most as many rounds as the bucket has object versions, plus
  one, and when it ends without an error the bucket is empty, given that listing and deleting
  versions behave as documented.
\<close>

theorem empty_bucket:
  assumes "versionsLaw E c nm objs" "finite (objs (stWorld s))" "card (objs (stWorld s)) < n"
  shows "\<exists>r t. run_state (deleteAllBucketObjects n E c nm) s = (Some r, t) \<and>
    (case r of None \<Rightarrow> objs (stWorld t) = {} | Some _ \<Rightarrow> True)"
proof -
  obtain r t where "run_state (deleteAllBucketObjects n E c nm) s = (Some r, t)" "r = None \<longrightarrow> objs (stWorld t) = {}"
    using emptyBucket_terminates [OF assms] by blast
  then show ?thesis by (intro exI [of _ r] exI [of _ t]) (auto split: option.splits)
qed

theorem empty_bucket_witness:
  "\<exists>r t. run_state (deleteAllBucketObjects 2 simEnv (Some 1) ''data'')
     (sampleState (sampleWorld True deletedBucket [sampleObject])) = (Some r, t) \<and>
     (case r of None \<Rightarrow> set (simObjects (stWorld t)) = {} | Some _ \<Rightarrow> True)"
  by (rule empty_bucket [OF sim_versionsLaw]) simp_all

section \<open>Admitted Buckets\<close>

text \<open>
  C28. The create request for a Bucket is the same before and after the API server filled in the
  defaults, and for a Bucket it then admits the request has a storage class of OBS and a canned ACL
  that can be recognised when it is read back.
\<close>

theorem admitted_create:
  assumes "sdkDocumented K"
  shows "createInput K (b\<lparr>bSpec := defaultBucketSpec (bSpec b)\<rparr>) region = createInput K b region \<and>
    (validBucketSpec (defaultBucketSpec (bSpec b)) \<longrightarrow>
       cbStorageClass (createInput K b region) \<in> {StorageClassStandard K, StorageClassWarm K, StorageClassCold K} \<and>
       (\<exists>sigs. cannedSignatures K owner (cbACL (createInput K b region)) = Some sigs))"
  using default_createInput [OF assms, of b region]
    valid_canned [OF assms, of "b\<lparr>bSpec := defaultBucketSpec (bSpec b)\<rparr>" owner] assms
  by (auto simp: createInput_def validBucketSpec_def BucketStorageClasses_def sdkDocumented_def bucketStorageClass_def
      bucketACL_def defaultBucketSpec_def split: if_splits)

theorem admitted_create_witness:
  "cbStorageClass (createInput simSdk sampleBucket ''eu-de'') \<in> {''STANDARD'', ''WARM'', ''COLD''} \<and>
   (\<exists>sigs. cannedSignatures simSdk ''owner'' (cbACL (createInput simSdk sampleBucket ''eu-de'')) = Some sigs)"
proof -
  have "validBucketSpec (defaultBucketSpec (bSpec sampleBucket))"
    by (simp add: validBucketSpec_def defaultBucketSpec_def sampleBucket_def BucketStorageClasses_def BucketACLs_def)
  moreover have "sdkDocumented simSdk" using sim_sdkDocumented by simp
  ultimately show ?thesis
    using admitted_create [of simSdk sampleBucket "''eu-de''" "''owner''"] by (simp add: simSdk_def)
qed


definition sampleSpec :: "string \<Rightarrow> BucketSpec" where
  "sampleSpec epid = (defaultBucketSpec (bSpec sampleBucket))\<lparr>specEnterpriseProjectID := epid\<rparr>"

lemma sampleSpec_updates: "validBucketUpdate\<^sup>*\<^sup>* (sampleSpec ''a'') (sampleSpec ''b'')"
proof -
  have valid: "validBucketSpec (sampleSpec e)" for e
    by (simp add: sampleSpec_def validBucketSpec_def defaultBucketSpec_def sampleBucket_def BucketStorageClasses_def
        BucketACLs_def)
  have "validBucketUpdate (sampleSpec ''a'') (sampleSpec [])" "validBucketUpdate (sampleSpec []) (sampleSpec ''b'')"
    using valid by (simp_all add: validBucketUpdate_def sampleSpec_def)
  then show ?thesis by auto
qed



section \<open>ACLs and tags\<close>

text \<open>
  C27. The canned ACL read back from the grants of a bucket is the one whose grants they are: a
  name is recognised exactly when the bucket has an owner and its grants are those of the canned
  ACL of that name, in any order, and no more.
\<close>

theorem acl_recognised:
  assumes "sdkDocumented K"
  shows "flattenObsBucketCannedACL K (Some out) = Some acl \<longleftrightarrow>
    aclOwnerID out \<noteq> [] \<and> (\<exists>sigs. cannedSignatures K (aclOwnerID out) acl = Some sigs \<and>
      length (aclGrants out) = length sigs \<and> grantSignature K ` set (aclGrants out) = set sigs)"
proof -
  have "obsBucketACLMatches K (aclGrants out) sigs \<longleftrightarrow>
      length (aclGrants out) = length sigs \<and> grantSignature K ` set (aclGrants out) = set sigs"
    if "cannedSignatures K (aclOwnerID out) acl = Some sigs" for sigs
    using obsBucketACLMatches_iff [OF cannedSignatures_distinct [OF assms that]] by simp
  then show ?thesis
    using flatten_sound [OF assms] flatten_complete [OF assms] by meson
qed

theorem acl_recognised_witness:
  "flattenObsBucketCannedACL simSdk (Some \<lparr>aclOwnerID = ''owner'',
     aclGrants = [simGroupGrant ''AllUsers'' ''READ'', simOwnerGrant]\<rparr>) = Some ''public-read''"
proof -
  let ?out = "\<lparr>aclOwnerID = ''owner'', aclGrants = [simGroupGrant ''AllUsers'' ''READ'', simOwnerGrant]\<rparr>"
  have "cannedSignatures simSdk (aclOwnerID ?out) ''public-read'' =
      Some [ownerGrant simSdk ''owner'', groupGrant simSdk ''AllUsers'' ''READ'']"
    by (simp add: cannedSignatures_def simSdk_def)
  moreover have "grantSignature simSdk ` set (aclGrants ?out) =
      set [ownerGrant simSdk ''owner'', groupGrant simSdk ''AllUsers'' ''READ'']"
    by (auto simp: grantSignature_def simOwnerGrant_def simGroupGrant_def ownerGrant_def groupGrant_def simSdk_def
        normalizeObsBucketGrantURI_def)
  ultimately show ?thesis
    using acl_recognised [OF sim_sdkDocumented, of ?out "''public-read''"] by simp
qed

section \<open>Errors\<close>


section \<open>Status\<close>

lemma sim_status_patch:
  "\<exists>m x. PatchBucketStatusEv sampleBucket m x \<in>
     set (emitted (patchStatus simEnv sampleBucket None None None) (sampleState (sampleWorld True sampleBucket [])))"
proof -
  let ?s = "sampleState (sampleWorld True sampleBucket [])"
  obtain t e where t: "run_state (patchStatus simEnv sampleBucket None None None) ?s = (None, t)"
    "stTrace t = stTrace ?s @ [e]" "readyEv simLib sampleBucket e"
    using sim_patchStatus_ready by blast
  then have "emitted (patchStatus simEnv sampleBucket None None None) ?s = [e]" by (simp add: emitted_def)
  with emits_emitted [OF patchStatus_emits, of simEnv sampleBucket None None None ?s] show ?thesis by auto
qed

text \<open>
  C30. What a status patch says: it leaves metadata and spec alone and stores the generation it
  observed, the time, the Ready condition of the outcome and, with a resolved provider, its region
  and the domain name of the bucket in it.
\<close>

theorem status_reports:
  assumes "setConditionSets (lib E)"
    "PatchBucketStatusEv orig m x \<in> set (emitted (patchStatus E b resolved err md) s)"
  shows "orig = b \<and> bMeta m = bMeta b \<and> bSpec m = bSpec b \<and>
    stObservedGeneration (bStatus m) = Generation (bMeta b) \<and> stLastSyncTime (bStatus m) \<noteq> None \<and>
    conditionHolds (stConditions (bStatus m)) (bucketReadyStatusCondition (lib E) b err) \<and>
    (case resolved of
       None \<Rightarrow> stRegion (bStatus m) = stRegion (bStatus b)
     | Some r \<Rightarrow> stRegion (bStatus m) = rcRegion r \<and>
         stBucketDomainName (bStatus m) = bucketDomainName (bucketName b) (rcRegion r))"
proof -
  have "orig = b" and p: "statusPatch (lib E) b resolved (bucketReadyStatusCondition (lib E) b err) md m"
    using emits_emitted [OF patchStatus_emits, of E b resolved err md s] assms(2) by auto
  then show ?thesis
    using statusPatch_fields [OF assms(1) p]
    by (auto simp: statusPatch_def nextBucketStatus_def Let_def split: option.splits)
qed

theorem status_reports_witness:
  "\<exists>m x. PatchBucketStatusEv sampleBucket m x \<in>
       set (emitted (patchStatus simEnv sampleBucket None None None) (sampleState (sampleWorld True sampleBucket []))) \<and>
     stObservedGeneration (bStatus m) = 2 \<and>
     conditionHolds (stConditions (bStatus m)) (bucketReadyStatusCondition simLib sampleBucket None)"
proof -
  obtain m x where ev: "PatchBucketStatusEv sampleBucket m x \<in>
      set (emitted (patchStatus simEnv sampleBucket None None None) (sampleState (sampleWorld True sampleBucket [])))"
    using sim_status_patch by blast
  have sets: "setConditionSets (lib simEnv)" by (simp add: sim_setConditionSets)
  from status_reports [OF sets ev] ev show ?thesis
    by (intro exI [of _ m] exI [of _ x]) (simp add: sampleBucket_def sampleMeta_def)
qed

text \<open>
  C31. Reporting the same outcome for the patched Bucket again sends no patch: the controller does
  not rewrite a status that already says it.
\<close>

theorem status_settles:
  assumes "setConditionStable (lib E)"
    "PatchBucketStatusEv b m x \<in> set (emitted (patchStatus E b resolved err md) s)"
  shows "emitted (patchStatus E m resolved err md) s' = []"
proof -
  have p: "statusPatch (lib E) b resolved (bucketReadyStatusCondition (lib E) b err) md m"
    using emits_emitted [OF patchStatus_emits, of E b resolved err md s] assms(2) by auto
  have cond: "bucketReadyStatusCondition (lib E) m err = bucketReadyStatusCondition (lib E) b err"
    using statusPatch_meta [OF p] by (simp add: bucketReadyStatusCondition_def)
  have "emits (patchStatus E m resolved err md) (\<lambda>r evs. evs = [])"
    unfolding patchStatus_def Let_def cond
    by (intro emits_bind emits_mono [OF updateBucketStatus_stable [OF assms(1) p]])
       (auto intro!: emits_intros split: option.splits)
  from emits_emitted [OF this] show ?thesis .
qed

theorem status_settles_witness:
  "\<exists>m. emitted (patchStatus simEnv m None None None) (sampleState (sampleWorld True m [])) = []"
proof -
  obtain m x where ev: "PatchBucketStatusEv sampleBucket m x \<in>
      set (emitted (patchStatus simEnv sampleBucket None None None) (sampleState (sampleWorld True sampleBucket [])))"
    using sim_status_patch by blast
  have stable: "setConditionStable (lib simEnv)" by (simp add: sim_setConditionStable)
  from status_settles [OF stable ev] show ?thesis by (intro exI [of _ m]) simp
qed

end
