(* ===== verification/ConcurrentCache.thy ===== *)
theory ConcurrentCache
  imports ProviderCache
begin

text \<open>
  The cache under concurrency. Reconciliations of different controllers share one cache; each
  operation has one critical section under the mutex, and builds and closes clients outside it.
  A task is where one caller is between critical sections: \<open>Resolving\<close> before \<open>get\<close>, \<open>Building\<close> after a
  miss, \<open>Storing\<close> with a built client before \<open>set\<close>, \<open>Closing\<close> after the critical section of \<open>set\<close> or
  \<open>InvalidateProvider\<close> while \<open>closeClients\<close> runs, and \<open>Using\<close> the client that was returned. A step of the
  system is one critical section, one build or one close of any task, so every interleaving the
  mutex allows is a run.
\<close>

section \<open>The system\<close>

datatype 'c task =
    Resolving cacheKey
  | Building cacheKey
  | Storing cacheKey "'c option"
  | Invalidating NamespacedName
  | Closing "'c option list" "(cacheKey \<times> 'c ResolvedClient) option"
  | Using cacheKey "'c ResolvedClient"

record ('c, 'w) cacheSystem =
  csCache :: "('c, 'w) Cache"
  csTasks :: "'c task multiset"
  csBuilt :: "(cacheKey \<times> 'c option) list" \<comment> \<open>what the factory returned, for which key\<close>
  csClosed :: "'c multiset"

text \<open>A step of a task: the task that takes it, and the tasks, cache, builds and closes after it.\<close>

inductive taskStep :: "('c, 'w) cacheSystem \<Rightarrow> ('c, 'w) cacheSystem \<Rightarrow> bool" where
  get_hit: "csTasks s = add_mset (Resolving key) M \<Longrightarrow> getLocked (csCache s) key = Some r \<Longrightarrow>
    taskStep s (s\<lparr>csTasks := add_mset (Using key (r\<lparr>rcFromCache := True\<rparr>)) M\<rparr>)"
| get_miss: "csTasks s = add_mset (Resolving key) M \<Longrightarrow> getLocked (csCache s) key = None \<Longrightarrow>
    taskStep s (s\<lparr>csTasks := add_mset (Building key) M\<rparr>)"
| build: "csTasks s = add_mset (Building key) M \<Longrightarrow>
    taskStep s (s\<lparr>csTasks := add_mset (Storing key client) M, csBuilt := csBuilt s @ [(key, client)]\<rparr>)"
| build_error: "csTasks s = add_mset (Building key) M \<Longrightarrow> taskStep s (s\<lparr>csTasks := M\<rparr>)"
| set: "csTasks s = add_mset (Storing key client) M \<Longrightarrow> setLocked (csCache s) key client = (cache', r, cl) \<Longrightarrow>
    taskStep s (s\<lparr>csCache := cache', csTasks := add_mset (Closing cl (Some (key, r))) M\<rparr>)"
| invalidate: "csTasks s = add_mset (Invalidating n) M \<Longrightarrow> invalidateLocked (csCache s) n = (cache', cl) \<Longrightarrow>
    taskStep s (s\<lparr>csCache := cache', csTasks := add_mset (Closing cl None) M\<rparr>)"
| close: "csTasks s = add_mset (Closing (c # cl) r) M \<Longrightarrow>
    taskStep s (s\<lparr>csTasks := add_mset (Closing cl r) M, csClosed := csClosed s + clientOf c\<rparr>)"
| resolved: "csTasks s = add_mset (Closing [] (Some (key, r))) M \<Longrightarrow>
    taskStep s (s\<lparr>csTasks := add_mset (Using key r) M\<rparr>)"
| invalidated: "csTasks s = add_mset (Closing [] None) M \<Longrightarrow> taskStep s (s\<lparr>csTasks := M\<rparr>)"
| finished: "csTasks s = add_mset (Using key r) M \<Longrightarrow> taskStep s (s\<lparr>csTasks := M\<rparr>)"

inductive callStep :: "('c, 'w) cacheSystem \<Rightarrow> ('c, 'w) cacheSystem \<Rightarrow> bool" where
  resolve: "callStep s (s\<lparr>csTasks := add_mset (Resolving key) (csTasks s)\<rparr>)"
| drop_provider: "callStep s (s\<lparr>csTasks := add_mset (Invalidating n) (csTasks s)\<rparr>)"

definition newSystem :: "('c, 'w) env \<Rightarrow> ('c, 'w) cacheSystem" where
  "newSystem E = \<lparr>csCache = NewCache E, csTasks = {#}, csBuilt = [], csClosed = {#}\<rparr>"

inductive reachableSystem :: "('c, 'w) env \<Rightarrow> ('c, 'w) cacheSystem \<Rightarrow> bool" for E where
  start: "reachableSystem E (newSystem E)"
| call: "reachableSystem E s \<Longrightarrow> callStep s t \<Longrightarrow> reachableSystem E t"
| task: "reachableSystem E s \<Longrightarrow> taskStep s t \<Longrightarrow> reachableSystem E t"

inductive_cases callStepE: "callStep s t"
inductive_cases taskStepE: "taskStep s t"

section \<open>No client is lost, none is closed twice\<close>

fun heldBy :: "'c task \<Rightarrow> 'c multiset" where
  "heldBy (Storing key c) = clientOf c"
| "heldBy (Closing cl r) = clientsOf cl"
| "heldBy _ = {#}"

definition builtClients :: "('c, 'w) cacheSystem \<Rightarrow> 'c multiset" where
  "builtClients s = clientsOf (map snd (csBuilt s))"

definition systemLedger :: "('c, 'w) cacheSystem \<Rightarrow> bool" where
  "systemLedger s \<longleftrightarrow> cacheOk (csCache s) \<and>
     builtClients s = csClosed s + liveClients (csCache s) + (\<Sum>t \<in># csTasks s. heldBy t)"

lemma regroup: "(a :: 'a multiset) + b = c + d \<Longrightarrow> x + c + (d + y) = x + a + (b + y)"
  by (simp only: add.assoc [symmetric]) (simp add: add.assoc)

lemma systemLedger_new: "systemLedger (newSystem E)"
  by (simp add: systemLedger_def newSystem_def builtClients_def cacheOk_NewCache)
     (simp add: NewCache_def liveClients_def)

lemma systemLedger_call: "callStep s t \<Longrightarrow> systemLedger s \<Longrightarrow> systemLedger t"
  by (erule callStep.cases) (auto simp: systemLedger_def builtClients_def)

lemma clientsOf_append [simp]: "clientsOf (xs @ ys) = clientsOf xs + clientsOf ys"
  by (simp add: clientsOf_def)

lemma systemLedger_task: "taskStep s t \<Longrightarrow> systemLedger s \<Longrightarrow> systemLedger t"
proof (induction rule: taskStep.induct)
  case (set s key client M cache' r cl)
  from set(3) have ok: "cacheOk (csCache s)"
    and led: "builtClients s = csClosed s + liveClients (csCache s) + (clientOf client + (\<Sum>t \<in># M. heldBy t))"
    by (simp_all add: systemLedger_def set(1))
  show ?case
    using cacheOk_setLocked [OF ok set(2)] led regroup [OF setLocked_clients [OF set(2)]]
    by (simp add: systemLedger_def builtClients_def)
next
  case (invalidate s n M cache' cl)
  from invalidate(3) have ok: "cacheOk (csCache s)"
    and led: "builtClients s = csClosed s + liveClients (csCache s) + ({#} + (\<Sum>t \<in># M. heldBy t))"
    by (simp_all add: systemLedger_def invalidate(1))
  have "liveClients cache' + clientsOf cl = liveClients (csCache s) + {#}"
    using invalidateLocked_clients [OF ok invalidate(2)] by simp
  from regroup [OF this] show ?case
    using cacheOk_invalidateLocked [OF ok invalidate(2)] led
    by (simp add: systemLedger_def builtClients_def)
qed (simp_all add: systemLedger_def builtClients_def add.assoc add.commute add.left_commute)

lemma reachable_ledger: "reachableSystem E s \<Longrightarrow> systemLedger s"
  by (induction rule: reachableSystem.induct) (auto intro: systemLedger_new systemLedger_call systemLedger_task)

section \<open>Every client in use was built for its key\<close>

definition taskOk :: "(cacheKey \<times> 'c option) list \<Rightarrow> 'c task \<Rightarrow> bool" where
  "taskOk built t \<longleftrightarrow>
     (case t of
        Storing key c \<Rightarrow> (key, c) \<in> set built
      | Closing cl (Some (key, r)) \<Rightarrow> (key, rcOBS r) \<in> set built \<and> rcRegion r = ckRegion key \<and> rcEndpoint r = ckEndpoint key
      | Using key r \<Rightarrow> (key, rcOBS r) \<in> set built \<and> rcRegion r = ckRegion key \<and> rcEndpoint r = ckEndpoint key
      | _ \<Rightarrow> True)"

definition systemProvenance :: "('c, 'w) cacheSystem \<Rightarrow> bool" where
  "systemProvenance s \<longleftrightarrow> cacheOk (csCache s) \<and> (\<forall>t \<in># csTasks s. taskOk (csBuilt s) t) \<and>
     (\<forall>n key c. absCache (csCache s) n = Some (key, c) \<longrightarrow> (key, c) \<in> set (csBuilt s))"

lemma taskOk_more: "taskOk built t \<Longrightarrow> taskOk (built @ new) t"
  by (auto simp: taskOk_def split: task.splits option.splits)

lemma taskOk_new: "taskOk built (Using key (newResolvedClient key c)) \<longleftrightarrow> (key, c) \<in> set built"
  by (simp add: taskOk_def newResolvedClient_def)

lemma provenance_call: "callStep s t \<Longrightarrow> systemProvenance s \<Longrightarrow> systemProvenance t"
  by (erule callStep.cases) (auto simp: systemProvenance_def taskOk_def)

lemma provenance_task: "taskStep s t \<Longrightarrow> systemProvenance s \<Longrightarrow> systemProvenance t"
proof (induction rule: taskStep.induct)
  case (get_hit s key M r)
  then have ok: "cacheOk (csCache s)" by (simp add: systemProvenance_def)
  obtain c where c: "absCache (csCache s) (ckProviderConfig key) = Some (key, c)" "r = newResolvedClient key c"
    using get_hit(2) by (auto simp: getLocked_abs [OF ok] split: option.splits if_splits)
  with get_hit show ?case
    by (auto simp: systemProvenance_def taskOk_def newResolvedClient_def)
next
  case (build s key M client)
  then show ?case by (auto simp: systemProvenance_def taskOk_more) (simp add: taskOk_def)
next
  case (set s key client M cache' r cl)
  then have ok: "cacheOk (csCache s)" and b: "(key, client) \<in> set (csBuilt s)"
    by (simp_all add: systemProvenance_def taskOk_def)
  have abs: "\<forall>n k c. absCache (csCache s) n = Some (k, c) \<longrightarrow> (k, c) \<in> set (csBuilt s)"
    using set(3) by (simp add: systemProvenance_def)
  have new: "(\<forall>n k c. absCache cache' n = Some (k, c) \<longrightarrow> (k, c) \<in> set (csBuilt s)) \<and>
      taskOk (csBuilt s) (Closing cl (Some (key, r)))"
    using setLocked_abs [OF ok set(2)] b abs
    by (auto simp: taskOk_def newResolvedClient_def split: option.splits if_splits)
  with set cacheOk_setLocked [OF ok set(2)] show ?case by (simp add: systemProvenance_def)
next
  case (invalidate s n M cache' cl)
  then have ok: "cacheOk (csCache s)" by (simp add: systemProvenance_def)
  with invalidate cacheOk_invalidateLocked [OF ok invalidate(2)] invalidateLocked_abs [OF ok invalidate(2)]
  show ?case by (auto simp: systemProvenance_def taskOk_def split: if_splits)
qed (auto simp: systemProvenance_def taskOk_def split: option.splits)

lemma reachable_provenance: "reachableSystem E s \<Longrightarrow> systemProvenance s"
proof (induction rule: reachableSystem.induct)
  case start
  show ?case by (simp add: systemProvenance_def newSystem_def cacheOk_NewCache absCache_NewCache)
qed (auto intro: provenance_call provenance_task)

section \<open>Tasks finish\<close>

fun taskWork :: "'c task \<Rightarrow> nat" where
  "taskWork (Resolving key) = 6"
| "taskWork (Building key) = 5"
| "taskWork (Storing key c) = 4"
| "taskWork (Invalidating n) = 4"
| "taskWork (Closing cl r) = 2 + length cl"
| "taskWork (Using key r) = 1"

definition systemWork :: "('c, 'w) cacheSystem \<Rightarrow> nat" where
  "systemWork s = (\<Sum>t \<in># csTasks s. taskWork t)"

lemma setLocked_closes: "setLocked cache key client = (cache', r, cl) \<Longrightarrow> length cl \<le> 1"
  by (auto simp: setLocked_def Let_def split: option.splits if_splits)

lemma invalidateLocked_closes: "invalidateLocked cache n = (cache', cl) \<Longrightarrow> length cl \<le> 1"
  by (auto simp: invalidateLocked_def split: option.splits)

lemma taskStep_work: "taskStep s t \<Longrightarrow> systemWork t < systemWork s"
  by (induction rule: taskStep.induct) (auto simp: systemWork_def dest!: setLocked_closes invalidateLocked_closes)

lemma task_can_step:
  assumes "t \<in># csTasks s"
  shows "\<exists>s'. taskStep s s'"
proof -
  obtain M where M: "csTasks s = add_mset t M" using assms by (metis insert_DiffM)
  show ?thesis
  proof (cases t)
    case (Resolving key)
    with M show ?thesis by (cases "getLocked (csCache s) key") (auto intro: taskStep.intros)
  next
    case (Storing key c)
    obtain cache' r cl where "setLocked (csCache s) key c = (cache', r, cl)" by (metis prod_cases3)
    with M Storing show ?thesis by (auto intro: taskStep.set)
  next
    case (Invalidating n)
    obtain cache' cl where "invalidateLocked (csCache s) n = (cache', cl)" by fastforce
    with M Invalidating show ?thesis by (auto intro: taskStep.invalidate)
  next
    case (Closing cl r)
    with M show ?thesis by (cases cl; cases r) (auto intro: taskStep.intros)
  qed (use M in \<open>auto intro: taskStep.intros\<close>)
qed

section \<open>A run\<close>

text \<open>
  One call resolves a key and uses the client, another invalidates the provider: the system after
  the first has returned, and after the second has closed the client.
\<close>

definition runCache :: "('c, 'w) env \<Rightarrow> cacheKey \<Rightarrow> 'c \<Rightarrow> ('c, 'w) Cache" where
  "runCache E key c = fst (setLocked (NewCache E) key (Some c))"

definition usedSystem :: "('c, 'w) env \<Rightarrow> cacheKey \<Rightarrow> 'c \<Rightarrow> ('c, 'w) cacheSystem" where
  "usedSystem E key c = \<lparr>csCache = runCache E key c, csTasks = {#Using key (newResolvedClient key (Some c))#},
     csBuilt = [(key, Some c)], csClosed = {#}\<rparr>"

definition closedSystem :: "('c, 'w) env \<Rightarrow> cacheKey \<Rightarrow> 'c \<Rightarrow> ('c, 'w) cacheSystem" where
  "closedSystem E key c = (usedSystem E key c)\<lparr>
     csCache := fst (invalidateLocked (runCache E key c) (ckProviderConfig key)),
     csTasks := {#Closing [] None, Using key (newResolvedClient key (Some c))#}, csClosed := {#c#}\<rparr>"

lemma runCache_set: "setLocked (NewCache E) key (Some c) = (runCache E key c, newResolvedClient key (Some c), [])"
  by (simp add: runCache_def setLocked_def NewCache_def Let_def cloneResolvedClient_def)

lemma runCache_invalidate:
  "invalidateLocked (runCache E key c) (ckProviderConfig key) =
     (fst (invalidateLocked (runCache E key c) (ckProviderConfig key)), [Some c])"
  by (simp add: runCache_def setLocked_def NewCache_def Let_def invalidateLocked_def newResolvedClient_def)

lemma usedSystem_reachable: "reachableSystem E (usedSystem E key c)"
proof -
  note call = reachableSystem.call [OF _ callStep.resolve]
  let ?sys = "\<lambda>cache tasks built. \<lparr>csCache = cache, csTasks = tasks, csBuilt = built, csClosed = {#}\<rparr>"
  have "reachableSystem E (?sys (NewCache E) {#Resolving key#} [])"
    using call [OF reachableSystem.start, of E key] by (simp add: newSystem_def)
  then have "reachableSystem E (?sys (NewCache E) {#Building key#} [])"
    using reachableSystem.task [OF _ taskStep.get_miss, of E _ key "{#}"]
    by (fastforce simp: getLocked_def NewCache_def)
  then have "reachableSystem E (?sys (NewCache E) {#Storing key (Some c)#} [(key, Some c)])"
    using reachableSystem.task [OF _ taskStep.build, of E _ key "{#}" "Some c"] by fastforce
  then have "reachableSystem E (?sys (runCache E key c) {#Closing [] (Some (key, newResolvedClient key (Some c)))#}
      [(key, Some c)])"
    using reachableSystem.task [OF _ taskStep.set, of E _ key "Some c" "{#}"] runCache_set [of E key c] by fastforce
  then show ?thesis
    using reachableSystem.task [OF _ taskStep.resolved, of E _ key _ "{#}"]
    unfolding usedSystem_def by fastforce
qed

lemma closedSystem_reachable: "reachableSystem E (closedSystem E key c)"
proof -
  let ?use = "Using key (newResolvedClient key (Some c))"
  let ?sys = "\<lambda>cache tasks closed. \<lparr>csCache = cache, csTasks = tasks, csBuilt = [(key, Some c)], csClosed = closed\<rparr>"
  let ?cache = "runCache E key c" and ?cache' = "fst (invalidateLocked (runCache E key c) (ckProviderConfig key))"
  have "reachableSystem E (?sys ?cache {#Invalidating (ckProviderConfig key), ?use#} {#})"
    using reachableSystem.call [OF usedSystem_reachable [of E key c] callStep.drop_provider [where n = "ckProviderConfig key"]]
    by (simp add: usedSystem_def)
  then have "reachableSystem E (?sys ?cache' {#Closing [Some c] None, ?use#} {#})"
    using reachableSystem.task [OF _ taskStep.invalidate, of E _ "ckProviderConfig key" "{#?use#}" ?cache' "[Some c]"]
      runCache_invalidate [of E key c] by fastforce
  then show ?thesis
    using reachableSystem.task [OF _ taskStep.close, of E _ "Some c" "[]" None "{#?use#}"]
    unfolding closedSystem_def usedSystem_def by fastforce
qed

end
