(* ===== verification/ProviderTheorems.thy ===== *)
theory ProviderTheorems
  imports Simulation ConcurrentCache Admission
begin

text \<open>
  What the provider side guarantees: the client cache, the resolution of a ProviderConfig to an OBS
  client, endpoints, the identity of credentials and revisions, the ProviderConfig controller and
  the watches that start reconciliations.
\<close>

section \<open>Resolving a provider\<close>

text \<open>
  C13. A resolution that succeeds returns a client that was built for the current inputs: the
  endpoint and region of the ProviderConfig and credentials with the hash of those in the Secret it
  just read, whether it comes from the cache or not. Region, endpoint and revision of the result are
  those of the inputs.
\<close>

theorem resolve_current:
  assumes "cacheProvenance s" "run_state (ResolveProviderConfigObject E R pc) s = (Inr res, t)"
  shows "\<exists>secret cr ep.
    GetSecretEv (credentialsSecretKey pc) (Inr secret) \<in> set (emitted (ResolveProviderConfigObject E R pc) s) \<and>
    CredentialsFromSecret secret = Inr cr \<and>
    ResolveEndpoint (urllib E) (TrimSpace (pcsRegion (pSpec pc))) (pcsEndpoint (pSpec pc)) = Inr ep \<and>
    rcRegion res = TrimSpace (pcsRegion (pSpec pc)) \<and> rcEndpoint res = ep \<and>
    (\<exists>built. Hash built = Hash cr \<and> NewClientEv built ep (rcRegion res) (Inr (rcOBS res)) \<in> set (stTrace t)) \<and>
    rcProviderRevision res = observedProviderRevision pc secret (rcRegion res) ep"
  using ResolveProviderConfigObject_provenance [OF assms]
  by (fastforce simp: resolvedFor_def builtFor_def providerCacheKey_def)

theorem resolve_current_witness:
  "\<exists>res t. run_state (ResolveProviderConfigObject simEnv simResolver sampleConfig)
       (sampleState (sampleWorld True sampleBucket [])) = (Inr res, t) \<and>
     rcEndpoint res = ''https://obs.eu-de.otc.t-systems.com'' \<and>
     (\<exists>built. NewClientEv built (rcEndpoint res) (rcRegion res) (Inr (rcOBS res)) \<in> set (stTrace t))"
proof -
  let ?s = "sampleState (sampleWorld True sampleBucket [])"
  obtain res t where run: "run_state (ResolveProviderConfigObject simEnv simResolver sampleConfig) ?s = (Inr res, t)"
    using sim_resolve_object [of ?s] by auto
  have ep: "ResolveEndpoint (urllib simEnv) (TrimSpace (pcsRegion (pSpec sampleConfig))) (pcsEndpoint (pSpec sampleConfig)) =
      Inr ''https://obs.eu-de.otc.t-systems.com''"
    using sample_endpoint by (simp add: sampleConfig_def)
  from resolve_current [OF sample_provenance run] ep
  have "rcEndpoint res = ''https://obs.eu-de.otc.t-systems.com''"
    "\<exists>built. NewClientEv built (rcEndpoint res) (rcRegion res) (Inr (rcOBS res)) \<in> set (stTrace t)"
    by auto
  with run show ?thesis by (intro exI [of _ res] exI [of _ t]) simp
qed

text \<open>
  Why a resolution fails: the error is that of a failed read of the ProviderConfig or the
  Secret, marked when the object is missing, or that of a Secret without the required keys, an
  invalid endpoint, or a client that could not be built.
\<close>

lemma resolve_errors:
  "case fst (run_state (ResolveProviderConfig E R key) s) of
     Inr _ \<Rightarrow> True
   | Inl e \<Rightarrow> resolveError (lib E) (emitted (ResolveProviderConfig E R key) s) e"
  using emits_emitted [OF ResolveProviderConfig_error, of E R key s] by (auto split: sum.splits)

section \<open>Endpoints\<close>

text \<open>
  C25. The endpoint of every ProviderConfig that the API server admits resolves: to the https URL of
  its host and port, with or without a scheme or a trailing slash, and without an endpoint to that
  of the region.
\<close>

theorem endpoint_admitted:
  assumes "validProviderConfigSpec spec"
  shows "ResolveEndpoint U (TrimSpace (pcsRegion spec)) (pcsEndpoint spec) =
    Inr (''https://'' @ (if pcsEndpoint spec = [] then ''obs.'' @ pcsRegion spec @ ''.otc.t-systems.com''
                         else endpointAuthority (pcsEndpoint spec)))"
proof -
  have region: "list_all hostChar (pcsRegion spec)"
    using assms by (simp add: validProviderConfigSpec_def matchesRegion_chars)
  then have "list_all urlChar (pcsRegion spec)" by (rule list.pred_mono_strong) (simp add: urlChar_def)
  then have trim: "TrimSpace (pcsRegion spec) = pcsRegion spec" by (rule TrimSpace_urlChars)
  show ?thesis
  proof (cases "pcsEndpoint spec = []")
    case True
    then have "TrimSpace (pcsEndpoint spec) = []" using TrimSpace_urlChars [of "[]"] by simp
    from defaultEndpoint_resolves [OF region this] True trim show ?thesis by simp
  next
    case False
    with assms have "matchesEndpoint (pcsEndpoint spec)" by (simp add: validProviderConfigSpec_def)
    from admittedEndpoint_resolves [OF matchesEndpoint_admitted [OF this]] False show ?thesis by simp
  qed
qed

theorem endpoint_admitted_witness:
  "ResolveEndpoint simUrl (TrimSpace ''eu-de'') ''obs.example.com:8443/'' = Inr ''https://obs.example.com:8443''"
proof -
  let ?spec = "\<lparr>pcsRegion = ''eu-de'', pcsEndpoint = ''obs.example.com:8443/'', pcsCredentialsSecretRef = ''creds''\<rparr>"
  have "validProviderConfigSpec ?spec" by code_simp
  moreover have "endpointAuthority ''obs.example.com:8443/'' = ''obs.example.com:8443''" by code_simp
  ultimately show ?thesis using endpoint_admitted [of ?spec simUrl] by simp
qed


text \<open>
  The bare question mark is kept: an endpoint that ends in one is accepted as if it had no
  query, and the client is built for a URL that ends in it.
\<close>

lemma endpoint_keeps_question_mark:
  "ResolveEndpoint U region ''https://obs.example.com?'' = Inr ''https://obs.example.com?''"
proof -
  let ?e = "''https://obs.example.com?''"
  let ?u = "emptyURL\<lparr>uScheme := ''https'', uHost := ''obs.example.com'', uForceQuery := True\<rparr>"
  have "TrimSpace ?e = ?e" by (rule TrimSpace_visible) auto
  moreover have "urlParse U ?e = Some ?u" by code_simp
  moreover have "TrimRightByte (urlString ?u) (CHR ''/'') = ?e" by code_simp
  moreover have "Contains ?e ''://''" by simp
  ultimately show ?thesis by (simp add: ResolveEndpoint_def Let_def emptyURL_def)
qed

section \<open>The client cache\<close>

text \<open>The specification: a partial map with one client per ProviderConfig, stored under its key.\<close>

definition specGet :: "(NamespacedName \<rightharpoonup> cacheKey \<times> 'c option) \<Rightarrow> cacheKey \<Rightarrow> 'c ResolvedClient option" where
  "specGet m key =
     (case m (ckProviderConfig key) of
        None \<Rightarrow> None
      | Some (k, c) \<Rightarrow> if k = key then Some (newResolvedClient key c) else None)"

definition specSet :: "(NamespacedName \<rightharpoonup> cacheKey \<times> 'c option) \<Rightarrow> cacheKey \<Rightarrow> 'c option \<Rightarrow>
    (NamespacedName \<rightharpoonup> cacheKey \<times> 'c option) \<times> 'c ResolvedClient \<times> 'c option list" where
  "specSet m key client =
     (case specGet m key of
        Some r \<Rightarrow> (m, r\<lparr>rcFromCache := True\<rparr>, [client])
      | None \<Rightarrow> (m(ckProviderConfig key \<mapsto> (key, client)), newResolvedClient key client,
                 (case m (ckProviderConfig key) of None \<Rightarrow> [] | Some (k, c) \<Rightarrow> [c])))"

definition specInvalidate :: "(NamespacedName \<rightharpoonup> cacheKey \<times> 'c option) \<Rightarrow> NamespacedName \<Rightarrow>
    (NamespacedName \<rightharpoonup> cacheKey \<times> 'c option) \<times> 'c option list" where
  "specInvalidate m n = (m(n := None), (case m n of None \<Rightarrow> [] | Some (k, c) \<Rightarrow> [c]))"

text \<open>
  C15. The critical sections of the cache implement a partial map: a lookup hits only the full key,
  an insert keeps the client that is already there under the same key and otherwise replaces what
  is there for the ProviderConfig, an invalidation removes it, and the clients to close are exactly
  the rejected or replaced ones. The invariant of the cache is kept.
\<close>

theorem cache_refines:
  assumes "cacheOk cache"
  shows "getLocked cache key = specGet (absCache cache) key \<and>
    (case setLocked cache key client of (cache', r, cl) \<Rightarrow>
       cacheOk cache' \<and> (absCache cache', r, cl) = specSet (absCache cache) key client) \<and>
    (case invalidateLocked cache n of (cache', cl) \<Rightarrow>
       cacheOk cache' \<and> (absCache cache', cl) = specInvalidate (absCache cache) n)"
proof (intro conjI)
  show "getLocked cache key = specGet (absCache cache) key"
    by (simp add: getLocked_abs [OF assms] specGet_def)
  obtain cache' r cl where set: "setLocked cache key client = (cache', r, cl)" by (metis prod_cases3)
  then show "case setLocked cache key client of (cache', r, cl) \<Rightarrow>
      cacheOk cache' \<and> (absCache cache', r, cl) = specSet (absCache cache) key client"
    using setLocked_abs [OF assms set] cacheOk_setLocked [OF assms set]
    by (simp add: specSet_def specGet_def split: option.splits prod.splits if_splits)
  obtain cache'' cl' where inv: "invalidateLocked cache n = (cache'', cl')" by fastforce
  then show "case invalidateLocked cache n of (cache', cl) \<Rightarrow>
      cacheOk cache' \<and> (absCache cache', cl) = specInvalidate (absCache cache) n"
    using invalidateLocked_abs [OF assms inv] cacheOk_invalidateLocked [OF assms inv]
    by (simp add: specInvalidate_def)
qed

definition sampleKey :: cacheKey where
  "sampleKey = providerCacheKey sampleConfig sampleSecret sampleCredentials ''eu-de'' ''https://obs.eu-de.otc.t-systems.com''"

theorem cache_refines_witness:
  "getLocked (NewCache simEnv) sampleKey = None \<and>
   (case setLocked (NewCache simEnv) sampleKey (Some 1) of (cache', r, cl) \<Rightarrow>
      absCache cache' = [ckProviderConfig sampleKey \<mapsto> (sampleKey, Some 1)] \<and> cl = [])"
  using cache_refines [OF cacheOk_NewCache, of simEnv sampleKey "Some 1" "ckProviderConfig sampleKey"]
  by (auto simp: specGet_def specSet_def absCache_NewCache split: prod.splits)

text \<open>
  Whatever sequence of inserts and invalidations a new cache has seen, a client it returns for
  a key was inserted under exactly this key, and since then neither another key of the same
  ProviderConfig was inserted nor the ProviderConfig invalidated.
\<close>

lemma cache_hit_origin:
  assumes "lookupClient (fold (\<lambda>op cache. case op of
      StoreOp k c \<Rightarrow> storeClient cache k c | DropOp n \<Rightarrow> dropClient cache n) ops (NewCache E)) key = Some c"
  shows "\<exists>pre post. ops = pre @ StoreOp key c # post \<and> (\<forall>op \<in> set post. \<not> evicts op key)"
proof (rule clientCache.hit_origin [OF cacheOk_NewCache])
  show "lookupClient (NewCache E) k = None" for k
    by (simp add: lookupClient_abs [OF cacheOk_NewCache] absCache_NewCache)
  show "lookupClient (fold clientCache.apply_op ops (NewCache E)) key = Some c"
    using assms by (simp add: clientCache.apply_op_def [abs_def] fun_eq_iff)
qed

section \<open>The client cache with concurrent callers\<close>

text \<open>
  C9. In every interleaving of resolutions and invalidations each client the factory built is in
  exactly one place: closed, cached, or held by a running call that will store or close it. So no
  client leaks, and a client the factory returned once is not closed twice, nor closed and cached.
  The client that a call returns was built for the key of this call, and has the region and endpoint
  of the key.
\<close>

theorem concurrent_clients:
  assumes "reachableSystem E s"
  shows "clientsOf (map snd (csBuilt s)) =
      csClosed s + liveClients (csCache s) + (\<Sum>t \<in># csTasks s. heldBy t) \<and>
    (count (clientsOf (map snd (csBuilt s))) c \<le> 1 \<longrightarrow>
      count (csClosed s) c + count (liveClients (csCache s)) c \<le> 1) \<and>
    (\<forall>key r. Using key r \<in># csTasks s \<longrightarrow>
      (key, rcOBS r) \<in> set (csBuilt s) \<and> rcRegion r = ckRegion key \<and> rcEndpoint r = ckEndpoint key)"
  using reachable_ledger [OF assms] reachable_provenance [OF assms]
  by (auto simp: systemLedger_def builtClients_def systemProvenance_def taskOk_def)

theorem concurrent_clients_witness:
  "count (csClosed (closedSystem simEnv sampleKey 1)) 1 + count (liveClients (csCache (closedSystem simEnv sampleKey 1))) 1 \<le> 1 \<and>
   (sampleKey, rcOBS (newResolvedClient sampleKey (Some 1))) \<in> set (csBuilt (usedSystem simEnv sampleKey 1))"
proof
  show "count (csClosed (closedSystem simEnv sampleKey 1)) 1 + count (liveClients (csCache (closedSystem simEnv sampleKey 1))) 1 \<le> 1"
    using concurrent_clients [OF closedSystem_reachable [of simEnv sampleKey 1], of 1]
    by (simp add: closedSystem_def usedSystem_def)
  have "Using sampleKey (newResolvedClient sampleKey (Some 1)) \<in># csTasks (usedSystem simEnv sampleKey 1)"
    by (simp add: usedSystem_def)
  then show "(sampleKey, rcOBS (newResolvedClient sampleKey (Some 1))) \<in> set (csBuilt (usedSystem simEnv sampleKey 1))"
    using concurrent_clients [OF usedSystem_reachable [of simEnv sampleKey 1], of 1] by blast
qed


text \<open>
  C40. A client can be closed while a call that returned it is still using it: the cache does not
  know which clients are in use, so an invalidation closes under a running reconciliation.
\<close>

theorem closed_while_used:
  "\<exists>s :: ('c, 'w) cacheSystem. reachableSystem E s \<and>
     Using key (newResolvedClient key (Some c)) \<in># csTasks s \<and> c \<in># csClosed s"
  using closedSystem_reachable [of E key c]
  by (intro exI [of _ "closedSystem E key c"]) (simp add: closedSystem_def)

section \<open>Identity of credentials and revisions\<close>

text \<open>
  C33. Two credentials without NUL bytes in their keys have the same hash only when they are the
  same, unless the byte strings that are hashed for the two are a collision of SHA-256. So a cached
  client is not used after the credentials changed.
\<close>

theorem credentials_identity:
  assumes "Hash c = Hash d" "NUL \<notin> set (crAccessKeyID c @ crSecretAccessKey c)"
    "NUL \<notin> set (crAccessKeyID d @ crSecretAccessKey d)"
  shows "c = d \<or> bytes (credentialsPreimage c) \<noteq> bytes (credentialsPreimage d) \<and>
    sha256 (bytes (credentialsPreimage c)) = sha256 (bytes (credentialsPreimage d))"
proof (cases "credentialsPreimage c = credentialsPreimage d")
  case True
  with assms(2,3) have "c = d" by (intro credentialsPreimage_inj) auto
  then show ?thesis ..
next
  case False
  then have "bytes (credentialsPreimage c) \<noteq> bytes (credentialsPreimage d)" using bytes_inj by blast
  moreover have "sha256 (bytes (credentialsPreimage c)) = sha256 (bytes (credentialsPreimage d))"
    using assms(1) by (simp add: Hash_def digest_eq)
  ultimately show ?thesis by blast
qed

theorem credentials_identity_witness:
  "\<lparr>crAccessKeyID = TrimSpace ''AK'', crSecretAccessKey = ''SK'', crSecurityToken = []\<rparr> = sampleCredentials"
proof -
  let ?c = "\<lparr>crAccessKeyID = TrimSpace ''AK'', crSecretAccessKey = ''SK'', crSecurityToken = []\<rparr>"
  have c: "?c = sampleCredentials" by (simp add: sampleCredentials_def sample_trim)
  then have "Hash ?c = Hash sampleCredentials" by simp
  moreover have "NUL \<notin> set (crAccessKeyID ?c @ crSecretAccessKey ?c)"
    "NUL \<notin> set (crAccessKeyID sampleCredentials @ crSecretAccessKey sampleCredentials)"
    by (simp_all add: c sampleCredentials_def NUL_def sample_trim)
  ultimately have "?c = sampleCredentials \<or> bytes (credentialsPreimage ?c) \<noteq> bytes (credentialsPreimage sampleCredentials) \<and>
      sha256 (bytes (credentialsPreimage ?c)) = sha256 (bytes (credentialsPreimage sampleCredentials))"
    by (rule credentials_identity)
  then show ?thesis by (simp add: c)
qed

text \<open>
  With NUL bytes the hash does not tell all credentials apart: the separator it puts between the
  keys can be part of a key.
\<close>

lemma credentials_ambiguous:
  "\<exists>c d. c \<noteq> d \<and> Hash c = Hash d"
proof -
  let ?c = "\<lparr>crAccessKeyID = ''a'' @ NUL # ''b'', crSecretAccessKey = ''c'', crSecurityToken = []\<rparr>"
  let ?d = "\<lparr>crAccessKeyID = ''a'', crSecretAccessKey = ''b'' @ NUL # ''c'', crSecurityToken = []\<rparr>"
  have "Hash ?c = Hash ?d" by (simp add: Hash_def credentialsPreimage_def)
  moreover have "?c \<noteq> ?d" by simp
  ultimately show ?thesis by (intro exI [of _ ?c] exI [of _ ?d] conjI)
qed

text \<open>
  The published revision changes when the ProviderConfig's generation, the Secret's resource
  version, the region or the endpoint changes: equal revisions of inputs without NUL bytes have all
  these equal, unless the byte strings that are hashed are a collision of SHA-256.
\<close>

lemma revision_identity:
  assumes "observedProviderRevision p sec region endpoint = observedProviderRevision p' sec' region' endpoint'"
    "list_all (\<lambda>v. NUL \<notin> set v) (revisionValues p sec region endpoint @ revisionValues p' sec' region' endpoint')"
  shows "(Generation (pMeta p) = Generation (pMeta p') \<and> UID (pMeta p) = UID (pMeta p') \<and>
      UID (secMeta sec) = UID (secMeta sec') \<and> ResourceVersion (secMeta sec) = ResourceVersion (secMeta sec') \<and>
      region = region' \<and> endpoint = endpoint') \<or>
     bytes (revisionPreimage (revisionValues p sec region endpoint)) \<noteq>
       bytes (revisionPreimage (revisionValues p' sec' region' endpoint')) \<and>
     sha256 (bytes (revisionPreimage (revisionValues p sec region endpoint))) =
       sha256 (bytes (revisionPreimage (revisionValues p' sec' region' endpoint')))"
proof (cases "revisionPreimage (revisionValues p sec region endpoint) =
    revisionPreimage (revisionValues p' sec' region' endpoint')")
  case True
  have len: "length (revisionValues p sec region endpoint) = length (revisionValues p' sec' region' endpoint')"
    by (simp add: revisionValues_def)
  have "revisionValues p sec region endpoint = revisionValues p' sec' region' endpoint'"
    using assms(2) unfolding list_all_append by (intro revisionPreimage_inj [OF True len]) simp_all
  then have "SprintInt (Generation (pMeta p)) = SprintInt (Generation (pMeta p'))" and
    "UID (pMeta p) = UID (pMeta p') \<and> UID (secMeta sec) = UID (secMeta sec') \<and>
     ResourceVersion (secMeta sec) = ResourceVersion (secMeta sec') \<and> region = region' \<and> endpoint = endpoint'"
    unfolding revisionValues_def by simp_all
  then show ?thesis using SprintInt_inj by blast
next
  case False
  then have "bytes (revisionPreimage (revisionValues p sec region endpoint)) \<noteq>
      bytes (revisionPreimage (revisionValues p' sec' region' endpoint'))" using bytes_inj by blast
  moreover have "sha256 (bytes (revisionPreimage (revisionValues p sec region endpoint))) =
      sha256 (bytes (revisionPreimage (revisionValues p' sec' region' endpoint')))"
    using assms(1) by (simp add: observedProviderRevision_def digest_eq)
  ultimately show ?thesis by blast
qed

section \<open>The ProviderConfig controller\<close>


text \<open>
  C23. A reconciliation in which OBS did not accept the client's list request leaves no client for
  the ProviderConfig in the cache: a client that failed validation is not used again. When the
  ProviderConfig is gone, its reconciliation succeeds and leaves no client for it in the cache either.
\<close>

theorem provider_evicts:
  assumes "clientLedger None s" "run_state (ReconcileProviderConfig E (Some R) req) s = (r, t)"
  shows "(\<forall>pc w. apiGetProviderConfig (k8s E) req (stWorld s) = (Inr pc, w) \<longrightarrow>
      (\<forall>c. ObsEv c RListBuckets None \<notin> set (emitted (ReconcileProviderConfig E (Some R) req) s)) \<longrightarrow>
      notCached (Namespace (pMeta pc)) (Name (pMeta pc)) t) \<and>
    (\<forall>e w. apiGetProviderConfig (k8s E) req (stWorld s) = (Inl e, w) \<longrightarrow> IsNotFound (lib E) e \<longrightarrow>
      r = None \<and> notCached (nnNamespace req) (nnName req) t)"
  using ReconcileProviderConfig_drops [OF assms] ReconcileProviderConfig_deleted [OF assms] by blast

definition simGone :: "(nat, sim) env" where
  "simGone = simEnv\<lparr>k8s := simK8s\<lparr>apiGetProviderConfig := (\<lambda>_ w. (Inl (ApiStatusErr ''NotFound'' ''gone''), w))\<rparr>\<rparr>"

theorem provider_evicts_witness:
  "notCached ''team-a'' ''otc'' (snd (run_state (ReconcileProviderConfig simEnv (Some simResolver) sampleReq)
     (sampleState unreachableWorld))) \<and>
   notCached ''team-a'' ''data'' (snd (run_state (ReconcileProviderConfig simGone (Some simResolver) sampleReq)
     (sampleState unreachableWorld)))"
proof
  let ?s = "sampleState unreachableWorld"
  obtain r t where run: "run_state (ReconcileProviderConfig simEnv (Some simResolver) sampleReq) ?s = (r, t)" by fastforce
  have get: "apiGetProviderConfig (k8s simEnv) sampleReq (stWorld ?s) = (Inr sampleConfig, stWorld ?s)"
    by (simp add: simK8s_def unreachableWorld_def)
  have no: "\<forall>c. ObsEv c RListBuckets None \<notin>
      set (emitted (ReconcileProviderConfig simEnv (Some simResolver) sampleReq) ?s)"
    using sim_unreachable by blast
  from provider_evicts [OF sample_ledger run] get no
  have "notCached (Namespace (pMeta sampleConfig)) (Name (pMeta sampleConfig)) t" by blast
  with run show "notCached ''team-a'' ''otc'' (snd (run_state (ReconcileProviderConfig simEnv (Some simResolver) sampleReq) ?s))"
    by (simp add: sampleConfig_def sampleMeta_def)
next
  let ?s = "sampleState unreachableWorld"
  obtain r t where run: "run_state (ReconcileProviderConfig simGone (Some simResolver) sampleReq) ?s = (r, t)" by fastforce
  have get: "apiGetProviderConfig (k8s simGone) sampleReq (stWorld ?s) = (Inl (ApiStatusErr ''NotFound'' ''gone''), stWorld ?s)"
    by (simp add: simGone_def)
  have "IsNotFound (lib simGone) (ApiStatusErr ''NotFound'' ''gone'')" by (simp add: simGone_def simLib_def)
  with provider_evicts [OF sample_ledger run] get have "notCached (nnNamespace sampleReq) (nnName sampleReq) t" by blast
  with run show "notCached ''team-a'' ''data'' (snd (run_state (ReconcileProviderConfig simGone (Some simResolver) sampleReq) ?s))"
    by (simp add: sampleReq_def)
qed

section \<open>Watches\<close>

text \<open>
  C34. A change of a ProviderConfig starts a reconciliation of exactly the Buckets of its namespace
  that refer to it, and a change of a Secret one of exactly the ProviderConfigs of its namespace that
  take their credentials from it, given that the cached client lists what the index says.
\<close>

theorem changes_enqueue:
  assumes "nnName obj \<noteq> []"
    "indexedList buckets bMeta (\<lambda>b. bucketProviderConfigRefIndexer (BucketObject b))
      (\<lambda>ns v. apiListBucketResources (k8s E) ns bucketProviderConfigRefIndex v)"
    "apiListBucketResources (k8s E) (nnNamespace obj) bucketProviderConfigRefIndex (nnName obj) (stWorld s) = (Inr bs, w)"
    "indexedList configs pMeta (\<lambda>p. providerConfigCredentialsSecretRefIndexer (ProviderConfigObject p))
      (\<lambda>ns v. apiListProviderConfigs (k8s E) ns providerConfigCredentialsSecretIndex v)"
    "apiListProviderConfigs (k8s E) (nnNamespace obj) providerConfigCredentialsSecretIndex (nnName obj) (stWorld s) =
       (Inr ps, w')"
  shows "set (fst (run_state (bucketsForProviderConfig E obj) s)) =
    (\<lambda>b. \<lparr>nnNamespace = Namespace (bMeta b), nnName = Name (bMeta b)\<rparr>) `
      {b \<in> set (buckets (stWorld s)). Namespace (bMeta b) = nnNamespace obj \<and> specProviderConfigRef (bSpec b) = nnName obj} \<and>
    set (fst (run_state (providerConfigsForSecret E obj) s)) =
    (\<lambda>p. \<lparr>nnNamespace = Namespace (pMeta p), nnName = Name (pMeta p)\<rparr>) `
      {p \<in> set (configs (stWorld s)). Namespace (pMeta p) = nnNamespace obj \<and> pcsCredentialsSecretRef (pSpec p) = nnName obj}"
  by (intro conjI bucketWatch.enqueues_referrers [OF assms(2,1,3)] secretWatch.enqueues_referrers [OF assms(4,1,5)])

theorem changes_enqueue_witness:
  "set (fst (run_state (bucketsForProviderConfig simEnv \<lparr>nnNamespace = ''team-a'', nnName = ''otc''\<rparr>)
     (sampleState (sampleWorld True sampleBucket [])))) = {sampleReq}"
proof -
  let ?obj = "\<lparr>nnNamespace = ''team-a'', nnName = ''otc''\<rparr>" and ?s = "sampleState (sampleWorld True sampleBucket [])"
  have lawB: "indexedList (\<lambda>w. [simBucket w]) bMeta (\<lambda>b. bucketProviderConfigRefIndexer (BucketObject b))
      (\<lambda>ns v. apiListBucketResources (k8s simEnv) ns bucketProviderConfigRefIndex v)"
    by (auto simp: indexedList_def simK8s_def split: if_splits)
  have lawP: "indexedList (\<lambda>w. [simConfig w]) pMeta (\<lambda>p. providerConfigCredentialsSecretRefIndexer (ProviderConfigObject p))
      (\<lambda>ns v. apiListProviderConfigs (k8s simEnv) ns providerConfigCredentialsSecretIndex v)"
    by (auto simp: indexedList_def simK8s_def split: if_splits)
  obtain bs w where b: "apiListBucketResources (k8s simEnv) (nnNamespace ?obj) bucketProviderConfigRefIndex (nnName ?obj)
      (stWorld ?s) = (Inr bs, w)" by (simp add: simK8s_def)
  obtain ps w' where p: "apiListProviderConfigs (k8s simEnv) (nnNamespace ?obj) providerConfigCredentialsSecretIndex
      (nnName ?obj) (stWorld ?s) = (Inr ps, w')" by (simp add: simK8s_def)
  have "nnName ?obj \<noteq> []" by simp
  from changes_enqueue [OF this lawB b lawP p] show ?thesis
    by (auto simp: sampleBucket_def sampleMeta_def sampleReq_def)
qed

end
