(* ===== verification/Memory.thy ===== *)
theory Memory
  imports ApiTypes
begin

text \<open>
  The memory of the Go process as far as the resources of \<open>api/v1alpha1\<close> are concerned. Everywhere
  else in the development a resource is a value; here it is a struct whose pointer, slice and map
  fields hold addresses, so that sharing between two structs is visible.

  A memory is the list of the cells allocated so far, and an address is a position in it. A cell
  holds one variable: a struct or scalar that a pointer points to, a map, or the backing array of a
  slice. The fields of the structs are those of \<open>ApiTypes\<close>. An operation returns \<open>None\<close> where Go
  panics: a dangling address, a cell of another type, an index out of range.
\<close>

section \<open>Structs\<close>

type_synonym addr = nat

text \<open>A slice: its backing array, its first element there and its length; only \<open>append\<close> reads the capacity.\<close>

record slice =
  slArray :: addr
  slOffset :: nat
  slLen :: nat

record TypeMeta =
  tmKind :: string
  tmAPIVersion :: string

record mObjectMeta =
  mName :: string
  mNamespace :: string
  mUID :: string
  mResourceVersion :: string
  mGeneration :: int
  mDeletionTimestamp :: "addr option"
  mFinalizers :: "slice option"

record mListMeta =
  mlResourceVersion :: string
  mlContinue :: string
  mlRemainingItemCount :: "addr option"

record mBucketSpec =
  mProviderConfigRef :: string
  mStorageClass :: string
  mACL :: string
  mVersioning :: bool
  mParallelFS :: bool
  mEnterpriseProjectID :: string
  mTags :: "addr option"
  mForceDestroy :: bool
  mLogging :: "addr option"
  mServerSideEncryption :: "addr option"

record mBucketStatus =
  mObservedGeneration :: int
  mRegion :: string
  mBucketDomainName :: string
  mBucketVersion :: string
  mLastSyncTime :: "addr option"
  mConditions :: "slice option"

record mBucket =
  mbTypeMeta :: TypeMeta
  mbMeta :: mObjectMeta
  mbSpec :: mBucketSpec
  mbStatus :: mBucketStatus

record mProviderConfigStatus =
  mpObservedGeneration :: int
  mpLastValidationTime :: "addr option"
  mpObservedProviderRevision :: string
  mpConditions :: "slice option"

record mProviderConfig =
  mpTypeMeta :: TypeMeta
  mpMeta :: mObjectMeta
  mpSpec :: ProviderConfigSpec
  mpStatus :: mProviderConfigStatus

record mBucketList =
  mblTypeMeta :: TypeMeta
  mblListMeta :: mListMeta
  mblItems :: "slice option"

record mProviderConfigList =
  mplTypeMeta :: TypeMeta
  mplListMeta :: mListMeta
  mplItems :: "slice option"

section \<open>Cells\<close>

datatype cell =
    TagsCell "(string, string) gomap"
  | LoggingCell BucketLoggingSpec
  | EncryptionCell BucketServerSideEncryptionSpec
  | TimeCell time
  | CountCell int
  | StringsCell "string list"
  | ConditionsCell "Condition list"
  | BucketsCell "mBucket list"
  | ProviderConfigsCell "mProviderConfig list"
  | SpecCell mBucketSpec
  | StatusCell mBucketStatus
  | BucketCell mBucket
  | BucketListCell mBucketList
  | ProviderSpecCell ProviderConfigSpec
  | ProviderStatusCell mProviderConfigStatus
  | ProviderConfigCell mProviderConfig
  | ProviderConfigListCell mProviderConfigList

text \<open>A type of variables: the constructor of its cells, the partial inverse, and the zero value that \<open>new\<close> puts there.\<close>

record 'a cell_type =
  mk :: "'a \<Rightarrow> cell"
  sel :: "cell \<Rightarrow> 'a option"
  zero :: 'a

locale cell_kind =
  fixes K :: "'a cell_type"
  assumes sel_iff: "sel K c = Some x \<longleftrightarrow> c = mk K x"
begin

lemma sel_mk [simp]: "sel K (mk K x) = Some x"
  by (simp add: sel_iff)

lemma mk_inject: "mk K x = mk K y \<longleftrightarrow> x = y"
  by (metis option.inject sel_mk)

end

type_synonym memory = "cell list"

definition new :: "cell \<Rightarrow> memory \<Rightarrow> addr \<times> memory" where
  "new c m = (length m, m @ [c])"

definition load :: "'a cell_type \<Rightarrow> addr \<Rightarrow> memory \<Rightarrow> 'a option" where
  "load K a m = (if a < length m then sel K (m ! a) else None)"

definition store :: "'a cell_type \<Rightarrow> addr \<Rightarrow> 'a \<Rightarrow> memory \<Rightarrow> memory option" where
  "store K a x m = (if load K a m = None then None else Some (m[a := mk K x]))"

text \<open>Elements of a slice.\<close>

definition elemAt :: "'a list cell_type \<Rightarrow> slice \<Rightarrow> nat \<Rightarrow> memory \<Rightarrow> 'a option" where
  "elemAt K s i m = do {
     xs \<leftarrow> load K (slArray s) m;
     if i < slLen s \<and> slOffset s + i < length xs then Some (xs ! (slOffset s + i)) else None
   }"

definition setElem :: "'a list cell_type \<Rightarrow> slice \<Rightarrow> nat \<Rightarrow> 'a \<Rightarrow> memory \<Rightarrow> memory option" where
  "setElem K s i x m = do {
     xs \<leftarrow> load K (slArray s) m;
     if i < slLen s \<and> slOffset s + i < length xs
     then store K (slArray s) (xs[slOffset s + i := x]) m
     else None
   }"

definition makeSlice :: "'a list cell_type \<Rightarrow> 'a \<Rightarrow> nat \<Rightarrow> memory \<Rightarrow> slice \<times> memory" where
  "makeSlice K z n m =
     (let (a, m') = new (mk K (replicate n z)) m in (\<lparr>slArray = a, slOffset = 0, slLen = n\<rparr>, m'))"

definition sliceElems :: "'a list cell_type \<Rightarrow> slice \<Rightarrow> memory \<Rightarrow> 'a list option" where
  "sliceElems K s m = do {
     xs \<leftarrow> load K (slArray s) m;
     if slOffset s + slLen s \<le> length xs then Some (take (slLen s) (drop (slOffset s) xs)) else None
   }"

section \<open>Kinds\<close>

definition TagsType :: "(string, string) gomap cell_type" where
  "TagsType = \<lparr>mk = TagsCell, sel = (\<lambda>c. case c of TagsCell x \<Rightarrow> Some x | _ \<Rightarrow> None), zero = []\<rparr>"

definition LoggingType :: "BucketLoggingSpec cell_type" where
  "LoggingType = \<lparr>mk = LoggingCell, sel = (\<lambda>c. case c of LoggingCell x \<Rightarrow> Some x | _ \<Rightarrow> None),
     zero = \<lparr>logTargetBucket = '''', logTargetPrefix = '''', logAgency = ''''\<rparr>\<rparr>"

definition EncryptionType :: "BucketServerSideEncryptionSpec cell_type" where
  "EncryptionType = \<lparr>mk = EncryptionCell, sel = (\<lambda>c. case c of EncryptionCell x \<Rightarrow> Some x | _ \<Rightarrow> None),
     zero = \<lparr>sseKMSKeyID = '''', sseKMSProjectID = ''''\<rparr>\<rparr>"

definition TimeType :: "time cell_type" where
  "TimeType = \<lparr>mk = TimeCell, sel = (\<lambda>c. case c of TimeCell x \<Rightarrow> Some x | _ \<Rightarrow> None), zero = 0\<rparr>"

definition CountType :: "int cell_type" where
  "CountType = \<lparr>mk = CountCell, sel = (\<lambda>c. case c of CountCell x \<Rightarrow> Some x | _ \<Rightarrow> None), zero = 0\<rparr>"

definition StringsType :: "string list cell_type" where
  "StringsType = \<lparr>mk = StringsCell, sel = (\<lambda>c. case c of StringsCell x \<Rightarrow> Some x | _ \<Rightarrow> None), zero = []\<rparr>"

definition ConditionsType :: "Condition list cell_type" where
  "ConditionsType = \<lparr>mk = ConditionsCell, sel = (\<lambda>c. case c of ConditionsCell x \<Rightarrow> Some x | _ \<Rightarrow> None), zero = []\<rparr>"

definition BucketsType :: "mBucket list cell_type" where
  "BucketsType = \<lparr>mk = BucketsCell, sel = (\<lambda>c. case c of BucketsCell x \<Rightarrow> Some x | _ \<Rightarrow> None), zero = []\<rparr>"

definition ProviderConfigsType :: "mProviderConfig list cell_type" where
  "ProviderConfigsType = \<lparr>mk = ProviderConfigsCell,
     sel = (\<lambda>c. case c of ProviderConfigsCell x \<Rightarrow> Some x | _ \<Rightarrow> None), zero = []\<rparr>"

text \<open>
  The zero value of every struct type. The status of a zero condition is the empty string, which is
  none of the three constructors; every element is overwritten before it is read.
\<close>

definition zeroTypeMeta :: TypeMeta where
  "zeroTypeMeta = \<lparr>tmKind = '''', tmAPIVersion = ''''\<rparr>"

definition zeroObjectMeta :: mObjectMeta where
  "zeroObjectMeta = \<lparr>mName = '''', mNamespace = '''', mUID = '''', mResourceVersion = '''', mGeneration = 0,
     mDeletionTimestamp = None, mFinalizers = None\<rparr>"

definition zeroListMeta :: mListMeta where
  "zeroListMeta = \<lparr>mlResourceVersion = '''', mlContinue = '''', mlRemainingItemCount = None\<rparr>"

definition zeroSpec :: mBucketSpec where
  "zeroSpec = \<lparr>mProviderConfigRef = '''', mStorageClass = '''', mACL = '''', mVersioning = False,
     mParallelFS = False, mEnterpriseProjectID = '''', mTags = None, mForceDestroy = False,
     mLogging = None, mServerSideEncryption = None\<rparr>"

definition zeroStatus :: mBucketStatus where
  "zeroStatus = \<lparr>mObservedGeneration = 0, mRegion = '''', mBucketDomainName = '''', mBucketVersion = '''',
     mLastSyncTime = None, mConditions = None\<rparr>"

definition zeroBucket :: mBucket where
  "zeroBucket = \<lparr>mbTypeMeta = zeroTypeMeta, mbMeta = zeroObjectMeta, mbSpec = zeroSpec, mbStatus = zeroStatus\<rparr>"

definition zeroProviderSpec :: ProviderConfigSpec where
  "zeroProviderSpec = \<lparr>pcsRegion = '''', pcsEndpoint = '''', pcsCredentialsSecretRef = ''''\<rparr>"

definition zeroProviderStatus :: mProviderConfigStatus where
  "zeroProviderStatus = \<lparr>mpObservedGeneration = 0, mpLastValidationTime = None,
     mpObservedProviderRevision = '''', mpConditions = None\<rparr>"

definition zeroProviderConfig :: mProviderConfig where
  "zeroProviderConfig = \<lparr>mpTypeMeta = zeroTypeMeta, mpMeta = zeroObjectMeta, mpSpec = zeroProviderSpec,
     mpStatus = zeroProviderStatus\<rparr>"

definition zeroCondition :: Condition where
  "zeroCondition = \<lparr>cType = '''', cStatus = ConditionUnknown, cObservedGeneration = 0,
     cLastTransitionTime = 0, cReason = '''', cMessage = ''''\<rparr>"

definition SpecType :: "mBucketSpec cell_type" where
  "SpecType = \<lparr>mk = SpecCell, sel = (\<lambda>c. case c of SpecCell x \<Rightarrow> Some x | _ \<Rightarrow> None), zero = zeroSpec\<rparr>"

definition StatusType :: "mBucketStatus cell_type" where
  "StatusType = \<lparr>mk = StatusCell, sel = (\<lambda>c. case c of StatusCell x \<Rightarrow> Some x | _ \<Rightarrow> None), zero = zeroStatus\<rparr>"

definition BucketType :: "mBucket cell_type" where
  "BucketType = \<lparr>mk = BucketCell, sel = (\<lambda>c. case c of BucketCell x \<Rightarrow> Some x | _ \<Rightarrow> None), zero = zeroBucket\<rparr>"

definition BucketListType :: "mBucketList cell_type" where
  "BucketListType = \<lparr>mk = BucketListCell, sel = (\<lambda>c. case c of BucketListCell x \<Rightarrow> Some x | _ \<Rightarrow> None),
     zero = \<lparr>mblTypeMeta = zeroTypeMeta, mblListMeta = zeroListMeta, mblItems = None\<rparr>\<rparr>"

definition ProviderSpecType :: "ProviderConfigSpec cell_type" where
  "ProviderSpecType = \<lparr>mk = ProviderSpecCell,
     sel = (\<lambda>c. case c of ProviderSpecCell x \<Rightarrow> Some x | _ \<Rightarrow> None), zero = zeroProviderSpec\<rparr>"

definition ProviderStatusType :: "mProviderConfigStatus cell_type" where
  "ProviderStatusType = \<lparr>mk = ProviderStatusCell,
     sel = (\<lambda>c. case c of ProviderStatusCell x \<Rightarrow> Some x | _ \<Rightarrow> None), zero = zeroProviderStatus\<rparr>"

definition ProviderConfigType :: "mProviderConfig cell_type" where
  "ProviderConfigType = \<lparr>mk = ProviderConfigCell,
     sel = (\<lambda>c. case c of ProviderConfigCell x \<Rightarrow> Some x | _ \<Rightarrow> None), zero = zeroProviderConfig\<rparr>"

definition ProviderConfigListType :: "mProviderConfigList cell_type" where
  "ProviderConfigListType = \<lparr>mk = ProviderConfigListCell,
     sel = (\<lambda>c. case c of ProviderConfigListCell x \<Rightarrow> Some x | _ \<Rightarrow> None),
     zero = \<lparr>mplTypeMeta = zeroTypeMeta, mplListMeta = zeroListMeta, mplItems = None\<rparr>\<rparr>"

lemmas type_defs = TagsType_def LoggingType_def EncryptionType_def TimeType_def CountType_def
  StringsType_def ConditionsType_def BucketsType_def ProviderConfigsType_def SpecType_def StatusType_def
  BucketType_def BucketListType_def ProviderSpecType_def ProviderStatusType_def ProviderConfigType_def
  ProviderConfigListType_def

interpretation tagsK: cell_kind TagsType
  by unfold_locales (auto simp: type_defs split: cell.splits)

interpretation loggingK: cell_kind LoggingType
  by unfold_locales (auto simp: type_defs split: cell.splits)

interpretation encryptionK: cell_kind EncryptionType
  by unfold_locales (auto simp: type_defs split: cell.splits)

interpretation timeK: cell_kind TimeType
  by unfold_locales (auto simp: type_defs split: cell.splits)

interpretation countK: cell_kind CountType
  by unfold_locales (auto simp: type_defs split: cell.splits)

interpretation stringsK: cell_kind StringsType
  by unfold_locales (auto simp: type_defs split: cell.splits)

interpretation conditionsK: cell_kind ConditionsType
  by unfold_locales (auto simp: type_defs split: cell.splits)

interpretation bucketsK: cell_kind BucketsType
  by unfold_locales (auto simp: type_defs split: cell.splits)

interpretation providerConfigsK: cell_kind ProviderConfigsType
  by unfold_locales (auto simp: type_defs split: cell.splits)

interpretation specK: cell_kind SpecType
  by unfold_locales (auto simp: type_defs split: cell.splits)

interpretation statusK: cell_kind StatusType
  by unfold_locales (auto simp: type_defs split: cell.splits)

interpretation bucketK: cell_kind BucketType
  by unfold_locales (auto simp: type_defs split: cell.splits)

interpretation bucketListK: cell_kind BucketListType
  by unfold_locales (auto simp: type_defs split: cell.splits)

interpretation providerSpecK: cell_kind ProviderSpecType
  by unfold_locales (auto simp: type_defs split: cell.splits)

interpretation providerStatusK: cell_kind ProviderStatusType
  by unfold_locales (auto simp: type_defs split: cell.splits)

interpretation providerConfigK: cell_kind ProviderConfigType
  by unfold_locales (auto simp: type_defs split: cell.splits)

interpretation providerConfigListK: cell_kind ProviderConfigListType
  by unfold_locales (auto simp: type_defs split: cell.splits)

section \<open>Loads and stores\<close>

text \<open>A load depends on its cell only, so memory that has grown or changed elsewhere gives the same.\<close>

lemma load_cong: "load K a m = Some x \<Longrightarrow> length m \<le> length m' \<Longrightarrow> m' ! a = m ! a \<Longrightarrow> load K a m' = Some x"
  by (auto simp: load_def split: if_splits)

lemma load_below: "load K a m = Some x \<Longrightarrow> a < length m"
  by (simp add: load_def split: if_splits)

lemma load_append: "load K a m = Some x \<Longrightarrow> load K a (m @ m') = Some x"
  by (auto simp: load_def nth_append split: if_splits)

lemma load_prefix: "load K a m = Some x \<Longrightarrow> prefix m m' \<Longrightarrow> load K a m' = Some x"
  by (auto simp: prefix_def load_append)

lemma load_store: "store K b x m = Some m' \<Longrightarrow> a \<noteq> b \<Longrightarrow> load K' a m' = load K' a m"
  by (auto simp: store_def load_def split: if_splits)

lemma prefix_nth: "prefix m m' \<Longrightarrow> a < length m \<Longrightarrow> m' ! a = m ! a"
  by (auto simp: prefix_def nth_append)

lemma prefix_update: "prefix m m' \<Longrightarrow> length m \<le> a \<Longrightarrow> prefix m (m'[a := c])"
  by (auto simp: prefix_def list_update_append)

lemma sliceElems_cong:
  "sliceElems K s m = Some xs \<Longrightarrow> length m \<le> length m' \<Longrightarrow> m' ! slArray s = m ! slArray s \<Longrightarrow>
   sliceElems K s m' = Some xs"
  by (auto simp: sliceElems_def bind_eq_Some_conv dest: load_cong split: if_splits)

lemma sliceElems_below: "sliceElems K s m = Some xs \<Longrightarrow> slArray s < length m"
  by (auto simp: sliceElems_def bind_eq_Some_conv dest: load_below)

lemma sliceElems_length: "sliceElems K s m = Some xs \<Longrightarrow> length xs = slLen s"
  by (auto simp: sliceElems_def bind_eq_Some_conv split: if_splits)

lemma elemAt_sliceElems: "sliceElems K s m = Some xs \<Longrightarrow> i < slLen s \<Longrightarrow> elemAt K s i m = Some (xs ! i)"
  by (auto simp: sliceElems_def elemAt_def bind_eq_Some_conv split: if_splits)

context cell_kind
begin

lemma load_new [simp]: "load K (length m) (m @ mk K x # m') = Some x"
  by (simp add: load_def)

lemma load_stored: "store K a x m = Some m' \<Longrightarrow> load K a m' = Some x"
  by (auto simp: store_def load_def split: if_splits)

lemma load_update [simp]: "a < length m \<Longrightarrow> load K a (m[a := mk K x]) = Some x"
  by (simp add: load_def)

lemma store_loaded: "load K a m = Some y \<Longrightarrow> store K a x m = Some (m[a := mk K x])"
  by (simp add: store_def)

lemma load_cell: "load K a m = Some x \<longleftrightarrow> a < length m \<and> m ! a = mk K x"
  by (auto simp: load_def sel_iff)

end

end
