(* ===== verification/Copying.thy ===== *)
theory Copying
  imports Memory
begin

text \<open>
  What it means to copy a structure deeply, and that the ways in which the generated code builds
  copies do it. A copying function maps the source struct to the struct that \<open>out\<close> has afterwards and
  to the new memory.

  \<open>mem_view\<close> is the interface of a type of structures in memory: the value a structure stands for,
  the cells it consists of, and when it is well-formed. \<open>deep_copy\<close> adds the contract of a copying
  function. The lemmas at the end lift the contract over pointers, slices, maps and structs.
\<close>

section \<open>Statements of the generated code\<close>

type_synonym 'a copier = "'a \<Rightarrow> memory \<Rightarrow> ('a \<times> memory) option"

text \<open>\<open>if in.X != nil { ... }\<close>; a nil field was copied by \<open>*out = *in\<close> already.\<close>

definition unlessNil :: "'a copier \<Rightarrow> 'a option copier" where
  "unlessNil ci p m =
     (case p of
        None \<Rightarrow> Some (None, m)
      | Some x \<Rightarrow> do { (y, m') \<leftarrow> ci x m; Some (Some y, m') })"

text \<open>\<open>*out = new(T); **out = **in\<close>\<close>

definition copyPointer :: "'a cell_type \<Rightarrow> addr copier" where
  "copyPointer K a m = do {
     let (b, m1) = new (mk K (zero K)) m;
     x \<leftarrow> load K a m1;
     m2 \<leftarrow> store K b x m1;
     Some (b, m2)
   }"

text \<open>
  \<open>*out = make(map[K]V, len( *in)); for key, val := range *in { ( *out)[key] = val }\<close>. Go does not
  fix the order of the iteration: \<open>rng\<close> gives one.
\<close>

fun insertAll :: "('k, 'v) gomap cell_type \<Rightarrow> addr \<Rightarrow> ('k \<times> 'v) list \<Rightarrow> memory \<Rightarrow> memory option" where
  "insertAll K b [] m = Some m"
| "insertAll K b ((key, val) # kvs) m = do {
     t \<leftarrow> load K b m;
     m1 \<leftarrow> store K b (AList.update key val t) m;
     insertAll K b kvs m1
   }"

definition copyMap :: "(('k, 'v) gomap \<Rightarrow> ('k \<times> 'v) list) \<Rightarrow> ('k, 'v) gomap cell_type \<Rightarrow> addr copier" where
  "copyMap rng K a m = do {
     let (b, m1) = new (mk K []) m;
     kvs \<leftarrow> load K a m1;
     m2 \<leftarrow> insertAll K b (rng kvs) m1;
     Some (b, m2)
   }"

text \<open>\<open>*out = make([]T, len( *in)); for i := range *in { ( *in)[i].DeepCopyInto(&( *out)[i]) }\<close>\<close>

fun copyElems :: "'a list cell_type \<Rightarrow> 'a copier \<Rightarrow> slice \<Rightarrow> slice \<Rightarrow> nat list \<Rightarrow> memory \<Rightarrow> memory option" where
  "copyElems K ci src out [] m = Some m"
| "copyElems K ci src out (i # is) m = do {
     x \<leftarrow> elemAt K src i m;
     (y, m1) \<leftarrow> ci x m;
     m2 \<leftarrow> setElem K out i y m1;
     copyElems K ci src out is m2
   }"

definition copySlice :: "'a list cell_type \<Rightarrow> 'a \<Rightarrow> 'a copier \<Rightarrow> slice copier" where
  "copySlice K z ci src m = do {
     let (out, m1) = makeSlice K z (slLen src) m;
     m2 \<leftarrow> copyElems K ci src out [0..<slLen src] m1;
     Some (out, m2)
   }"

text \<open>\<open>out := new(T); in.DeepCopyInto(out); return out\<close>\<close>

definition newDeepCopy :: "'a cell_type \<Rightarrow> 'a copier \<Rightarrow> addr copier" where
  "newDeepCopy K ci a m = do {
     let (b, m1) = new (mk K (zero K)) m;
     x \<leftarrow> load K a m1;
     (y, m2) \<leftarrow> ci x m1;
     m3 \<leftarrow> store K b y m2;
     Some (b, m3)
   }"

section \<open>Contracts\<close>

locale mem_view =
  fixes read :: "memory \<Rightarrow> 'a \<Rightarrow> 'v" and refs :: "memory \<Rightarrow> 'a \<Rightarrow> addr set" and valid :: "memory \<Rightarrow> 'a \<Rightarrow> bool"
  assumes below: "valid m x \<Longrightarrow> refs m x \<subseteq> {..<length m}"
    and frame: "valid m x \<Longrightarrow> length m \<le> length m' \<Longrightarrow> (\<And>a. a \<in> refs m x \<Longrightarrow> m' ! a = m ! a) \<Longrightarrow>
      valid m' x \<and> refs m' x = refs m x \<and> read m' x = read m x"
begin

lemma frame_prefix:
  assumes "valid m x" "prefix m m'"
  shows "valid m' x \<and> refs m' x = refs m x \<and> read m' x = read m x"
proof (rule frame [OF assms(1)])
  show "length m \<le> length m'" by (rule prefix_length_le [OF assms(2)])
  show "\<And>a. a \<in> refs m x \<Longrightarrow> m' ! a = m ! a"
    using below [OF assms(1)] prefix_nth [OF assms(2)] by auto
qed

lemma frame_update:
  assumes "valid m x" "b \<notin> refs m x"
  shows "valid (m[b := c]) x \<and> refs (m[b := c]) x = refs m x \<and> read (m[b := c]) x = read m x"
  by (rule frame [OF assms(1)]) (simp, metis assms(2) nth_list_update_neq)

end

locale deep_copy = mem_view +
  fixes copyInto :: "'a copier"
  assumes copies: "valid m x \<Longrightarrow> \<exists>y m'. copyInto x m = Some (y, m') \<and> prefix m m' \<and>
    valid m' y \<and> read m' y = read m x \<and> refs m' y \<inter> {..<length m} = {}"
begin

lemma copyE:
  assumes "valid m x"
  obtains y m' where "copyInto x m = Some (y, m')" "prefix m m'" "valid m' y" "read m' y = read m x"
    "\<And>a. a \<in> refs m' y \<Longrightarrow> length m \<le> a"
proof -
  obtain y m' where *: "copyInto x m = Some (y, m')" "prefix m m'" "valid m' y" "read m' y = read m x"
    "refs m' y \<inter> {..<length m} = {}" using copies [OF assms] by blast
  show thesis by (rule that [OF *(1-4)]) (use *(5) in force)
qed

lemma copied:
  assumes "valid m x" "copyInto x m = Some (y, m')"
  shows "prefix m m'" "valid m' y" "read m' y = read m x" "refs m' y \<inter> {..<length m} = {}"
  using copies [OF assms(1)] unfolding assms(2) by simp_all

text \<open>The copy and its source have no cell in common, so a write through one cannot be seen through the other.\<close>

lemma separate:
  assumes "valid m x" "copyInto x m = Some (y, m')"
  shows "refs m' x \<inter> refs m' y = {}"
proof -
  note c = copied [OF assms]
  have "refs m' x \<subseteq> {..<length m}"
    using frame_prefix [OF assms(1) c(1)] below [OF assms(1)] by simp
  with c(4) show ?thesis by blast
qed

lemma isolated:
  assumes "valid m x" "copyInto x m = Some (y, m')" "length m' \<le> length m''"
  shows "(\<And>a. a \<notin> refs m' x \<Longrightarrow> a < length m' \<Longrightarrow> m'' ! a = m' ! a) \<Longrightarrow> read m'' y = read m x"
    and "(\<And>a. a \<notin> refs m' y \<Longrightarrow> a < length m' \<Longrightarrow> m'' ! a = m' ! a) \<Longrightarrow> read m'' x = read m x"
proof -
  note y = copied [OF assms(1,2)]
  from frame_prefix [OF assms(1) y(1)] have x: "valid m' x" "read m' x = read m x" by auto
  note sep = separate [OF assms(1,2)]
  show "read m'' y = read m x" if "\<And>a. a \<notin> refs m' x \<Longrightarrow> a < length m' \<Longrightarrow> m'' ! a = m' ! a"
    using frame [OF y(2) assms(3)] that sep below [OF y(2)] y(3) by (metis disjoint_iff lessThan_iff subsetD)
  show "read m'' x = read m x" if "\<And>a. a \<notin> refs m' y \<Longrightarrow> a < length m' \<Longrightarrow> m'' ! a = m' ! a"
    using frame [OF x(1) assms(3)] that sep below [OF x(1)] x(2) by (metis disjoint_iff lessThan_iff subsetD)
qed

end

section \<open>Values, pointers and structs\<close>

text \<open>A value without pointers.\<close>

lemma deep_copy_value:
  "deep_copy (\<lambda>m x. x) (\<lambda>m x. {}) (\<lambda>m x. True) (\<lambda>x m. Some (x, m))"
  by unfold_locales auto

lemma mem_view_nil:
  assumes "mem_view read refs valid"
  shows "mem_view (\<lambda>m. map_option (read m)) (\<lambda>m. case_option {} (refs m)) (\<lambda>m. case_option True (valid m))"
proof -
  from assms have V: "mem_view read refs valid" .
  show ?thesis
    by unfold_locales
      (auto split: option.splits dest: mem_view.below [OF V] mem_view.frame [OF V, rotated])
qed

lemma deep_copy_nil:
  assumes "deep_copy read refs valid ci"
  shows "deep_copy (\<lambda>m. map_option (read m)) (\<lambda>m. case_option {} (refs m)) (\<lambda>m. case_option True (valid m))
    (unlessNil ci)"
proof -
  have V: "mem_view read refs valid" using assms by (rule deep_copy.axioms(1))
  show ?thesis
  proof (intro deep_copy.intro [OF mem_view_nil [OF V]] deep_copy_axioms.intro)
    fix m and p :: "'a option"
    assume "case_option True (valid m) p"
    then show "\<exists>y m'. unlessNil ci p m = Some (y, m') \<and> prefix m m' \<and> case_option True (valid m') y \<and>
        map_option (read m') y = map_option (read m) p \<and> case_option {} (refs m') y \<inter> {..<length m} = {}"
    proof (cases p)
      case (Some x)
      with \<open>case_option True (valid m) p\<close> have "valid m x" by simp
      from deep_copy.copies [OF assms this] obtain y m' where "ci x m = Some (y, m') \<and> prefix m m' \<and>
        valid m' y \<and> read m' y = read m x \<and> refs m' y \<inter> {..<length m} = {}" by blast
      then show ?thesis by (intro exI [of _ "Some y"] exI [of _ m']) (simp add: unlessNil_def Some)
    qed (simp add: unlessNil_def)
  qed
qed

lemma mem_view_pair:
  assumes "mem_view r1 f1 v1" "mem_view r2 f2 v2"
  shows "mem_view (\<lambda>m (x, y). (r1 m x, r2 m y)) (\<lambda>m (x, y). f1 m x \<union> f2 m y) (\<lambda>m (x, y). v1 m x \<and> v2 m y)"
proof
  fix m and xy :: "'a \<times> 'c"
  assume "case xy of (x, y) \<Rightarrow> v1 m x \<and> v2 m y"
  then obtain x y where xy: "xy = (x, y)" and v: "v1 m x" "v2 m y" by (cases xy) auto
  show "(case xy of (x, y) \<Rightarrow> f1 m x \<union> f2 m y) \<subseteq> {..<length m}"
    using mem_view.below [OF assms(1) v(1)] mem_view.below [OF assms(2) v(2)] by (simp add: xy)
  fix m' :: memory
  assume len: "length m \<le> length m'"
    and same: "\<And>a. a \<in> (case xy of (x, y) \<Rightarrow> f1 m x \<union> f2 m y) \<Longrightarrow> m' ! a = m ! a"
  have "v1 m' x \<and> f1 m' x = f1 m x \<and> r1 m' x = r1 m x"
    by (rule mem_view.frame [OF assms(1) v(1) len]) (simp add: same xy)
  moreover have "v2 m' y \<and> f2 m' y = f2 m y \<and> r2 m' y = r2 m y"
    by (rule mem_view.frame [OF assms(2) v(2) len]) (simp add: same xy)
  ultimately show "(case xy of (x, y) \<Rightarrow> v1 m' x \<and> v2 m' y) \<and>
      (case xy of (x, y) \<Rightarrow> f1 m' x \<union> f2 m' y) = (case xy of (x, y) \<Rightarrow> f1 m x \<union> f2 m y) \<and>
      (case xy of (x, y) \<Rightarrow> (r1 m' x, r2 m' y)) = (case xy of (x, y) \<Rightarrow> (r1 m x, r2 m y))"
    by (simp add: xy)
qed

definition copyPair :: "'a copier \<Rightarrow> 'b copier \<Rightarrow> ('a \<times> 'b) copier" where
  "copyPair c1 c2 p m = do {
     (x, m1) \<leftarrow> c1 (fst p) m;
     (y, m2) \<leftarrow> c2 (snd p) m1;
     Some ((x, y), m2)
   }"

lemma deep_copy_pair:
  assumes "deep_copy r1 f1 v1 c1" "deep_copy r2 f2 v2 c2"
  shows "deep_copy (\<lambda>m (x, y). (r1 m x, r2 m y)) (\<lambda>m (x, y). f1 m x \<union> f2 m y)
    (\<lambda>m (x, y). v1 m x \<and> v2 m y) (copyPair c1 c2)"
proof (intro deep_copy.intro mem_view_pair deep_copy_axioms.intro)
  show V: "mem_view r1 f1 v1" "mem_view r2 f2 v2"
    using assms by (auto dest: deep_copy.axioms(1))
  fix m and xy :: "'a \<times> 'c"
  assume "case xy of (x, y) \<Rightarrow> v1 m x \<and> v2 m y"
  then obtain x y where xy: "xy = (x, y)" and v: "v1 m x" "v2 m y" by (cases xy) auto
  obtain x' m1 where x': "c1 x m = Some (x', m1)" "prefix m m1" "v1 m1 x'" "r1 m1 x' = r1 m x"
    "\<And>a. a \<in> f1 m1 x' \<Longrightarrow> length m \<le> a" using deep_copy.copyE [OF assms(1) v(1)] by metis
  have y: "v2 m1 y" "r2 m1 y = r2 m y" using mem_view.frame_prefix [OF V(2) v(2) x'(2)] by auto
  obtain y' m2 where y': "c2 y m1 = Some (y', m2)" "prefix m1 m2" "v2 m2 y'" "r2 m2 y' = r2 m1 y"
    "\<And>a. a \<in> f2 m2 y' \<Longrightarrow> length m1 \<le> a" using deep_copy.copyE [OF assms(2) y(1)] by metis
  have "v1 m2 x' \<and> f1 m2 x' = f1 m1 x' \<and> r1 m2 x' = r1 m1 x'"
    by (rule mem_view.frame_prefix [OF V(1) x'(3) y'(2)])
  moreover have "prefix m m2" using x'(2) y'(2) by simp
  moreover have "(f1 m2 x' \<union> f2 m2 y') \<inter> {..<length m} = {}"
    using calculation x'(5) y'(5) prefix_length_le [OF x'(2)] by fastforce
  ultimately show "\<exists>z m'. copyPair c1 c2 xy m = Some (z, m') \<and> prefix m m' \<and>
      (case z of (x, y) \<Rightarrow> v1 m' x \<and> v2 m' y) \<and>
      (case z of (x, y) \<Rightarrow> (r1 m' x, r2 m' y)) = (case xy of (x, y) \<Rightarrow> (r1 m x, r2 m y)) \<and>
      (case z of (x, y) \<Rightarrow> f1 m' x \<union> f2 m' y) \<inter> {..<length m} = {}"
    using x' y y' by (intro exI [of _ "(x', y')"] exI [of _ m2]) (simp add: copyPair_def xy)
qed

text \<open>
  A struct \<open>x\<close> with parts \<open>g x\<close> that are copied deeply; the other fields are \<open>*out = *in\<close>. \<open>h x p\<close> is the
  struct with its parts replaced by \<open>p\<close>, \<open>k x v\<close> what it stands for when its parts stand for \<open>v\<close>.
\<close>

lemma mem_view_struct:
  assumes "mem_view read refs valid"
    and "\<And>m x. read' m x = k x (read m (g x))" "\<And>m x. refs' m x = refs m (g x)" "\<And>m x. valid' m x = valid m (g x)"
  shows "mem_view read' refs' valid'"
proof
  fix m x
  assume "valid' m x"
  then have v: "valid m (g x)" by (simp only: assms(4))
  show "refs' m x \<subseteq> {..<length m}" using mem_view.below [OF assms(1) v] by (simp only: assms(3))
  fix m'
  assume "length m \<le> length m'" "\<And>a. a \<in> refs' m x \<Longrightarrow> m' ! a = m ! a"
  then have "valid m' (g x) \<and> refs m' (g x) = refs m (g x) \<and> read m' (g x) = read m (g x)"
    by (intro mem_view.frame [OF assms(1) v]) (simp_all only: assms(3))
  then show "valid' m' x \<and> refs' m' x = refs' m x \<and> read' m' x = read' m x"
    by (simp only: assms(2-4))
qed

lemma deep_copy_struct:
  assumes "deep_copy read refs valid ci"
    and view: "\<And>m x. read' m x = k x (read m (g x))" "\<And>m x. refs' m x = refs m (g x)" "\<And>m x. valid' m x = valid m (g x)"
    and ci': "\<And>x m. ci' x m = do { (p, m') \<leftarrow> ci (g x) m; Some (h x p, m') }"
    and h: "\<And>x p. g (h x p) = p" "\<And>x p. k (h x p) = k x"
  shows "deep_copy read' refs' valid' ci'"
proof (intro deep_copy.intro deep_copy_axioms.intro)
  have V: "mem_view read refs valid" using assms(1) by (rule deep_copy.axioms(1))
  show "mem_view read' refs' valid'" by (rule mem_view_struct [OF V, of read' k g]) (rule view)+
  fix m x
  assume "valid' m x"
  then obtain p m' where "ci (g x) m = Some (p, m')" "prefix m m'" "valid m' p" "read m' p = read m (g x)"
    "refs m' p \<inter> {..<length m} = {}" using deep_copy.copies [OF assms(1)] by (metis view(3))
  then show "\<exists>y m'. ci' x m = Some (y, m') \<and> prefix m m' \<and> valid' m' y \<and> read' m' y = read' m x \<and>
      refs' m' y \<inter> {..<length m} = {}"
    by (intro exI [of _ "h x p"] exI [of _ m']) (simp add: ci' view h)
qed

section \<open>Pointers\<close>

definition cellOf :: "'a cell_type \<Rightarrow> memory \<Rightarrow> addr \<Rightarrow> 'a" where
  "cellOf K m a = (case load K a m of Some x \<Rightarrow> x | None \<Rightarrow> zero K)"

definition readAt :: "'a cell_type \<Rightarrow> (memory \<Rightarrow> 'a \<Rightarrow> 'v) \<Rightarrow> memory \<Rightarrow> addr \<Rightarrow> 'v" where
  "readAt K read m a = read m (cellOf K m a)"

definition refsAt :: "'a cell_type \<Rightarrow> (memory \<Rightarrow> 'a \<Rightarrow> addr set) \<Rightarrow> memory \<Rightarrow> addr \<Rightarrow> addr set" where
  "refsAt K refs m a = insert a (refs m (cellOf K m a))"

definition validAt :: "'a cell_type \<Rightarrow> (memory \<Rightarrow> 'a \<Rightarrow> bool) \<Rightarrow> memory \<Rightarrow> addr \<Rightarrow> bool" where
  "validAt K valid m a \<longleftrightarrow> load K a m \<noteq> None \<and> valid m (cellOf K m a)"

lemmas at_defs = readAt_def refsAt_def validAt_def

lemma cellOf_load [simp]: "load K a m = Some x \<Longrightarrow> cellOf K m a = x"
  by (simp add: cellOf_def)

lemma mem_view_at:
  assumes "mem_view read refs valid"
  shows "mem_view (readAt K read) (refsAt K refs) (validAt K valid)"
proof
  fix m a
  assume "validAt K valid m a"
  then obtain x where x: "load K a m = Some x" "valid m x" by (auto simp: validAt_def)
  show "refsAt K refs m a \<subseteq> {..<length m}"
    using mem_view.below [OF assms x(2)] load_below [OF x(1)] by (simp add: refsAt_def x(1))
  fix m'
  assume len: "length m \<le> length m'" and same: "\<And>b. b \<in> refsAt K refs m a \<Longrightarrow> m' ! b = m ! b"
  have x': "load K a m' = Some x" by (rule load_cong [OF x(1) len]) (simp add: same refsAt_def)
  have "valid m' x \<and> refs m' x = refs m x \<and> read m' x = read m x"
    by (rule mem_view.frame [OF assms x(2) len]) (simp add: same refsAt_def x(1))
  then show "validAt K valid m' a \<and> refsAt K refs m' a = refsAt K refs m a \<and> readAt K read m' a = readAt K read m a"
    by (simp add: at_defs x(1) x')
qed

lemma deep_copy_at:
  assumes "deep_copy read refs valid ci" "cell_kind K"
  shows "deep_copy (readAt K read) (refsAt K refs) (validAt K valid) (newDeepCopy K ci)"
proof (intro deep_copy.intro mem_view_at deep_copy_axioms.intro)
  show V: "mem_view read refs valid" using assms(1) by (rule deep_copy.axioms(1))
  fix m a
  assume "validAt K valid m a"
  then obtain x where x: "load K a m = Some x" "valid m x" by (auto simp: validAt_def)
  let ?b = "length m" and ?m1 = "m @ [mk K (zero K)]"
  have p1: "prefix m ?m1" by simp
  from mem_view.frame_prefix [OF V x(2) p1] have x1: "valid ?m1 x" "read ?m1 x = read m x" by auto
  obtain y m2 where y: "ci x ?m1 = Some (y, m2)" "prefix ?m1 m2" "valid m2 y" "read m2 y = read ?m1 x"
    "\<And>c. c \<in> refs m2 y \<Longrightarrow> length ?m1 \<le> c" using deep_copy.copyE [OF assms(1) x1(1)] by metis
  let ?m3 = "m2[?b := mk K y]"
  have b: "?b < length m2" using prefix_length_le [OF y(2)] by simp
  have "load K ?b m2 = Some (zero K)" using load_prefix [OF cell_kind.load_new [OF assms(2)] y(2)] .
  then have st: "store K ?b y m2 = Some ?m3" by (rule cell_kind.store_loaded [OF assms(2)])
  have ld: "load K ?b ?m3 = Some y" by (rule cell_kind.load_update [OF assms(2) b])
  have "valid ?m3 y \<and> refs ?m3 y = refs m2 y \<and> read ?m3 y = read m2 y"
    by (rule mem_view.frame_update [OF V y(3)]) (use y(5) in force)
  moreover have "prefix m ?m3"
    using prefix_order.trans [OF p1 y(2)] by (rule prefix_update) simp
  moreover have "refs m2 y \<inter> {..<length m} = {}" using y(5) by force
  ultimately show "\<exists>b m'. newDeepCopy K ci a m = Some (b, m') \<and> prefix m m' \<and> validAt K valid m' b \<and>
      readAt K read m' b = readAt K read m a \<and> refsAt K refs m' b \<inter> {..<length m} = {}"
    using y st ld x1(2) x(1) load_append [OF x(1)]
    by (intro exI [of _ ?b] exI [of _ ?m3]) (simp add: newDeepCopy_def new_def at_defs)
qed

lemma copyPointer_newDeepCopy: "copyPointer K = newDeepCopy K (\<lambda>x m. Some (x, m))"
  by (intro ext) (simp add: copyPointer_def newDeepCopy_def new_def)

lemma deep_copy_pointer:
  assumes "cell_kind K"
  shows "deep_copy (readAt K (\<lambda>m x. x)) (refsAt K (\<lambda>m x. {})) (validAt K (\<lambda>m x. True)) (copyPointer K)"
  unfolding copyPointer_newDeepCopy by (rule deep_copy_at [OF deep_copy_value assms])

section \<open>Maps\<close>

text \<open>A Go map has no order: what a cell with a map stands for is the map sorted by key.\<close>

definition canonicalMap :: "('k::linorder, 'v) gomap \<Rightarrow> ('k, 'v) gomap" where
  "canonicalMap kvs = sort_key fst kvs"

lemma canonicalMap_eq:
  assumes "gomap_wf xs" "mset xs = mset ys"
  shows "canonicalMap ys = canonicalMap xs"
proof -
  have "inj_on fst (set ys)"
    using assms by (metis distinct_map gomap_wf_def set_mset_mset)
  moreover have "mset ys = mset (sort_key fst xs)" using assms(2) by simp
  ultimately show ?thesis
    unfolding canonicalMap_def by (intro sort_key_inj_key_eq) simp_all
qed

lemma update_new_key: "key \<notin> fst ` set t \<Longrightarrow> AList.update key val t = t @ [(key, val)]"
  by (induction t) auto

lemma insertAll_result:
  assumes "cell_kind K" "load K b m = Some t" "distinct (map fst (t @ kvs))"
  shows "insertAll K b kvs m = Some (m[b := mk K (t @ kvs)])"
  using assms(2,3)
proof (induction kvs arbitrary: m t)
  case Nil
  then show ?case using cell_kind.load_cell [OF assms(1)] by (metis append_Nil2 insertAll.simps(1) list_update_id)
next
  case (Cons kv kvs)
  obtain key val where kv: "kv = (key, val)" by force
  have b: "b < length m" by (rule load_below [OF Cons.prems(1)])
  let ?m1 = "m[b := mk K (t @ [kv])]"
  have "AList.update key val t = t @ [kv]"
    using Cons.prems(2) by (simp add: kv update_new_key)
  then have st: "store K b (AList.update key val t) m = Some ?m1"
    using cell_kind.store_loaded [OF assms(1) Cons.prems(1)] by simp
  have "insertAll K b kvs ?m1 = Some (?m1[b := mk K ((t @ [kv]) @ kvs)])"
    by (rule Cons.IH) (use Cons.prems(2) b in \<open>simp_all add: cell_kind.load_update [OF assms(1)]\<close>)
  then show ?case using st Cons.prems(1) by (simp add: kv)
qed

abbreviation readMap :: "('k::linorder, 'v) gomap cell_type \<Rightarrow> memory \<Rightarrow> addr \<Rightarrow> ('k, 'v) gomap" where
  "readMap K \<equiv> readAt K (\<lambda>m. canonicalMap)"

abbreviation validMap :: "('k, 'v) gomap cell_type \<Rightarrow> memory \<Rightarrow> addr \<Rightarrow> bool" where
  "validMap K \<equiv> validAt K (\<lambda>m. gomap_wf)"

lemma deep_copy_map:
  assumes "cell_kind K" "\<And>kvs. mset (rng kvs) = mset kvs"
  shows "deep_copy (readMap K) (refsAt K (\<lambda>m x. {})) (validMap K) (copyMap rng K)"
proof (intro deep_copy.intro mem_view_at deep_copy_axioms.intro)
  show "mem_view (\<lambda>m. canonicalMap) (\<lambda>m x. {}) (\<lambda>m. gomap_wf)" by unfold_locales auto
  fix m a
  assume "validMap K m a"
  then obtain kvs where kvs: "load K a m = Some kvs" "gomap_wf kvs" by (auto simp: validAt_def)
  let ?b = "length m" and ?m1 = "m @ [mk K []]"
  have wf: "gomap_wf (rng kvs)"
    using kvs(2) assms(2) [of kvs] unfolding gomap_wf_def
    by (metis mset_eq_imp_distinct_iff mset_map)
  have "insertAll K ?b (rng kvs) ?m1 = Some (?m1[?b := mk K ([] @ rng kvs)])"
    by (rule insertAll_result [OF assms(1)])
      (use wf in \<open>simp_all add: gomap_wf_def cell_kind.load_new [OF assms(1)]\<close>)
  moreover have "canonicalMap (rng kvs) = canonicalMap kvs"
    by (rule canonicalMap_eq [OF kvs(2)]) (simp add: assms(2))
  ultimately show "\<exists>b m'. copyMap rng K a m = Some (b, m') \<and> prefix m m' \<and> validMap K m' b \<and>
      readMap K m' b = readMap K m a \<and> refsAt K (\<lambda>m x. {}) m' b \<inter> {..<length m} = {}"
    using kvs load_append [OF kvs(1)] wf
    by (intro exI [of _ ?b] exI [of _ "m @ [mk K (rng kvs)]"])
      (simp add: copyMap_def new_def at_defs cell_kind.load_new [OF assms(1)])
qed

section \<open>Slices\<close>

definition elemsOf :: "'a list cell_type \<Rightarrow> memory \<Rightarrow> slice \<Rightarrow> 'a list" where
  "elemsOf K m s = (case sliceElems K s m of Some xs \<Rightarrow> xs | None \<Rightarrow> [])"

definition readSlice :: "'a list cell_type \<Rightarrow> (memory \<Rightarrow> 'a \<Rightarrow> 'v) \<Rightarrow> memory \<Rightarrow> slice \<Rightarrow> 'v list" where
  "readSlice K read m s = map (read m) (elemsOf K m s)"

definition refsSlice :: "'a list cell_type \<Rightarrow> (memory \<Rightarrow> 'a \<Rightarrow> addr set) \<Rightarrow> memory \<Rightarrow> slice \<Rightarrow> addr set" where
  "refsSlice K refs m s = insert (slArray s) (\<Union> (refs m ` set (elemsOf K m s)))"

definition validSlice :: "'a list cell_type \<Rightarrow> (memory \<Rightarrow> 'a \<Rightarrow> bool) \<Rightarrow> memory \<Rightarrow> slice \<Rightarrow> bool" where
  "validSlice K valid m s \<longleftrightarrow> sliceElems K s m \<noteq> None \<and> list_all (valid m) (elemsOf K m s)"

lemmas slice_defs = readSlice_def refsSlice_def validSlice_def

lemma elemsOf_Some [simp]: "sliceElems K s m = Some xs \<Longrightarrow> elemsOf K m s = xs"
  by (simp add: elemsOf_def)

lemma mem_view_slice:
  assumes "mem_view read refs valid"
  shows "mem_view (readSlice K read) (refsSlice K refs) (validSlice K valid)"
proof
  fix m s
  assume "validSlice K valid m s"
  then obtain xs where xs: "sliceElems K s m = Some xs" "\<And>x. x \<in> set xs \<Longrightarrow> valid m x"
    by (auto simp: validSlice_def list_all_iff)
  show "refsSlice K refs m s \<subseteq> {..<length m}"
    using mem_view.below [OF assms xs(2)] sliceElems_below [OF xs(1)] by (auto simp: refsSlice_def xs(1))
  fix m'
  assume len: "length m \<le> length m'" and same: "\<And>a. a \<in> refsSlice K refs m s \<Longrightarrow> m' ! a = m ! a"
  have xs': "sliceElems K s m' = Some xs"
    by (rule sliceElems_cong [OF xs(1) len]) (simp add: same refsSlice_def)
  have "valid m' x \<and> refs m' x = refs m x \<and> read m' x = read m x" if "x \<in> set xs" for x
    by (rule mem_view.frame [OF assms xs(2) [OF that] len]) (rule same, use that in \<open>auto simp: refsSlice_def xs(1)\<close>)
  then show "validSlice K valid m' s \<and> refsSlice K refs m' s = refsSlice K refs m s \<and>
      readSlice K read m' s = readSlice K read m s"
    by (auto simp: slice_defs list_all_iff xs(1) xs')
qed

text \<open>One iteration, with \<open>ys\<close> in the new array: it changes only that array, where it puts a copy of element \<open>k\<close>.\<close>

lemma copyElems_step:
  assumes C: "deep_copy read refs valid ci" and K: "cell_kind K"
    and src: "sliceElems K src m = Some xs" "\<And>x. x \<in> set xs \<Longrightarrow> valid m x"
    and out: "out = \<lparr>slArray = length m, slOffset = 0, slLen = length xs\<rparr>"
    and M: "prefix m M" "load K (length m) M = Some ys" "length ys = length xs"
    and k: "k < length xs"
  obtains y M2 where "\<And>is. copyElems K ci src out (k # is) M = copyElems K ci src out is M2"
    "prefix m M2" "load K (length m) M2 = Some (ys[k := y])" "length M \<le> length M2"
    "\<And>a. a < length M \<Longrightarrow> a \<noteq> length m \<Longrightarrow> M2 ! a = M ! a"
    "valid M2 y" "read M2 y = read m (xs ! k)" "refs M2 y \<inter> {..length m} = {}"
proof -
  have V: "mem_view read refs valid" using C by (rule deep_copy.axioms(1))
  let ?b = "length m" and ?x = "xs ! k"
  have b: "?b < length M" by (rule load_below [OF M(2)])
  have "sliceElems K src M = Some xs"
    by (rule sliceElems_cong [OF src(1) prefix_length_le [OF M(1)]])
      (rule prefix_nth [OF M(1) sliceElems_below [OF src(1)]])
  then have el: "elemAt K src k M = Some ?x"
    by (rule elemAt_sliceElems) (use k sliceElems_length [OF src(1)] in simp)
  have x: "valid M ?x" "read M ?x = read m ?x"
    using mem_view.frame_prefix [OF V src(2) M(1)] k by auto
  obtain y M1 where y: "ci ?x M = Some (y, M1)" "prefix M M1" "valid M1 y" "read M1 y = read M ?x"
    "\<And>a. a \<in> refs M1 y \<Longrightarrow> length M \<le> a" using deep_copy.copyE [OF C x(1)] by metis
  let ?M2 = "M1[?b := mk K (ys[k := y])]"
  have ld1: "load K ?b M1 = Some ys" by (rule load_prefix [OF M(2) y(2)])
  have se: "setElem K out k y M1 = Some ?M2"
    using k M(3) by (simp add: setElem_def out ld1 cell_kind.store_loaded [OF K ld1])
  have y2: "valid ?M2 y \<and> refs ?M2 y = refs M1 y \<and> read ?M2 y = read M1 y"
    by (rule mem_view.frame_update [OF V y(3)]) (use y(5) b in force)
  show thesis
  proof (rule that [of ?M2 y])
    show "copyElems K ci src out (k # is) M = copyElems K ci src out is ?M2" for "is"
      by (simp add: el y(1) se)
    show "prefix m ?M2" by (rule prefix_update [OF prefix_order.trans [OF M(1) y(2)]]) simp
    show "load K ?b ?M2 = Some (ys[k := y])" by (rule cell_kind.load_update [OF K load_below [OF ld1]])
    show "length M \<le> length ?M2" using prefix_length_le [OF y(2)] by simp
    show "?M2 ! a = M ! a" if "a < length M" "a \<noteq> ?b" for a using that prefix_nth [OF y(2)] by simp
    show "refs ?M2 y \<inter> {..?b} = {}" using y2 y(5) b by force
  qed (use y2 y(4) x(2) in auto)
qed

text \<open>The loop from iteration \<open>k\<close> on: it puts copies of the remaining elements into the new array.\<close>

lemma copyElems_loop:
  assumes C: "deep_copy read refs valid ci" and K: "cell_kind K"
    and src: "sliceElems K src m = Some xs" "\<And>x. x \<in> set xs \<Longrightarrow> valid m x"
    and out: "out = \<lparr>slArray = length m, slOffset = 0, slLen = length xs\<rparr>"
    and M: "prefix m M" "load K (length m) M = Some ys" "length ys = length xs"
    and k: "k \<le> length xs"
  shows "\<exists>M' ys'. copyElems K ci src out [k..<length xs] M = Some M' \<and> prefix m M' \<and>
    length M \<le> length M' \<and> (\<forall>a < length M. a \<noteq> length m \<longrightarrow> M' ! a = M ! a) \<and>
    load K (length m) M' = Some ys' \<and> length ys' = length xs \<and> (\<forall>j < k. ys' ! j = ys ! j) \<and>
    (\<forall>j. k \<le> j \<and> j < length xs \<longrightarrow> valid M' (ys' ! j) \<and> read M' (ys' ! j) = read m (xs ! j) \<and>
       refs M' (ys' ! j) \<inter> {..length m} = {})"
  using M k
proof (induction "length xs - k" arbitrary: k M ys)
  case 0
  then show ?case by (intro exI [of _ M] exI [of _ ys]) auto
next
  case (Suc n)
  have V: "mem_view read refs valid" using C by (rule deep_copy.axioms(1))
  have k: "k < length xs" "n = length xs - Suc k" using Suc.hyps(2) by simp_all
  let ?b = "length m"
  obtain y M2 where it: "\<And>is. copyElems K ci src out (k # is) M = copyElems K ci src out is M2"
    "prefix m M2" "load K ?b M2 = Some (ys[k := y])" "length M \<le> length M2"
    "\<And>a. a < length M \<Longrightarrow> a \<noteq> ?b \<Longrightarrow> M2 ! a = M ! a"
    "valid M2 y" "read M2 y = read m (xs ! k)" "refs M2 y \<inter> {..?b} = {}"
    using copyElems_step [OF C K src out Suc.prems(1-3) k(1)] by metis
  obtain M' ys' where M': "copyElems K ci src out [Suc k..<length xs] M2 = Some M'" "prefix m M'"
    "length M2 \<le> length M'" "\<And>a. a < length M2 \<Longrightarrow> a \<noteq> ?b \<Longrightarrow> M' ! a = M2 ! a"
    "load K ?b M' = Some ys'" "length ys' = length xs" "\<And>j. j < Suc k \<Longrightarrow> ys' ! j = ys[k := y] ! j"
    "\<And>j. Suc k \<le> j \<and> j < length xs \<Longrightarrow> valid M' (ys' ! j) \<and> read M' (ys' ! j) = read m (xs ! j) \<and>
       refs M' (ys' ! j) \<inter> {..?b} = {}"
    using Suc.hyps(1) [OF k(2) it(2,3)] Suc.prems(3) k(1) by (metis Suc_leI length_list_update)
  have "valid M' y \<and> refs M' y = refs M2 y \<and> read M' y = read M2 y"
  proof (rule mem_view.frame [OF V it(6) M'(3)])
    fix a assume a: "a \<in> refs M2 y"
    then have "a \<noteq> ?b" "a < length M2" using it(8) mem_view.below [OF V it(6)] by auto
    then show "M' ! a = M2 ! a" using M'(4) by blast
  qed
  moreover have "ys' ! k = y" using M'(7) [of k] k(1) Suc.prems(3) by simp
  ultimately have new: "valid M' (ys' ! j) \<and> read M' (ys' ! j) = read m (xs ! j) \<and> refs M' (ys' ! j) \<inter> {..?b} = {}"
    if "k \<le> j" "j < length xs" for j using that it(7,8) M'(8) by (cases "j = k") simp_all
  have "M' ! a = M ! a" if "a < length M" "a \<noteq> ?b" for a
    using that M'(4) [of a] it(4,5) by simp
  moreover have "copyElems K ci src out [k..<length xs] M = Some M'"
    using it(1) M'(1) by (simp only: upt_conv_Cons [OF k(1)])
  ultimately show ?case
    using M' it(4) new by (intro exI [of _ M'] exI [of _ ys']) simp
qed

lemma deep_copy_slice:
  assumes C: "deep_copy read refs valid ci" and K: "cell_kind K"
  shows "deep_copy (readSlice K read) (refsSlice K refs) (validSlice K valid) (copySlice K z ci)"
proof (intro deep_copy.intro mem_view_slice deep_copy_axioms.intro)
  show "mem_view read refs valid" using C by (rule deep_copy.axioms(1))
  fix m s
  assume "validSlice K valid m s"
  then obtain xs where xs: "sliceElems K s m = Some xs" "\<And>x. x \<in> set xs \<Longrightarrow> valid m x"
    by (auto simp: validSlice_def list_all_iff)
  have len: "slLen s = length xs" using sliceElems_length [OF xs(1)] by simp
  let ?out = "\<lparr>slArray = length m, slOffset = 0, slLen = length xs\<rparr>"
    and ?m1 = "m @ [mk K (replicate (length xs) z)]"
  obtain m' ys where m': "copyElems K ci s ?out [0..<length xs] ?m1 = Some m'" "prefix m m'"
    "load K (length m) m' = Some ys" "length ys = length xs"
    "\<And>j. j < length xs \<Longrightarrow> valid m' (ys ! j) \<and> read m' (ys ! j) = read m (xs ! j) \<and> refs m' (ys ! j) \<inter> {..length m} = {}"
    using copyElems_loop [OF C K xs refl, of ?m1 "replicate (length xs) z" 0]
    by (auto simp: cell_kind.load_new [OF K])
  have el: "sliceElems K ?out m' = Some ys" by (simp add: sliceElems_def m'(3,4))
  have "map (read m') ys = map (read m) xs" using m'(4,5) by (auto intro: nth_equalityI)
  moreover have "valid m' y \<and> refs m' y \<inter> {..<length m} = {}" if "y \<in> set ys" for y
    using that m'(4,5) by (fastforce simp: in_set_conv_nth)
  ultimately show "\<exists>y m'. copySlice K z ci s m = Some (y, m') \<and> prefix m m' \<and> validSlice K valid m' y \<and>
      readSlice K read m' y = readSlice K read m s \<and> refsSlice K refs m' y \<inter> {..<length m} = {}"
    using m'(1,2)
    by (intro exI [of _ ?out] exI [of _ m'])
      (auto simp: copySlice_def makeSlice_def new_def len slice_defs el xs(1) list_all_iff)
qed

end
