(* ===== verification/DeepCopy.thy ===== *)
theory DeepCopy
  imports Copying
begin

text \<open>
  The generated copying functions (\<open>api/v1alpha1/zz_generated.deepcopy.go\<close>) on the memory of
  \<open>Memory\<close>: every \<open>DeepCopyInto\<close>, \<open>DeepCopy\<close> and \<open>DeepCopyObject\<close>, and that each is a deep copy in the sense
  of \<open>Copying\<close>.

  A function \<open>T_DeepCopyInto\<close> maps the struct \<open>*in\<close> to the struct \<open>*out\<close>. The copying functions of
  apimachinery and the order in which Go walks a map are parameters; \<open>copyLaws\<close> says of the former
  that they are deep copies and of the latter that it has every entry once.
\<close>

record copy_lib =
  mapRange :: "(string, string) gomap \<Rightarrow> (string \<times> string) list"
  ObjectMeta_DeepCopyInto :: "mObjectMeta copier"
  ListMeta_DeepCopyInto :: "mListMeta copier"
  Condition_DeepCopyInto :: "Condition copier"
  Time_DeepCopy :: "addr copier"

section \<open>DeepCopyInto\<close>

definition BucketLoggingSpec_DeepCopyInto :: "BucketLoggingSpec copier" where
  "BucketLoggingSpec_DeepCopyInto src m = Some (src, m)"

definition BucketServerSideEncryptionSpec_DeepCopyInto :: "BucketServerSideEncryptionSpec copier" where
  "BucketServerSideEncryptionSpec_DeepCopyInto src m = Some (src, m)"

definition BucketSpec_DeepCopyInto :: "copy_lib \<Rightarrow> mBucketSpec copier" where
  "BucketSpec_DeepCopyInto C src m = do {
     let out = src\<lparr>mProviderConfigRef := mProviderConfigRef src\<rparr>;
     (tags, m1) \<leftarrow> unlessNil (copyMap (mapRange C) TagsType) (mTags src) m;
     let out = out\<lparr>mTags := tags\<rparr>;
     (logging, m2) \<leftarrow> unlessNil (copyPointer LoggingType) (mLogging src) m1;
     let out = out\<lparr>mLogging := logging\<rparr>;
     (encryption, m3) \<leftarrow> unlessNil (copyPointer EncryptionType) (mServerSideEncryption src) m2;
     let out = out\<lparr>mServerSideEncryption := encryption\<rparr>;
     Some (out, m3)
   }"

definition BucketStatus_DeepCopyInto :: "copy_lib \<Rightarrow> mBucketStatus copier" where
  "BucketStatus_DeepCopyInto C src m = do {
     let out = src;
     (lastSyncTime, m1) \<leftarrow> unlessNil (Time_DeepCopy C) (mLastSyncTime src) m;
     let out = out\<lparr>mLastSyncTime := lastSyncTime\<rparr>;
     (conditions, m2) \<leftarrow>
       unlessNil (copySlice ConditionsType zeroCondition (Condition_DeepCopyInto C)) (mConditions src) m1;
     let out = out\<lparr>mConditions := conditions\<rparr>;
     Some (out, m2)
   }"

definition Bucket_DeepCopyInto :: "copy_lib \<Rightarrow> mBucket copier" where
  "Bucket_DeepCopyInto C src m = do {
     let out = src\<lparr>mbTypeMeta := mbTypeMeta src\<rparr>;
     (objectMeta, m1) \<leftarrow> ObjectMeta_DeepCopyInto C (mbMeta src) m;
     let out = out\<lparr>mbMeta := objectMeta\<rparr>;
     (spec, m2) \<leftarrow> BucketSpec_DeepCopyInto C (mbSpec src) m1;
     let out = out\<lparr>mbSpec := spec\<rparr>;
     (status, m3) \<leftarrow> BucketStatus_DeepCopyInto C (mbStatus src) m2;
     let out = out\<lparr>mbStatus := status\<rparr>;
     Some (out, m3)
   }"

definition BucketList_DeepCopyInto :: "copy_lib \<Rightarrow> mBucketList copier" where
  "BucketList_DeepCopyInto C src m = do {
     let out = src\<lparr>mblTypeMeta := mblTypeMeta src\<rparr>;
     (listMeta, m1) \<leftarrow> ListMeta_DeepCopyInto C (mblListMeta src) m;
     let out = out\<lparr>mblListMeta := listMeta\<rparr>;
     (items, m2) \<leftarrow> unlessNil (copySlice BucketsType zeroBucket (Bucket_DeepCopyInto C)) (mblItems src) m1;
     let out = out\<lparr>mblItems := items\<rparr>;
     Some (out, m2)
   }"

definition ProviderConfigSpec_DeepCopyInto :: "ProviderConfigSpec copier" where
  "ProviderConfigSpec_DeepCopyInto src m =
     Some (src\<lparr>pcsCredentialsSecretRef := pcsCredentialsSecretRef src\<rparr>, m)"

definition ProviderConfigStatus_DeepCopyInto :: "copy_lib \<Rightarrow> mProviderConfigStatus copier" where
  "ProviderConfigStatus_DeepCopyInto C src m = do {
     let out = src;
     (lastValidationTime, m1) \<leftarrow> unlessNil (Time_DeepCopy C) (mpLastValidationTime src) m;
     let out = out\<lparr>mpLastValidationTime := lastValidationTime\<rparr>;
     (conditions, m2) \<leftarrow>
       unlessNil (copySlice ConditionsType zeroCondition (Condition_DeepCopyInto C)) (mpConditions src) m1;
     let out = out\<lparr>mpConditions := conditions\<rparr>;
     Some (out, m2)
   }"

definition ProviderConfig_DeepCopyInto :: "copy_lib \<Rightarrow> mProviderConfig copier" where
  "ProviderConfig_DeepCopyInto C src m = do {
     let out = src\<lparr>mpTypeMeta := mpTypeMeta src\<rparr>;
     (objectMeta, m1) \<leftarrow> ObjectMeta_DeepCopyInto C (mpMeta src) m;
     let out = out\<lparr>mpMeta := objectMeta\<rparr>;
     let out = out\<lparr>mpSpec := mpSpec src\<rparr>;
     (status, m2) \<leftarrow> ProviderConfigStatus_DeepCopyInto C (mpStatus src) m1;
     let out = out\<lparr>mpStatus := status\<rparr>;
     Some (out, m2)
   }"

definition ProviderConfigList_DeepCopyInto :: "copy_lib \<Rightarrow> mProviderConfigList copier" where
  "ProviderConfigList_DeepCopyInto C src m = do {
     let out = src\<lparr>mplTypeMeta := mplTypeMeta src\<rparr>;
     (listMeta, m1) \<leftarrow> ListMeta_DeepCopyInto C (mplListMeta src) m;
     let out = out\<lparr>mplListMeta := listMeta\<rparr>;
     (items, m2) \<leftarrow>
       unlessNil (copySlice ProviderConfigsType zeroProviderConfig (ProviderConfig_DeepCopyInto C)) (mplItems src) m1;
     let out = out\<lparr>mplItems := items\<rparr>;
     Some (out, m2)
   }"

section \<open>DeepCopy and DeepCopyObject\<close>

text \<open>\<open>DeepCopy\<close> returns nil for a nil receiver.\<close>

definition BucketLoggingSpec_DeepCopy :: "addr option copier" where
  "BucketLoggingSpec_DeepCopy = unlessNil (newDeepCopy LoggingType BucketLoggingSpec_DeepCopyInto)"

definition BucketServerSideEncryptionSpec_DeepCopy :: "addr option copier" where
  "BucketServerSideEncryptionSpec_DeepCopy =
     unlessNil (newDeepCopy EncryptionType BucketServerSideEncryptionSpec_DeepCopyInto)"

definition BucketSpec_DeepCopy :: "copy_lib \<Rightarrow> addr option copier" where
  "BucketSpec_DeepCopy C = unlessNil (newDeepCopy SpecType (BucketSpec_DeepCopyInto C))"

definition BucketStatus_DeepCopy :: "copy_lib \<Rightarrow> addr option copier" where
  "BucketStatus_DeepCopy C = unlessNil (newDeepCopy StatusType (BucketStatus_DeepCopyInto C))"

definition Bucket_DeepCopy :: "copy_lib \<Rightarrow> addr option copier" where
  "Bucket_DeepCopy C = unlessNil (newDeepCopy BucketType (Bucket_DeepCopyInto C))"

definition BucketList_DeepCopy :: "copy_lib \<Rightarrow> addr option copier" where
  "BucketList_DeepCopy C = unlessNil (newDeepCopy BucketListType (BucketList_DeepCopyInto C))"

definition ProviderConfigSpec_DeepCopy :: "addr option copier" where
  "ProviderConfigSpec_DeepCopy = unlessNil (newDeepCopy ProviderSpecType ProviderConfigSpec_DeepCopyInto)"

definition ProviderConfigStatus_DeepCopy :: "copy_lib \<Rightarrow> addr option copier" where
  "ProviderConfigStatus_DeepCopy C = unlessNil (newDeepCopy ProviderStatusType (ProviderConfigStatus_DeepCopyInto C))"

definition ProviderConfig_DeepCopy :: "copy_lib \<Rightarrow> addr option copier" where
  "ProviderConfig_DeepCopy C = unlessNil (newDeepCopy ProviderConfigType (ProviderConfig_DeepCopyInto C))"

definition ProviderConfigList_DeepCopy :: "copy_lib \<Rightarrow> addr option copier" where
  "ProviderConfigList_DeepCopy C = unlessNil (newDeepCopy ProviderConfigListType (ProviderConfigList_DeepCopyInto C))"

text \<open>
  A non-nil value of the interface \<open>runtime.Object\<close>, with the pointer in it, which may itself be nil;
  a nil interface value is \<open>None\<close>. Go selects the method by the dynamic type.
\<close>

datatype runtimeObject =
    BucketPointer "addr option"
  | BucketListPointer "addr option"
  | ProviderConfigPointer "addr option"
  | ProviderConfigListPointer "addr option"

definition Bucket_DeepCopyObject :: "copy_lib \<Rightarrow> addr option \<Rightarrow> memory \<Rightarrow> (runtimeObject option \<times> memory) option" where
  "Bucket_DeepCopyObject C src m = do {
     (c, m1) \<leftarrow> Bucket_DeepCopy C src m;
     if c \<noteq> None then Some (Some (BucketPointer c), m1) else Some (None, m1)
   }"

definition BucketList_DeepCopyObject :: "copy_lib \<Rightarrow> addr option \<Rightarrow> memory \<Rightarrow> (runtimeObject option \<times> memory) option" where
  "BucketList_DeepCopyObject C src m = do {
     (c, m1) \<leftarrow> BucketList_DeepCopy C src m;
     if c \<noteq> None then Some (Some (BucketListPointer c), m1) else Some (None, m1)
   }"

definition ProviderConfig_DeepCopyObject :: "copy_lib \<Rightarrow> addr option \<Rightarrow> memory \<Rightarrow> (runtimeObject option \<times> memory) option" where
  "ProviderConfig_DeepCopyObject C src m = do {
     (c, m1) \<leftarrow> ProviderConfig_DeepCopy C src m;
     if c \<noteq> None then Some (Some (ProviderConfigPointer c), m1) else Some (None, m1)
   }"

definition ProviderConfigList_DeepCopyObject :: "copy_lib \<Rightarrow> addr option \<Rightarrow> memory \<Rightarrow> (runtimeObject option \<times> memory) option" where
  "ProviderConfigList_DeepCopyObject C src m = do {
     (c, m1) \<leftarrow> ProviderConfigList_DeepCopy C src m;
     if c \<noteq> None then Some (Some (ProviderConfigListPointer c), m1) else Some (None, m1)
   }"

fun DeepCopyObject :: "copy_lib \<Rightarrow> runtimeObject \<Rightarrow> memory \<Rightarrow> (runtimeObject option \<times> memory) option" where
  "DeepCopyObject C (BucketPointer p) m = Bucket_DeepCopyObject C p m"
| "DeepCopyObject C (BucketListPointer p) m = BucketList_DeepCopyObject C p m"
| "DeepCopyObject C (ProviderConfigPointer p) m = ProviderConfig_DeepCopyObject C p m"
| "DeepCopyObject C (ProviderConfigListPointer p) m = ProviderConfigList_DeepCopyObject C p m"

section \<open>What the structs stand for\<close>

abbreviation readNil :: "(memory \<Rightarrow> 'a \<Rightarrow> 'v) \<Rightarrow> memory \<Rightarrow> 'a option \<Rightarrow> 'v option" where
  "readNil read \<equiv> (\<lambda>m. map_option (read m))"

abbreviation refsNil :: "(memory \<Rightarrow> 'a \<Rightarrow> addr set) \<Rightarrow> memory \<Rightarrow> 'a option \<Rightarrow> addr set" where
  "refsNil refs \<equiv> (\<lambda>m. case_option {} (refs m))"

abbreviation validNil :: "(memory \<Rightarrow> 'a \<Rightarrow> bool) \<Rightarrow> memory \<Rightarrow> 'a option \<Rightarrow> bool" where
  "validNil valid \<equiv> (\<lambda>m. case_option True (valid m))"

abbreviation readVal :: "memory \<Rightarrow> 'a \<Rightarrow> 'a" where "readVal \<equiv> (\<lambda>m x. x)"
abbreviation refsVal :: "memory \<Rightarrow> 'a \<Rightarrow> addr set" where "refsVal \<equiv> (\<lambda>m x. {})"
abbreviation validVal :: "memory \<Rightarrow> 'a \<Rightarrow> bool" where "validVal \<equiv> (\<lambda>m x. True)"

text \<open>A list field of \<open>ApiTypes\<close> does not tell a nil slice from an empty one.\<close>

definition nilList :: "'a list option \<Rightarrow> 'a list" where
  "nilList xs = (case xs of None \<Rightarrow> [] | Some xs \<Rightarrow> xs)"

definition readObjectMeta :: "memory \<Rightarrow> mObjectMeta \<Rightarrow> ObjectMeta" where
  "readObjectMeta m x = \<lparr>Name = mName x, Namespace = mNamespace x, UID = mUID x,
     ResourceVersion = mResourceVersion x, Generation = mGeneration x,
     DeletionTimestamp = readNil (readAt TimeType readVal) m (mDeletionTimestamp x),
     Finalizers = nilList (readNil (readSlice StringsType readVal) m (mFinalizers x))\<rparr>"

definition refsObjectMeta :: "memory \<Rightarrow> mObjectMeta \<Rightarrow> addr set" where
  "refsObjectMeta m x = refsNil (refsAt TimeType refsVal) m (mDeletionTimestamp x) \<union>
     refsNil (refsSlice StringsType refsVal) m (mFinalizers x)"

definition validObjectMeta :: "memory \<Rightarrow> mObjectMeta \<Rightarrow> bool" where
  "validObjectMeta m x \<longleftrightarrow> validNil (validAt TimeType validVal) m (mDeletionTimestamp x) \<and>
     validNil (validSlice StringsType validVal) m (mFinalizers x)"

record ListMeta =
  lmResourceVersion :: string
  lmContinue :: string
  lmRemainingItemCount :: "int option"

definition readListMeta :: "memory \<Rightarrow> mListMeta \<Rightarrow> ListMeta" where
  "readListMeta m x = \<lparr>lmResourceVersion = mlResourceVersion x, lmContinue = mlContinue x,
     lmRemainingItemCount = readNil (readAt CountType readVal) m (mlRemainingItemCount x)\<rparr>"

definition refsListMeta :: "memory \<Rightarrow> mListMeta \<Rightarrow> addr set" where
  "refsListMeta m x = refsNil (refsAt CountType refsVal) m (mlRemainingItemCount x)"

definition validListMeta :: "memory \<Rightarrow> mListMeta \<Rightarrow> bool" where
  "validListMeta m x \<longleftrightarrow> validNil (validAt CountType validVal) m (mlRemainingItemCount x)"

definition readSpec :: "memory \<Rightarrow> mBucketSpec \<Rightarrow> BucketSpec" where
  "readSpec m x = \<lparr>specProviderConfigRef = mProviderConfigRef x, specStorageClass = mStorageClass x,
     specACL = mACL x, specVersioning = mVersioning x, specParallelFS = mParallelFS x,
     specEnterpriseProjectID = mEnterpriseProjectID x,
     specTags = readNil (readMap TagsType) m (mTags x), specForceDestroy = mForceDestroy x,
     specLogging = readNil (readAt LoggingType readVal) m (mLogging x),
     specServerSideEncryption = readNil (readAt EncryptionType readVal) m (mServerSideEncryption x)\<rparr>"

definition refsSpec :: "memory \<Rightarrow> mBucketSpec \<Rightarrow> addr set" where
  "refsSpec m x = refsNil (refsAt TagsType refsVal) m (mTags x) \<union>
     (refsNil (refsAt LoggingType refsVal) m (mLogging x) \<union>
      refsNil (refsAt EncryptionType refsVal) m (mServerSideEncryption x))"

definition validSpec :: "memory \<Rightarrow> mBucketSpec \<Rightarrow> bool" where
  "validSpec m x \<longleftrightarrow> validNil (validMap TagsType) m (mTags x) \<and>
     validNil (validAt LoggingType validVal) m (mLogging x) \<and>
     validNil (validAt EncryptionType validVal) m (mServerSideEncryption x)"

definition readStatus :: "memory \<Rightarrow> mBucketStatus \<Rightarrow> BucketStatus" where
  "readStatus m x = \<lparr>stObservedGeneration = mObservedGeneration x, stRegion = mRegion x,
     stBucketDomainName = mBucketDomainName x, stBucketVersion = mBucketVersion x,
     stLastSyncTime = readNil (readAt TimeType readVal) m (mLastSyncTime x),
     stConditions = nilList (readNil (readSlice ConditionsType readVal) m (mConditions x))\<rparr>"

definition refsStatus :: "memory \<Rightarrow> mBucketStatus \<Rightarrow> addr set" where
  "refsStatus m x = refsNil (refsAt TimeType refsVal) m (mLastSyncTime x) \<union>
     refsNil (refsSlice ConditionsType refsVal) m (mConditions x)"

definition validStatus :: "memory \<Rightarrow> mBucketStatus \<Rightarrow> bool" where
  "validStatus m x \<longleftrightarrow> validNil (validAt TimeType validVal) m (mLastSyncTime x) \<and>
     validNil (validSlice ConditionsType validVal) m (mConditions x)"

definition readBucket :: "memory \<Rightarrow> mBucket \<Rightarrow> TypeMeta \<times> Bucket" where
  "readBucket m x = (mbTypeMeta x, \<lparr>bMeta = readObjectMeta m (mbMeta x), bSpec = readSpec m (mbSpec x),
     bStatus = readStatus m (mbStatus x)\<rparr>)"

definition refsBucket :: "memory \<Rightarrow> mBucket \<Rightarrow> addr set" where
  "refsBucket m x = refsObjectMeta m (mbMeta x) \<union> (refsSpec m (mbSpec x) \<union> refsStatus m (mbStatus x))"

definition validBucket :: "memory \<Rightarrow> mBucket \<Rightarrow> bool" where
  "validBucket m x \<longleftrightarrow> validObjectMeta m (mbMeta x) \<and> validSpec m (mbSpec x) \<and> validStatus m (mbStatus x)"

definition readBucketList :: "memory \<Rightarrow> mBucketList \<Rightarrow> TypeMeta \<times> ListMeta \<times> (TypeMeta \<times> Bucket) list option" where
  "readBucketList m x = (mblTypeMeta x, readListMeta m (mblListMeta x), readNil (readSlice BucketsType readBucket) m (mblItems x))"

definition refsBucketList :: "memory \<Rightarrow> mBucketList \<Rightarrow> addr set" where
  "refsBucketList m x = refsListMeta m (mblListMeta x) \<union> refsNil (refsSlice BucketsType refsBucket) m (mblItems x)"

definition validBucketList :: "memory \<Rightarrow> mBucketList \<Rightarrow> bool" where
  "validBucketList m x \<longleftrightarrow> validListMeta m (mblListMeta x) \<and> validNil (validSlice BucketsType validBucket) m (mblItems x)"

definition readProviderStatus :: "memory \<Rightarrow> mProviderConfigStatus \<Rightarrow> ProviderConfigStatus" where
  "readProviderStatus m x = \<lparr>pcObservedGeneration = mpObservedGeneration x,
     pcLastValidationTime = readNil (readAt TimeType readVal) m (mpLastValidationTime x),
     pcObservedProviderRevision = mpObservedProviderRevision x,
     pcConditions = nilList (readNil (readSlice ConditionsType readVal) m (mpConditions x))\<rparr>"

definition refsProviderStatus :: "memory \<Rightarrow> mProviderConfigStatus \<Rightarrow> addr set" where
  "refsProviderStatus m x = refsNil (refsAt TimeType refsVal) m (mpLastValidationTime x) \<union>
     refsNil (refsSlice ConditionsType refsVal) m (mpConditions x)"

definition validProviderStatus :: "memory \<Rightarrow> mProviderConfigStatus \<Rightarrow> bool" where
  "validProviderStatus m x \<longleftrightarrow> validNil (validAt TimeType validVal) m (mpLastValidationTime x) \<and>
     validNil (validSlice ConditionsType validVal) m (mpConditions x)"

definition readProviderConfig :: "memory \<Rightarrow> mProviderConfig \<Rightarrow> TypeMeta \<times> ProviderConfig" where
  "readProviderConfig m x = (mpTypeMeta x, \<lparr>pMeta = readObjectMeta m (mpMeta x), pSpec = mpSpec x,
     pStatus = readProviderStatus m (mpStatus x)\<rparr>)"

definition refsProviderConfig :: "memory \<Rightarrow> mProviderConfig \<Rightarrow> addr set" where
  "refsProviderConfig m x = refsObjectMeta m (mpMeta x) \<union> refsProviderStatus m (mpStatus x)"

definition validProviderConfig :: "memory \<Rightarrow> mProviderConfig \<Rightarrow> bool" where
  "validProviderConfig m x \<longleftrightarrow> validObjectMeta m (mpMeta x) \<and> validProviderStatus m (mpStatus x)"

definition readProviderConfigList ::
  "memory \<Rightarrow> mProviderConfigList \<Rightarrow> TypeMeta \<times> ListMeta \<times> (TypeMeta \<times> ProviderConfig) list option" where
  "readProviderConfigList m x = (mplTypeMeta x, readListMeta m (mplListMeta x),
     readNil (readSlice ProviderConfigsType readProviderConfig) m (mplItems x))"

definition refsProviderConfigList :: "memory \<Rightarrow> mProviderConfigList \<Rightarrow> addr set" where
  "refsProviderConfigList m x = refsListMeta m (mplListMeta x) \<union>
     refsNil (refsSlice ProviderConfigsType refsProviderConfig) m (mplItems x)"

definition validProviderConfigList :: "memory \<Rightarrow> mProviderConfigList \<Rightarrow> bool" where
  "validProviderConfigList m x \<longleftrightarrow> validListMeta m (mplListMeta x) \<and>
     validNil (validSlice ProviderConfigsType validProviderConfig) m (mplItems x)"

section \<open>The generated functions copy deeply\<close>

definition copyLaws :: "copy_lib \<Rightarrow> bool" where
  "copyLaws C \<longleftrightarrow> (\<forall>kvs. mset (mapRange C kvs) = mset kvs) \<and>
     deep_copy readObjectMeta refsObjectMeta validObjectMeta (ObjectMeta_DeepCopyInto C) \<and>
     deep_copy readListMeta refsListMeta validListMeta (ListMeta_DeepCopyInto C) \<and>
     deep_copy readVal refsVal validVal (Condition_DeepCopyInto C) \<and>
     deep_copy (readAt TimeType readVal) (refsAt TimeType refsVal) (validAt TimeType validVal) (Time_DeepCopy C)"

lemma copyLawsD:
  assumes "copyLaws C"
  shows "\<And>kvs. mset (mapRange C kvs) = mset kvs"
    "deep_copy readObjectMeta refsObjectMeta validObjectMeta (ObjectMeta_DeepCopyInto C)"
    "deep_copy readListMeta refsListMeta validListMeta (ListMeta_DeepCopyInto C)"
    "deep_copy readVal refsVal validVal (Condition_DeepCopyInto C)"
    "deep_copy (readAt TimeType readVal) (refsAt TimeType refsVal) (validAt TimeType validVal) (Time_DeepCopy C)"
  using assms by (simp_all only: copyLaws_def)

lemma copyPair_bind:
  "do { (p, m') \<leftarrow> copyPair c1 c2 q m; f p m' } =
   do { (x, m1) \<leftarrow> c1 (fst q) m; (y, m2) \<leftarrow> c2 (snd q) m1; f (x, y) m2 }"
  by (simp add: copyPair_def case_prod_beta')

lemma BucketSpec_deep:
  assumes "copyLaws C"
  shows "deep_copy readSpec refsSpec validSpec (BucketSpec_DeepCopyInto C)"
proof (rule deep_copy_struct)
  show "deep_copy (\<lambda>m (x, y). (readNil (readMap TagsType) m x, case y of (y, z) \<Rightarrow>
         (readNil (readAt LoggingType readVal) m y, readNil (readAt EncryptionType readVal) m z)))
     (\<lambda>m (x, y). refsNil (refsAt TagsType refsVal) m x \<union> (case y of (y, z) \<Rightarrow>
         refsNil (refsAt LoggingType refsVal) m y \<union> refsNil (refsAt EncryptionType refsVal) m z))
     (\<lambda>m (x, y). validNil (validMap TagsType) m x \<and> (case y of (y, z) \<Rightarrow>
         validNil (validAt LoggingType validVal) m y \<and> validNil (validAt EncryptionType validVal) m z))
     (copyPair (unlessNil (copyMap (mapRange C) TagsType))
       (copyPair (unlessNil (copyPointer LoggingType)) (unlessNil (copyPointer EncryptionType))))"
    by (intro deep_copy_pair deep_copy_nil deep_copy_map deep_copy_pointer copyLawsD [OF assms]
        tagsK.cell_kind_axioms loggingK.cell_kind_axioms encryptionK.cell_kind_axioms)
  let ?k = "\<lambda>x (t, l, e). \<lparr>specProviderConfigRef = mProviderConfigRef x, specStorageClass = mStorageClass x,
     specACL = mACL x, specVersioning = mVersioning x, specParallelFS = mParallelFS x,
     specEnterpriseProjectID = mEnterpriseProjectID x, specTags = t, specForceDestroy = mForceDestroy x,
     specLogging = l, specServerSideEncryption = e\<rparr>"
    and ?g = "\<lambda>x. (mTags x, mLogging x, mServerSideEncryption x)"
    and ?h = "\<lambda>x (t, l, e). x\<lparr>mTags := t, mLogging := l, mServerSideEncryption := e\<rparr>"
  show "readSpec m x = ?k x ((case ?g x of (x, y) \<Rightarrow> (readNil (readMap TagsType) m x, case y of (y, z) \<Rightarrow>
         (readNil (readAt LoggingType readVal) m y, readNil (readAt EncryptionType readVal) m z))))" for m x
    by (simp add: readSpec_def)
  show "?g (?h x p) = p" for x p by (simp split: prod.splits)
  show "?k (?h x p) = ?k x" for x p by (simp split: prod.splits)
qed (simp_all add: refsSpec_def validSpec_def BucketSpec_DeepCopyInto_def copyPair_bind)

text \<open>The two status types and the two list types have the same shape: a pair of copied fields.\<close>

lemma conditions_deep:
  assumes "copyLaws C"
  shows "deep_copy
     (\<lambda>m (x, y). (readNil (readAt TimeType readVal) m x, readNil (readSlice ConditionsType readVal) m y))
     (\<lambda>m (x, y). refsNil (refsAt TimeType refsVal) m x \<union> refsNil (refsSlice ConditionsType refsVal) m y)
     (\<lambda>m (x, y). validNil (validAt TimeType validVal) m x \<and> validNil (validSlice ConditionsType validVal) m y)
     (copyPair (unlessNil (Time_DeepCopy C))
        (unlessNil (copySlice ConditionsType zeroCondition (Condition_DeepCopyInto C))))"
  by (intro deep_copy_pair deep_copy_nil deep_copy_slice copyLawsD [OF assms] conditionsK.cell_kind_axioms)

lemma BucketStatus_deep:
  assumes "copyLaws C"
  shows "deep_copy readStatus refsStatus validStatus (BucketStatus_DeepCopyInto C)"
proof (rule deep_copy_struct [OF conditions_deep [OF assms]])
  let ?k = "\<lambda>x (t, c). \<lparr>stObservedGeneration = mObservedGeneration x, stRegion = mRegion x,
     stBucketDomainName = mBucketDomainName x, stBucketVersion = mBucketVersion x,
     stLastSyncTime = t, stConditions = nilList c\<rparr>"
    and ?g = "\<lambda>x. (mLastSyncTime x, mConditions x)"
    and ?h = "\<lambda>x (t, c). x\<lparr>mLastSyncTime := t, mConditions := c\<rparr>"
  show "readStatus m x = ?k x (case ?g x of (x, y) \<Rightarrow>
      (readNil (readAt TimeType readVal) m x, readNil (readSlice ConditionsType readVal) m y))" for m x
    by (simp add: readStatus_def)
  show "?g (?h x p) = p" for x p by (simp split: prod.splits)
  show "?k (?h x p) = ?k x" for x p by (simp split: prod.splits)
qed (simp_all add: refsStatus_def validStatus_def BucketStatus_DeepCopyInto_def copyPair_bind)

lemma Bucket_deep:
  assumes "copyLaws C"
  shows "deep_copy readBucket refsBucket validBucket (Bucket_DeepCopyInto C)"
proof (rule deep_copy_struct)
  show "deep_copy (\<lambda>m (x, y). (readObjectMeta m x, case y of (y, z) \<Rightarrow> (readSpec m y, readStatus m z)))
     (\<lambda>m (x, y). refsObjectMeta m x \<union> (case y of (y, z) \<Rightarrow> refsSpec m y \<union> refsStatus m z))
     (\<lambda>m (x, y). validObjectMeta m x \<and> (case y of (y, z) \<Rightarrow> validSpec m y \<and> validStatus m z))
     (copyPair (ObjectMeta_DeepCopyInto C) (copyPair (BucketSpec_DeepCopyInto C) (BucketStatus_DeepCopyInto C)))"
    by (intro deep_copy_pair BucketSpec_deep BucketStatus_deep copyLawsD assms)
  let ?k = "\<lambda>x (a, b, c). (mbTypeMeta x, \<lparr>bMeta = a, bSpec = b, bStatus = c\<rparr>)"
    and ?g = "\<lambda>x. (mbMeta x, mbSpec x, mbStatus x)"
    and ?h = "\<lambda>x (a, b, c). x\<lparr>mbMeta := a, mbSpec := b, mbStatus := c\<rparr>"
  show "readBucket m x = ?k x (case ?g x of (x, y) \<Rightarrow> (readObjectMeta m x,
      case y of (y, z) \<Rightarrow> (readSpec m y, readStatus m z)))" for m x by (simp add: readBucket_def)
  show "?g (?h x p) = p" for x p by (simp split: prod.splits)
  show "?k (?h x p) = ?k x" for x p by (simp split: prod.splits)
qed (simp_all add: refsBucket_def validBucket_def Bucket_DeepCopyInto_def copyPair_bind)

lemma BucketList_deep:
  assumes "copyLaws C"
  shows "deep_copy readBucketList refsBucketList validBucketList (BucketList_DeepCopyInto C)"
proof (rule deep_copy_struct)
  show "deep_copy (\<lambda>m (x, y). (readListMeta m x, readNil (readSlice BucketsType readBucket) m y))
     (\<lambda>m (x, y). refsListMeta m x \<union> refsNil (refsSlice BucketsType refsBucket) m y)
     (\<lambda>m (x, y). validListMeta m x \<and> validNil (validSlice BucketsType validBucket) m y)
     (copyPair (ListMeta_DeepCopyInto C) (unlessNil (copySlice BucketsType zeroBucket (Bucket_DeepCopyInto C))))"
    by (intro deep_copy_pair deep_copy_nil deep_copy_slice Bucket_deep copyLawsD assms bucketsK.cell_kind_axioms)
  let ?k = "\<lambda>x (a, b). (mblTypeMeta x, a, b)" and ?g = "\<lambda>x. (mblListMeta x, mblItems x)"
    and ?h = "\<lambda>x (a, b). x\<lparr>mblListMeta := a, mblItems := b\<rparr>"
  show "readBucketList m x = ?k x (case ?g x of (x, y) \<Rightarrow>
      (readListMeta m x, readNil (readSlice BucketsType readBucket) m y))" for m x by (simp add: readBucketList_def)
  show "?g (?h x p) = p" for x p by (simp split: prod.splits)
  show "?k (?h x p) = ?k x" for x p by (simp split: prod.splits)
qed (simp_all add: refsBucketList_def validBucketList_def BucketList_DeepCopyInto_def copyPair_bind)

lemma ProviderConfigStatus_deep:
  assumes "copyLaws C"
  shows "deep_copy readProviderStatus refsProviderStatus validProviderStatus (ProviderConfigStatus_DeepCopyInto C)"
proof (rule deep_copy_struct [OF conditions_deep [OF assms]])
  let ?k = "\<lambda>x (t, c). \<lparr>pcObservedGeneration = mpObservedGeneration x, pcLastValidationTime = t,
     pcObservedProviderRevision = mpObservedProviderRevision x, pcConditions = nilList c\<rparr>"
    and ?g = "\<lambda>x. (mpLastValidationTime x, mpConditions x)"
    and ?h = "\<lambda>x (t, c). x\<lparr>mpLastValidationTime := t, mpConditions := c\<rparr>"
  show "readProviderStatus m x = ?k x (case ?g x of (x, y) \<Rightarrow>
      (readNil (readAt TimeType readVal) m x, readNil (readSlice ConditionsType readVal) m y))" for m x
    by (simp add: readProviderStatus_def)
  show "?g (?h x p) = p" for x p by (simp split: prod.splits)
  show "?k (?h x p) = ?k x" for x p by (simp split: prod.splits)
qed (simp_all add: refsProviderStatus_def validProviderStatus_def ProviderConfigStatus_DeepCopyInto_def copyPair_bind)

lemma ProviderConfig_deep:
  assumes "copyLaws C"
  shows "deep_copy readProviderConfig refsProviderConfig validProviderConfig (ProviderConfig_DeepCopyInto C)"
proof (rule deep_copy_struct)
  show "deep_copy (\<lambda>m (x, y). (readObjectMeta m x, readProviderStatus m y))
     (\<lambda>m (x, y). refsObjectMeta m x \<union> refsProviderStatus m y)
     (\<lambda>m (x, y). validObjectMeta m x \<and> validProviderStatus m y)
     (copyPair (ObjectMeta_DeepCopyInto C) (ProviderConfigStatus_DeepCopyInto C))"
    by (intro deep_copy_pair ProviderConfigStatus_deep copyLawsD assms)
  let ?k = "\<lambda>x (a, b). (mpTypeMeta x, \<lparr>pMeta = a, pSpec = mpSpec x, pStatus = b\<rparr>)"
    and ?g = "\<lambda>x. (mpMeta x, mpStatus x)" and ?h = "\<lambda>x (a, b). x\<lparr>mpMeta := a, mpStatus := b\<rparr>"
  show "readProviderConfig m x = ?k x (case ?g x of (x, y) \<Rightarrow> (readObjectMeta m x, readProviderStatus m y))" for m x
    by (simp add: readProviderConfig_def)
  show "?g (?h x p) = p" for x p by (simp split: prod.splits)
  show "?k (?h x p) = ?k x" for x p by (simp split: prod.splits)
qed (simp_all add: refsProviderConfig_def validProviderConfig_def ProviderConfig_DeepCopyInto_def copyPair_bind)

lemma ProviderConfigList_deep:
  assumes "copyLaws C"
  shows "deep_copy readProviderConfigList refsProviderConfigList validProviderConfigList (ProviderConfigList_DeepCopyInto C)"
proof (rule deep_copy_struct)
  show "deep_copy (\<lambda>m (x, y). (readListMeta m x, readNil (readSlice ProviderConfigsType readProviderConfig) m y))
     (\<lambda>m (x, y). refsListMeta m x \<union> refsNil (refsSlice ProviderConfigsType refsProviderConfig) m y)
     (\<lambda>m (x, y). validListMeta m x \<and> validNil (validSlice ProviderConfigsType validProviderConfig) m y)
     (copyPair (ListMeta_DeepCopyInto C)
       (unlessNil (copySlice ProviderConfigsType zeroProviderConfig (ProviderConfig_DeepCopyInto C))))"
    by (intro deep_copy_pair deep_copy_nil deep_copy_slice ProviderConfig_deep copyLawsD assms
        providerConfigsK.cell_kind_axioms)
  let ?k = "\<lambda>x (a, b). (mplTypeMeta x, a, b)" and ?g = "\<lambda>x. (mplListMeta x, mplItems x)"
    and ?h = "\<lambda>x (a, b). x\<lparr>mplListMeta := a, mplItems := b\<rparr>"
  show "readProviderConfigList m x = ?k x (case ?g x of (x, y) \<Rightarrow>
      (readListMeta m x, readNil (readSlice ProviderConfigsType readProviderConfig) m y))" for m x
    by (simp add: readProviderConfigList_def)
  show "?g (?h x p) = p" for x p by (simp split: prod.splits)
  show "?k (?h x p) = ?k x" for x p by (simp split: prod.splits)
qed (simp_all add: refsProviderConfigList_def validProviderConfigList_def ProviderConfigList_DeepCopyInto_def copyPair_bind)

text \<open>The types without pointers.\<close>

interpretation loggingCopy: deep_copy readVal refsVal validVal BucketLoggingSpec_DeepCopyInto
  by unfold_locales (simp_all add: BucketLoggingSpec_DeepCopyInto_def)

interpretation encryptionCopy: deep_copy readVal refsVal validVal BucketServerSideEncryptionSpec_DeepCopyInto
  by unfold_locales (simp_all add: BucketServerSideEncryptionSpec_DeepCopyInto_def)

interpretation providerSpecCopy: deep_copy readVal refsVal validVal ProviderConfigSpec_DeepCopyInto
  by unfold_locales (simp_all add: ProviderConfigSpec_DeepCopyInto_def)

end
