(* ===== verification/DeepCopyTheorems.thy ===== *)
theory DeepCopyTheorems
  imports DeepCopy
begin

text \<open>
  Properties of the generated copying functions, and copying functions for the types of apimachinery
  on which the witnesses run.
\<close>

section \<open>A library of copying functions\<close>

definition sampleMetaCopy :: "mObjectMeta copier" where
  "sampleMetaCopy src m = do {
     (t, m1) \<leftarrow> unlessNil (copyPointer TimeType) (mDeletionTimestamp src) m;
     (f, m2) \<leftarrow> unlessNil (copySlice StringsType '''' (\<lambda>x m. Some (x, m))) (mFinalizers src) m1;
     Some (src\<lparr>mDeletionTimestamp := t, mFinalizers := f\<rparr>, m2)
   }"

definition sampleListMetaCopy :: "mListMeta copier" where
  "sampleListMetaCopy src m = do {
     (c, m1) \<leftarrow> unlessNil (copyPointer CountType) (mlRemainingItemCount src) m;
     Some (src\<lparr>mlRemainingItemCount := c\<rparr>, m1)
   }"

definition sampleCopyLib :: copy_lib where
  "sampleCopyLib = \<lparr>mapRange = rev, ObjectMeta_DeepCopyInto = sampleMetaCopy,
     ListMeta_DeepCopyInto = sampleListMetaCopy, Condition_DeepCopyInto = (\<lambda>x m. Some (x, m)),
     Time_DeepCopy = copyPointer TimeType\<rparr>"

lemma sampleMetaCopy_deep: "deep_copy readObjectMeta refsObjectMeta validObjectMeta sampleMetaCopy"
proof (rule deep_copy_struct)
  show "deep_copy (\<lambda>m (x, y). (readNil (readAt TimeType readVal) m x, readNil (readSlice StringsType readVal) m y))
     (\<lambda>m (x, y). refsNil (refsAt TimeType refsVal) m x \<union> refsNil (refsSlice StringsType refsVal) m y)
     (\<lambda>m (x, y). validNil (validAt TimeType validVal) m x \<and> validNil (validSlice StringsType validVal) m y)
     (copyPair (unlessNil (copyPointer TimeType)) (unlessNil (copySlice StringsType '''' (\<lambda>x m. Some (x, m)))))"
    by (intro deep_copy_pair deep_copy_nil deep_copy_slice deep_copy_pointer deep_copy_value
        timeK.cell_kind_axioms stringsK.cell_kind_axioms)
  let ?k = "\<lambda>x (t, f). \<lparr>Name = mName x, Namespace = mNamespace x, UID = mUID x,
     ResourceVersion = mResourceVersion x, Generation = mGeneration x, DeletionTimestamp = t, Finalizers = nilList f\<rparr>"
    and ?g = "\<lambda>x. (mDeletionTimestamp x, mFinalizers x)"
    and ?h = "\<lambda>x (t, f). x\<lparr>mDeletionTimestamp := t, mFinalizers := f\<rparr>"
  show "readObjectMeta m x = ?k x (case ?g x of (x, y) \<Rightarrow>
      (readNil (readAt TimeType readVal) m x, readNil (readSlice StringsType readVal) m y))" for m x
    by (simp add: readObjectMeta_def)
  show "?g (?h x p) = p" for x p by (simp split: prod.splits)
  show "?k (?h x p) = ?k x" for x p by (simp split: prod.splits)
qed (simp_all add: refsObjectMeta_def validObjectMeta_def sampleMetaCopy_def copyPair_bind)

lemma sampleListMetaCopy_deep: "deep_copy readListMeta refsListMeta validListMeta sampleListMetaCopy"
proof (rule deep_copy_struct [OF deep_copy_nil [OF deep_copy_pointer [OF countK.cell_kind_axioms]]])
  let ?k = "\<lambda>x c. \<lparr>lmResourceVersion = mlResourceVersion x, lmContinue = mlContinue x, lmRemainingItemCount = c\<rparr>"
    and ?h = "\<lambda>x c. x\<lparr>mlRemainingItemCount := c\<rparr>"
  show "readListMeta m x = ?k x (readNil (readAt CountType readVal) m (mlRemainingItemCount x))" for m x
    by (simp add: readListMeta_def)
  show "mlRemainingItemCount (?h x p) = p" for x p by simp
  show "?k (?h x p) = ?k x" for x p by simp
qed (simp_all add: refsListMeta_def validListMeta_def sampleListMetaCopy_def)

lemma sample_copyLaws: "copyLaws sampleCopyLib"
  unfolding copyLaws_def sampleCopyLib_def
  using sampleMetaCopy_deep sampleListMetaCopy_deep deep_copy_value deep_copy_pointer [OF timeK.cell_kind_axioms]
  by simp

section \<open>DeepCopy\<close>

text \<open>
  Cells that a copy and its source may share after any writes: none. \<open>copiedApart\<close> says what the
  contract of \<open>deep_copy\<close> means to a caller: no panic, nothing that existed is written, the copy
  reads as the source did, and writes through one of the two are not seen through the other.
\<close>

definition copiedApart :: "(memory \<Rightarrow> 'a \<Rightarrow> 'v) \<Rightarrow> (memory \<Rightarrow> 'a \<Rightarrow> addr set) \<Rightarrow> 'a copier \<Rightarrow> memory \<Rightarrow> 'a \<Rightarrow> bool" where
  "copiedApart read refs copy m x \<longleftrightarrow> (\<exists>y m'. copy x m = Some (y, m') \<and> prefix m m' \<and> read m' y = read m x \<and>
     refs m' x \<inter> refs m' y = {} \<and>
     (\<forall>m''. length m' \<le> length m'' \<longrightarrow>
        ((\<forall>a < length m'. a \<notin> refs m' x \<longrightarrow> m'' ! a = m' ! a) \<longrightarrow> read m'' y = read m x) \<and>
        ((\<forall>a < length m'. a \<notin> refs m' y \<longrightarrow> m'' ! a = m' ! a) \<longrightarrow> read m'' x = read m x)))"

lemma deep_copiedApart:
  assumes D: "deep_copy read refs valid copy" and v: "valid m x"
  shows "copiedApart read refs copy m x"
proof -
  from deep_copy.copies [OF D v] obtain y m' where y: "copy x m = Some (y, m')" by blast
  note c = deep_copy.copied [OF D v y] deep_copy.separate [OF D v y]
  show ?thesis
    unfolding copiedApart_def
    by (intro exI [of _ y] exI [of _ m'] conjI y c allI impI)
      (auto intro: deep_copy.isolated [OF D v y])
qed

definition copiesPointer :: "'a cell_type \<Rightarrow> (memory \<Rightarrow> 'a \<Rightarrow> 'v) \<Rightarrow> (memory \<Rightarrow> 'a \<Rightarrow> addr set) \<Rightarrow>
    (memory \<Rightarrow> 'a \<Rightarrow> bool) \<Rightarrow> addr option copier \<Rightarrow> bool" where
  "copiesPointer K read refs valid copy \<longleftrightarrow> (\<forall>m p. validNil (validAt K valid) m p \<longrightarrow>
     copiedApart (readNil (readAt K read)) (refsNil (refsAt K refs)) copy m p)"

lemma newDeepCopy_copies:
  assumes "deep_copy read refs valid ci" "cell_kind K"
  shows "copiesPointer K read refs valid (unlessNil (newDeepCopy K ci))"
  unfolding copiesPointer_def
  by (intro allI impI deep_copiedApart [OF deep_copy_nil [OF deep_copy_at [OF assms]]])

lemmas DeepCopy_defs = Bucket_DeepCopy_def BucketList_DeepCopy_def BucketSpec_DeepCopy_def
  BucketStatus_DeepCopy_def BucketLoggingSpec_DeepCopy_def BucketServerSideEncryptionSpec_DeepCopy_def
  ProviderConfig_DeepCopy_def ProviderConfigList_DeepCopy_def ProviderConfigSpec_DeepCopy_def
  ProviderConfigStatus_DeepCopy_def

text \<open>A memory with a Bucket at address 5, with tags, logging, a sync time, a condition and a finalizer.\<close>

definition sampleMemory :: memory where
  "sampleMemory =
     [TagsCell [(''env'', ''prod''), (''app'', ''web'')],
      LoggingCell \<lparr>logTargetBucket = ''logs'', logTargetPrefix = '''', logAgency = ''agency''\<rparr>,
      TimeCell 7,
      ConditionsCell [zeroCondition\<lparr>cType := ''Ready''\<rparr>],
      StringsCell [''bucket.obs'', ''other''],
      BucketCell (zeroBucket
        \<lparr>mbMeta := zeroObjectMeta\<lparr>mName := ''data'', mFinalizers := Some \<lparr>slArray = 4, slOffset = 0, slLen = 1\<rparr>\<rparr>,
         mbSpec := zeroSpec\<lparr>mTags := Some 0, mLogging := Some 1\<rparr>,
         mbStatus := zeroStatus\<lparr>mLastSyncTime := Some 2, mConditions := Some \<lparr>slArray = 3, slOffset = 0, slLen = 1\<rparr>\<rparr>\<rparr>)]"

lemmas view_defs = validBucket_def validObjectMeta_def validSpec_def validStatus_def validAt_def validSlice_def
  readBucket_def readObjectMeta_def readSpec_def readStatus_def readAt_def readSlice_def
  elemsOf_def sliceElems_def cellOf_def load_def nilList_def

lemmas zero_defs = zeroBucket_def zeroTypeMeta_def zeroObjectMeta_def zeroSpec_def zeroStatus_def zeroCondition_def

lemma sampleMemory_valid: "validAt BucketType validBucket sampleMemory 5"
  by (simp add: view_defs zero_defs type_defs sampleMemory_def gomap_wf_def)

text \<open>
  C18. Every generated \<open>DeepCopy\<close>, on a pointer to a well-formed struct or on nil, returns without a
  panic, writes to no existing variable, and gives a pointer to an equal struct of which no part is
  shared with the source: writes through either are invisible through the other.
\<close>

theorem deep_copies:
  assumes "copyLaws C"
  shows "copiesPointer BucketType readBucket refsBucket validBucket (Bucket_DeepCopy C) \<and>
    copiesPointer BucketListType readBucketList refsBucketList validBucketList (BucketList_DeepCopy C) \<and>
    copiesPointer SpecType readSpec refsSpec validSpec (BucketSpec_DeepCopy C) \<and>
    copiesPointer StatusType readStatus refsStatus validStatus (BucketStatus_DeepCopy C) \<and>
    copiesPointer LoggingType readVal refsVal validVal BucketLoggingSpec_DeepCopy \<and>
    copiesPointer EncryptionType readVal refsVal validVal BucketServerSideEncryptionSpec_DeepCopy \<and>
    copiesPointer ProviderConfigType readProviderConfig refsProviderConfig validProviderConfig (ProviderConfig_DeepCopy C) \<and>
    copiesPointer ProviderConfigListType readProviderConfigList refsProviderConfigList validProviderConfigList
      (ProviderConfigList_DeepCopy C) \<and>
    copiesPointer ProviderSpecType readVal refsVal validVal ProviderConfigSpec_DeepCopy \<and>
    copiesPointer ProviderStatusType readProviderStatus refsProviderStatus validProviderStatus (ProviderConfigStatus_DeepCopy C)"
  unfolding DeepCopy_defs
  by (intro conjI newDeepCopy_copies Bucket_deep BucketList_deep BucketSpec_deep BucketStatus_deep
      ProviderConfig_deep ProviderConfigList_deep ProviderConfigStatus_deep assms loggingCopy.deep_copy_axioms
      encryptionCopy.deep_copy_axioms providerSpecCopy.deep_copy_axioms bucketK.cell_kind_axioms
      bucketListK.cell_kind_axioms specK.cell_kind_axioms statusK.cell_kind_axioms loggingK.cell_kind_axioms
      encryptionK.cell_kind_axioms providerConfigK.cell_kind_axioms providerConfigListK.cell_kind_axioms
      providerSpecK.cell_kind_axioms providerStatusK.cell_kind_axioms)

theorem deep_copies_witness:
  "copiedApart (readNil (readAt BucketType readBucket)) (refsNil (refsAt BucketType refsBucket))
     (Bucket_DeepCopy sampleCopyLib) sampleMemory (Some 5)"
proof -
  have "copiesPointer BucketType readBucket refsBucket validBucket (Bucket_DeepCopy sampleCopyLib)"
    using deep_copies [OF sample_copyLaws] by (rule conjunct1)
  then show ?thesis using sampleMemory_valid by (simp add: copiesPointer_def)
qed

section \<open>DeepCopyObject\<close>

fun pointerOf :: "runtimeObject \<Rightarrow> addr option" where
  "pointerOf (BucketPointer p) = p"
| "pointerOf (BucketListPointer p) = p"
| "pointerOf (ProviderConfigPointer p) = p"
| "pointerOf (ProviderConfigListPointer p) = p"

fun validObject :: "memory \<Rightarrow> runtimeObject \<Rightarrow> bool" where
  "validObject m (BucketPointer p) \<longleftrightarrow> validNil (validAt BucketType validBucket) m p"
| "validObject m (BucketListPointer p) \<longleftrightarrow> validNil (validAt BucketListType validBucketList) m p"
| "validObject m (ProviderConfigPointer p) \<longleftrightarrow> validNil (validAt ProviderConfigType validProviderConfig) m p"
| "validObject m (ProviderConfigListPointer p) \<longleftrightarrow> validNil (validAt ProviderConfigListType validProviderConfigList) m p"

text \<open>Two objects have the same dynamic type and equal contents, in their memories.\<close>

fun sameObject :: "memory \<Rightarrow> runtimeObject \<Rightarrow> memory \<Rightarrow> runtimeObject \<Rightarrow> bool" where
  "sameObject m (BucketPointer p) m' (BucketPointer q) \<longleftrightarrow>
     readNil (readAt BucketType readBucket) m p = readNil (readAt BucketType readBucket) m' q"
| "sameObject m (BucketListPointer p) m' (BucketListPointer q) \<longleftrightarrow>
     readNil (readAt BucketListType readBucketList) m p = readNil (readAt BucketListType readBucketList) m' q"
| "sameObject m (ProviderConfigPointer p) m' (ProviderConfigPointer q) \<longleftrightarrow>
     readNil (readAt ProviderConfigType readProviderConfig) m p = readNil (readAt ProviderConfigType readProviderConfig) m' q"
| "sameObject m (ProviderConfigListPointer p) m' (ProviderConfigListPointer q) \<longleftrightarrow>
     readNil (readAt ProviderConfigListType readProviderConfigList) m p =
     readNil (readAt ProviderConfigListType readProviderConfigList) m' q"
| "sameObject m _ m' _ \<longleftrightarrow> False"

lemma newDeepCopy_object:
  assumes "deep_copy read refs valid ci" "cell_kind K" "validNil (validAt K valid) m p"
  shows "\<exists>q m'. unlessNil (newDeepCopy K ci) p m = Some (q, m') \<and> prefix m m' \<and> (q = None \<longleftrightarrow> p = None) \<and>
    validNil (validAt K valid) m' q \<and> readNil (readAt K read) m p = readNil (readAt K read) m' q"
proof -
  from deep_copy.copies [OF deep_copy_nil [OF deep_copy_at [OF assms(1,2)]] assms(3)]
  obtain q m' where q: "unlessNil (newDeepCopy K ci) p m = Some (q, m')" "prefix m m'"
    "validNil (validAt K valid) m' q" "readNil (readAt K read) m' q = readNil (readAt K read) m p" by blast
  from q(4) have "q = None \<longleftrightarrow> p = None" by (metis option.map_disc_iff)
  with q show ?thesis by (intro exI [of _ q] exI [of _ m']) simp
qed

text \<open>
  C32. \<open>DeepCopyObject\<close> returns a nil interface value, not an interface holding a nil pointer, exactly
  when its receiver is nil. Otherwise the result holds a pointer of the same dynamic type to a
  well-formed object with equal contents, and nothing that existed has been written.
\<close>

theorem deep_copy_object:
  assumes "copyLaws C" "validObject m obj"
  shows "\<exists>res m'. DeepCopyObject C obj m = Some (res, m') \<and> prefix m m' \<and> (res = None \<longleftrightarrow> pointerOf obj = None) \<and>
    (\<forall>obj'. res = Some obj' \<longrightarrow> pointerOf obj' \<noteq> None \<and> validObject m' obj' \<and> sameObject m obj m' obj')"
proof (cases obj)
  case (BucketPointer p)
  then show ?thesis
    using newDeepCopy_object [OF Bucket_deep [OF assms(1)] bucketK.cell_kind_axioms, of m p] assms(2)
    by (auto simp: Bucket_DeepCopyObject_def Bucket_DeepCopy_def)
next
  case (BucketListPointer p)
  then show ?thesis
    using newDeepCopy_object [OF BucketList_deep [OF assms(1)] bucketListK.cell_kind_axioms, of m p] assms(2)
    by (auto simp: BucketList_DeepCopyObject_def BucketList_DeepCopy_def)
next
  case (ProviderConfigPointer p)
  then show ?thesis
    using newDeepCopy_object [OF ProviderConfig_deep [OF assms(1)] providerConfigK.cell_kind_axioms, of m p] assms(2)
    by (auto simp: ProviderConfig_DeepCopyObject_def ProviderConfig_DeepCopy_def)
next
  case (ProviderConfigListPointer p)
  then show ?thesis
    using newDeepCopy_object [OF ProviderConfigList_deep [OF assms(1)] providerConfigListK.cell_kind_axioms, of m p] assms(2)
    by (auto simp: ProviderConfigList_DeepCopyObject_def ProviderConfigList_DeepCopy_def)
qed

theorem deep_copy_object_witness:
  "\<exists>obj' m'. DeepCopyObject sampleCopyLib (BucketPointer (Some 5)) sampleMemory = Some (Some obj', m') \<and>
     sameObject sampleMemory (BucketPointer (Some 5)) m' obj'"
  using deep_copy_object [OF sample_copyLaws, of sampleMemory "BucketPointer (Some 5)"] sampleMemory_valid by auto

end
