(* ===== verification/MemoryStatus.thy ===== *)
theory MemoryStatus
  imports DeepCopyTheorems ProviderConfigController BucketReconcile
begin

text \<open>
  The three functions that copy an object before they change it, on memory: \<open>updateBucketStatus\<close>,
  \<open>patchFinalizer\<close> and \<open>updateProviderConfigStatus\<close>. The other theories model them on values. Here the
  next status starts as a shallow copy of the current one, so its conditions share their array, and
  apimachinery may change conditions and finalizers in place; what is compared and sent is
  nevertheless what the model on values says, because \<open>original\<close> is a deep copy.
\<close>

section \<open>Operations\<close>

text \<open>
  Functions of apimachinery and controller-runtime that change a slice through a pointer to it: the
  old slice, the new one and the new memory.
\<close>

record mem_lib =
  memSetStatusCondition :: "time \<Rightarrow> slice option \<Rightarrow> Condition \<Rightarrow> memory \<Rightarrow> (slice option \<times> memory) option"
  memAddFinalizer :: "slice option \<Rightarrow> string \<Rightarrow> memory \<Rightarrow> (slice option \<times> memory) option"
  memRemoveFinalizer :: "slice option \<Rightarrow> string \<Rightarrow> memory \<Rightarrow> (slice option \<times> memory) option"

text \<open>\<open>reflect.DeepEqual\<close> on slices of conditions: a nil slice only equals a nil slice.\<close>

definition deepEqualConditions :: "memory \<Rightarrow> slice option \<Rightarrow> slice option \<Rightarrow> bool" where
  "deepEqualConditions m xs ys \<longleftrightarrow>
     readNil (readSlice ConditionsType readVal) m xs = readNil (readSlice ConditionsType readVal) m ys"

definition memBucketStatusChanged :: "memory \<Rightarrow> mBucketStatus \<Rightarrow> mBucketStatus \<Rightarrow> bool" where
  "memBucketStatusChanged m original nextStatus \<longleftrightarrow>
     mObservedGeneration original \<noteq> mObservedGeneration nextStatus \<or>
     mRegion original \<noteq> mRegion nextStatus \<or>
     mBucketDomainName original \<noteq> mBucketDomainName nextStatus \<or>
     mBucketVersion original \<noteq> mBucketVersion nextStatus \<or>
     mLastSyncTime original = None \<or>
     \<not> deepEqualConditions m (mConditions original) (mConditions nextStatus)"

text \<open>The fields of the next status before its conditions are set.\<close>

definition memNextStatus :: "mBucket \<Rightarrow> 'c ResolvedClient option \<Rightarrow> GetBucketMetadataOutput option \<Rightarrow> mBucketStatus" where
  "memNextStatus b resolved metadata =
     (let s0 = (mbStatus b)\<lparr>mObservedGeneration := mGeneration (mbMeta b)\<rparr>;
          s1 = (case resolved of
                  None \<Rightarrow> s0
                | Some r \<Rightarrow> s0\<lparr>mRegion := rcRegion r,
                              mBucketDomainName := bucketDomainName (mName (mbMeta b)) (rcRegion r)\<rparr>)
      in case metadata of None \<Rightarrow> s1 | Some md \<Rightarrow> s1\<lparr>mBucketVersion := mdVersion md\<rparr>)"

text \<open>
  Up to the patch: the result is \<open>None\<close> when there is nothing to patch, and else the original to which
  the patch of \<open>bucket\<close> is relative. \<open>t\<close> and \<open>now\<close> are the times at which the clock is read.
\<close>

definition memUpdateBucketStatus :: "copy_lib \<Rightarrow> mem_lib \<Rightarrow> time \<Rightarrow> time \<Rightarrow> addr \<Rightarrow> 'c ResolvedClient option \<Rightarrow>
    Condition \<Rightarrow> GetBucketMetadataOutput option \<Rightarrow> memory \<Rightarrow> (addr option \<times> memory) option" where
  "memUpdateBucketStatus C S t now bucket resolved condition metadata m = do {
     (copy, m1) \<leftarrow> Bucket_DeepCopy C (Some bucket) m;
     original \<leftarrow> copy;
     b \<leftarrow> load BucketType bucket m1;
     let nextStatus = memNextStatus b resolved metadata;
     (conditions, m2) \<leftarrow> memSetStatusCondition S t (mConditions nextStatus) condition m1;
     let nextStatus = nextStatus\<lparr>mConditions := conditions\<rparr>;
     orig \<leftarrow> load BucketType original m2;
     if \<not> memBucketStatusChanged m2 (mbStatus orig) nextStatus then Some (None, m2)
     else do {
       let (nowPtr, m3) = new (mk TimeType now) m2;
       let nextStatus = nextStatus\<lparr>mLastSyncTime := Some nowPtr\<rparr>;
       m4 \<leftarrow> store BucketType bucket (b\<lparr>mbStatus := nextStatus\<rparr>) m3;
       Some (Some original, m4)
     }
   }"

definition memPatchFinalizer :: "copy_lib \<Rightarrow> addr \<Rightarrow> (slice option \<Rightarrow> memory \<Rightarrow> (slice option \<times> memory) option) \<Rightarrow>
    memory \<Rightarrow> (addr \<times> memory) option" where
  "memPatchFinalizer C bucket mutate m = do {
     (copy, m1) \<leftarrow> Bucket_DeepCopy C (Some bucket) m;
     original \<leftarrow> copy;
     b \<leftarrow> load BucketType bucket m1;
     (finalizers, m2) \<leftarrow> mutate (mFinalizers (mbMeta b)) m1;
     m3 \<leftarrow> store BucketType bucket (b\<lparr>mbMeta := (mbMeta b)\<lparr>mFinalizers := finalizers\<rparr>\<rparr>) m2;
     Some (original, m3)
   }"

definition memProviderConfigStatusChanged :: "memory \<Rightarrow> mProviderConfigStatus \<Rightarrow> mProviderConfigStatus \<Rightarrow> bool" where
  "memProviderConfigStatusChanged m original nextStatus \<longleftrightarrow>
     mpObservedGeneration original \<noteq> mpObservedGeneration nextStatus \<or>
     mpObservedProviderRevision original \<noteq> mpObservedProviderRevision nextStatus \<or>
     mpLastValidationTime original = None \<or>
     \<not> deepEqualConditions m (mpConditions original) (mpConditions nextStatus)"

definition memUpdateProviderConfigStatus :: "copy_lib \<Rightarrow> mem_lib \<Rightarrow> time \<Rightarrow> time \<Rightarrow> addr \<Rightarrow> Condition \<Rightarrow> string \<Rightarrow>
    memory \<Rightarrow> (addr option \<times> memory) option" where
  "memUpdateProviderConfigStatus C S t now providerConfig condition providerRevision m = do {
     (copy, m1) \<leftarrow> ProviderConfig_DeepCopy C (Some providerConfig) m;
     original \<leftarrow> copy;
     p \<leftarrow> load ProviderConfigType providerConfig m1;
     let nextStatus = (mpStatus p)\<lparr>mpObservedGeneration := mGeneration (mpMeta p)\<rparr>;
     let nextStatus = nextStatus\<lparr>mpObservedProviderRevision := providerRevision\<rparr>;
     (conditions, m2) \<leftarrow> memSetStatusCondition S t (mpConditions nextStatus) condition m1;
     let nextStatus = nextStatus\<lparr>mpConditions := conditions\<rparr>;
     orig \<leftarrow> load ProviderConfigType original m2;
     if \<not> memProviderConfigStatusChanged m2 (mpStatus orig) nextStatus then Some (None, m2)
     else do {
       let (nowPtr, m3) = new (mk TimeType now) m2;
       let nextStatus = nextStatus\<lparr>mpLastValidationTime := Some nowPtr\<rparr>;
       m4 \<leftarrow> store ProviderConfigType providerConfig (p\<lparr>mpStatus := nextStatus\<rparr>) m3;
       Some (Some original, m4)
     }
   }"

section \<open>Changing a slice in place\<close>

text \<open>
  What is documented of such a function: what the slice reads as afterwards is given by a function on
  lists, and it changes no variable except the array of the slice, in place if it likes.
\<close>

definition inPlace :: "'a list cell_type \<Rightarrow> (slice option \<Rightarrow> memory \<Rightarrow> (slice option \<times> memory) option) \<Rightarrow>
    ('a list \<Rightarrow> 'a list) \<Rightarrow> bool" where
  "inPlace K f g \<longleftrightarrow> (\<forall>m s. validNil (validSlice K validVal) m s \<longrightarrow>
     (\<exists>s' m'. f s m = Some (s', m') \<and> length m \<le> length m' \<and>
        (\<forall>a < length m. (\<forall>x. s = Some x \<longrightarrow> a \<noteq> slArray x) \<longrightarrow> m' ! a = m ! a) \<and>
        validNil (validSlice K validVal) m' s' \<and>
        nilList (readNil (readSlice K readVal) m' s') = g (nilList (readNil (readSlice K readVal) m s))))"

definition memLaws :: "mem_lib \<Rightarrow> k8s_lib \<Rightarrow> bool" where
  "memLaws S L \<longleftrightarrow>
     (\<forall>t c. inPlace ConditionsType (\<lambda>s. memSetStatusCondition S t s c) (\<lambda>cs. SetStatusCondition L t cs c)) \<and>
     (\<forall>f. inPlace StringsType (\<lambda>s. memAddFinalizer S s f) (\<lambda>fs. AddFinalizer L fs f)) \<and>
     (\<forall>f. inPlace StringsType (\<lambda>s. memRemoveFinalizer S s f) (\<lambda>fs. RemoveFinalizer L fs f))"

lemma inPlaceE:
  assumes "inPlace K f g" "validNil (validSlice K validVal) m s"
  obtains s' m' where "f s m = Some (s', m')" "length m \<le> length m'"
    "\<And>a. a < length m \<Longrightarrow> (\<And>x. s = Some x \<Longrightarrow> a \<noteq> slArray x) \<Longrightarrow> m' ! a = m ! a"
    "validNil (validSlice K validVal) m' s'"
    "nilList (readNil (readSlice K readVal) m' s') = g (nilList (readNil (readSlice K readVal) m s))"
  using assms unfolding inPlace_def by metis

section \<open>Cells of different types are different\<close>

fun metaCell :: "cell \<Rightarrow> bool" where
  "metaCell (TimeCell _) \<longleftrightarrow> True"
| "metaCell (StringsCell _) \<longleftrightarrow> True"
| "metaCell _ \<longleftrightarrow> False"

fun specCell :: "cell \<Rightarrow> bool" where
  "specCell (TagsCell _) \<longleftrightarrow> True"
| "specCell (LoggingCell _) \<longleftrightarrow> True"
| "specCell (EncryptionCell _) \<longleftrightarrow> True"
| "specCell _ \<longleftrightarrow> False"

fun statusCell :: "cell \<Rightarrow> bool" where
  "statusCell (TimeCell _) \<longleftrightarrow> True"
| "statusCell (ConditionsCell _) \<longleftrightarrow> True"
| "statusCell _ \<longleftrightarrow> False"

lemma load_cells:
  "load TimeType a m = Some t \<longleftrightarrow> a < length m \<and> m ! a = TimeCell t"
  "load StringsType a m = Some ss \<longleftrightarrow> a < length m \<and> m ! a = StringsCell ss"
  "load ConditionsType a m = Some cs \<longleftrightarrow> a < length m \<and> m ! a = ConditionsCell cs"
  "load TagsType a m = Some kvs \<longleftrightarrow> a < length m \<and> m ! a = TagsCell kvs"
  "load LoggingType a m = Some lg \<longleftrightarrow> a < length m \<and> m ! a = LoggingCell lg"
  "load EncryptionType a m = Some enc \<longleftrightarrow> a < length m \<and> m ! a = EncryptionCell enc"
  "load BucketType a m = Some b \<longleftrightarrow> a < length m \<and> m ! a = BucketCell b"
  "load ProviderConfigType a m = Some p \<longleftrightarrow> a < length m \<and> m ! a = ProviderConfigCell p"
  using timeK.load_cell stringsK.load_cell conditionsK.load_cell tagsK.load_cell loggingK.load_cell
    encryptionK.load_cell bucketK.load_cell providerConfigK.load_cell
  by (simp_all add: type_defs)

lemma slice_cell: "validSlice K validVal m s \<Longrightarrow> \<exists>xs. load K (slArray s) m = Some xs"
  by (auto simp: validSlice_def sliceElems_def bind_eq_Some_conv)

lemma refs_ObjectMeta_cell:
  assumes "validObjectMeta m x" "a \<in> refsObjectMeta m x"
  shows "metaCell (m ! a)"
  using assms
  by (auto simp: validObjectMeta_def refsObjectMeta_def refsAt_def refsSlice_def validAt_def load_cells
      dest!: slice_cell split: option.splits)

lemma refs_Spec_cell:
  assumes "validSpec m x" "a \<in> refsSpec m x"
  shows "specCell (m ! a)"
  using assms
  by (auto simp: validSpec_def refsSpec_def refsAt_def validAt_def load_cells split: option.splits)

lemma refs_Status_cell:
  assumes "validStatus m x" "a \<in> refsStatus m x"
  shows "statusCell (m ! a)"
  using assms
  by (auto simp: validStatus_def refsStatus_def refsAt_def refsSlice_def validAt_def load_cells
      dest!: slice_cell split: option.splits)

interpretation metaView: mem_view readObjectMeta refsObjectMeta validObjectMeta
  by (rule deep_copy.axioms(1) [OF sampleMetaCopy_deep])

interpretation specView: mem_view readSpec refsSpec validSpec
  by (rule deep_copy.axioms(1) [OF BucketSpec_deep [OF sample_copyLaws]])

interpretation statusView: mem_view readStatus refsStatus validStatus
  by (rule deep_copy.axioms(1) [OF BucketStatus_deep [OF sample_copyLaws]])

lemmas slice_view = mem_view_nil [OF mem_view_slice [OF deep_copy.axioms(1) [OF deep_copy_value]]]

lemma meta_frame:
  assumes "validObjectMeta m x" "length m \<le> length m'" "\<And>a. a < length m \<Longrightarrow> metaCell (m ! a) \<Longrightarrow> m' ! a = m ! a"
  shows "readObjectMeta m' x = readObjectMeta m x"
proof -
  have "m' ! a = m ! a" if "a \<in> refsObjectMeta m x" for a
    using metaView.below [OF assms(1)] that refs_ObjectMeta_cell [OF assms(1) that] by (auto intro: assms(3))
  with metaView.frame [OF assms(1,2)] show ?thesis by blast
qed

lemma spec_frame:
  assumes "validSpec m x" "length m \<le> length m'" "\<And>a. a < length m \<Longrightarrow> specCell (m ! a) \<Longrightarrow> m' ! a = m ! a"
  shows "readSpec m' x = readSpec m x"
proof -
  have "m' ! a = m ! a" if "a \<in> refsSpec m x" for a
    using specView.below [OF assms(1)] that refs_Spec_cell [OF assms(1) that] by (auto intro: assms(3))
  with specView.frame [OF assms(1,2)] show ?thesis by blast
qed

lemmas time_view = mem_view_nil [OF mem_view_at [OF deep_copy.axioms(1) [OF deep_copy_value]]]

lemma status_frame:
  assumes "validStatus m x" "length m \<le> length m'" "\<And>a. a < length m \<Longrightarrow> statusCell (m ! a) \<Longrightarrow> m' ! a = m ! a"
  shows "readStatus m' x = readStatus m x"
proof -
  have "m' ! a = m ! a" if "a \<in> refsStatus m x" for a
    using statusView.below [OF assms(1)] that refs_Status_cell [OF assms(1) that] by (auto intro: assms(3))
  with statusView.frame [OF assms(1,2)] show ?thesis by blast
qed

lemma time_frame:
  assumes "validNil (validAt TimeType validVal) m p" "length m \<le> length m'"
    "\<And>a. a < length m \<Longrightarrow> statusCell (m ! a) \<Longrightarrow> m' ! a = m ! a"
  shows "readNil (readAt TimeType readVal) m' p = readNil (readAt TimeType readVal) m p"
proof -
  have "m' ! a = m ! a" if "a \<in> refsNil (refsAt TimeType refsVal) m p" for a
    using assms(1,3) that by (auto simp: refsAt_def validAt_def load_cells split: option.splits)
  with mem_view.frame [OF time_view assms(1,2)] show ?thesis by blast
qed

lemma slice_frame:
  assumes "validNil (validSlice K validVal) m s" "length m \<le> length m'"
    "\<And>x. s = Some x \<Longrightarrow> m' ! slArray x = m ! slArray x"
  shows "readNil (readSlice K readVal) m' s = readNil (readSlice K readVal) m s"
proof -
  have "m' ! a = m ! a" if "a \<in> refsNil (refsSlice K refsVal) m s" for a
    using that assms(3) by (auto simp: refsSlice_def split: option.splits)
  with mem_view.frame [OF slice_view assms(1,2)] show ?thesis by blast
qed

text \<open>
  The original that \<open>DeepCopy\<close> returns keeps reading as the object did when it was copied, as long as
  the cells the copy consists of are not written.
\<close>

lemma newDeepCopy_original:
  assumes D: "deep_copy read refs valid ci" and K: "cell_kind K" and v: "validAt K valid m a"
  obtains x original m1 where "unlessNil (newDeepCopy K ci) (Some a) m = Some (Some original, m1)"
    "load K a m = Some x" "load K a m1 = Some x" "prefix m m1" "valid m1 x" "read m1 x = read m x"
    "\<And>m'. length m1 \<le> length m' \<Longrightarrow> (\<And>i. length m \<le> i \<Longrightarrow> i < length m1 \<Longrightarrow> m' ! i = m1 ! i) \<Longrightarrow>
       \<exists>y. load K original m' = Some y \<and> read m' y = read m x"
proof -
  have V: "mem_view read refs valid" using D by (rule deep_copy.axioms(1))
  note D' = deep_copy_at [OF D K]
  have V': "mem_view (readAt K read) (refsAt K refs) (validAt K valid)" using D' by (rule deep_copy.axioms(1))
  from v obtain x where x: "load K a m = Some x" "valid m x" by (auto simp: validAt_def)
  obtain original m1 where c: "newDeepCopy K ci a m = Some (original, m1)" "prefix m m1" "validAt K valid m1 original"
    "readAt K read m1 original = readAt K read m a" "\<And>i. i \<in> refsAt K refs m1 original \<Longrightarrow> length m \<le> i"
    using deep_copy.copyE [OF D' v] by metis
  have "valid m1 x \<and> refs m1 x = refs m x \<and> read m1 x = read m x" by (rule mem_view.frame_prefix [OF V x(2) c(2)])
  moreover have "\<exists>y. load K original m' = Some y \<and> read m' y = read m x"
    if "length m1 \<le> length m'" "\<And>i. length m \<le> i \<Longrightarrow> i < length m1 \<Longrightarrow> m' ! i = m1 ! i" for m'
  proof -
    have "validAt K valid m' original \<and> refsAt K refs m' original = refsAt K refs m1 original \<and>
        readAt K read m' original = readAt K read m1 original"
      by (rule mem_view.frame [OF V' c(3) that(1)])
        (use that(2) c(5) mem_view.below [OF V' c(3)] in auto)
    with c(4) show ?thesis by (auto simp: validAt_def readAt_def x(1))
  qed
  ultimately show thesis
    using that [of original m1 x] c(1,2) x(1) load_prefix [OF x(1) c(2)] by (simp add: unlessNil_def)
qed

text \<open>A change of a slice in place, after other allocations: it only writes to one cell of its kind that existed before.\<close>

lemma inPlace_step:
  assumes "inPlace K f g" "cell_kind K" "validNil (validSlice K validVal) m s" "prefix m m1"
  obtains s' m2 where "f s m1 = Some (s', m2)" "length m1 \<le> length m2"
    "\<And>a. a < length m1 \<Longrightarrow> (\<And>xs. m1 ! a \<noteq> mk K xs) \<Longrightarrow> m2 ! a = m1 ! a"
    "\<And>i. length m \<le> i \<Longrightarrow> i < length m1 \<Longrightarrow> m2 ! i = m1 ! i"
    "validNil (validSlice K validVal) m2 s'"
    "nilList (readNil (readSlice K readVal) m2 s') = g (nilList (readNil (readSlice K readVal) m s))"
proof -
  have s1: "validNil (validSlice K validVal) m1 s \<and>
      readNil (readSlice K readVal) m1 s = readNil (readSlice K readVal) m s"
    using mem_view.frame_prefix [OF slice_view assms(3,4)] by blast
  obtain s' m2 where f: "f s m1 = Some (s', m2)" "length m1 \<le> length m2"
    "\<And>a. a < length m1 \<Longrightarrow> (\<And>x. s = Some x \<Longrightarrow> a \<noteq> slArray x) \<Longrightarrow> m2 ! a = m1 ! a"
    "validNil (validSlice K validVal) m2 s'"
    "nilList (readNil (readSlice K readVal) m2 s') = g (nilList (readNil (readSlice K readVal) m1 s))"
    using inPlaceE [OF assms(1)] s1 by metis
  have arr: "slArray x < length m \<and> (\<exists>xs. m1 ! slArray x = mk K xs)" if "s = Some x" for x
    using slice_cell [of K m x] slice_cell [of K m1 x] assms(3) s1 cell_kind.load_cell [OF assms(2)] that by auto
  have "m2 ! a = m1 ! a" if "a < length m1" "\<And>xs. m1 ! a \<noteq> mk K xs" for a
    using f(3) [OF that(1)] arr that(2) by blast
  moreover have "m2 ! i = m1 ! i" if "length m \<le> i" "i < length m1" for i
    using f(3) [OF that(2)] arr that(1) by force
  ultimately show thesis using that [OF f(1,2)] f(4,5) s1 by simp
qed

lemma validBucketD:
  assumes "validBucket m b"
  shows "validObjectMeta m (mbMeta b)" "validSpec m (mbSpec b)" "validNil (validSlice ConditionsType validVal) m (mConditions (mbStatus b))"
    "validNil (validSlice StringsType validVal) m (mFinalizers (mbMeta b))" "validStatus m (mbStatus b)"
    "validNil (validAt TimeType validVal) m (mDeletionTimestamp (mbMeta b))"
  using assms by (simp_all add: validBucket_def validStatus_def validObjectMeta_def)

lemma setCondition_step:
  assumes "memLaws S L" "validNil (validSlice ConditionsType validVal) m s" "prefix m m1"
  obtains cs m2 where "memSetStatusCondition S t s cond m1 = Some (cs, m2)" "length m1 \<le> length m2"
    "\<And>i. i < length m1 \<Longrightarrow> (\<And>ys. m1 ! i \<noteq> ConditionsCell ys) \<Longrightarrow> m2 ! i = m1 ! i"
    "\<And>i. length m \<le> i \<Longrightarrow> i < length m1 \<Longrightarrow> m2 ! i = m1 ! i"
    "validNil (validSlice ConditionsType validVal) m2 cs"
    "nilList (readNil (readSlice ConditionsType readVal) m2 cs) =
       SetStatusCondition L t (nilList (readNil (readSlice ConditionsType readVal) m s)) cond"
proof -
  have "inPlace ConditionsType (\<lambda>s. memSetStatusCondition S t s cond) (\<lambda>cs. SetStatusCondition L t cs cond)"
    using assms(1) by (simp add: memLaws_def)
  from inPlace_step [OF this conditionsK.cell_kind_axioms assms(2,3)] that show thesis
    by (auto simp: ConditionsType_def)
qed

lemma Bucket_original:
  assumes "copyLaws C" "validAt BucketType validBucket m a" "readAt BucketType readBucket m a = (tm, b)"
  obtains x original m1 where "Bucket_DeepCopy C (Some a) m = Some (Some original, m1)"
    "load BucketType a m1 = Some x" "prefix m m1" "a < length m" "validBucket m1 x"
    "readBucket m1 x = readBucket m x" "readBucket m x = (tm, b)" "mbTypeMeta x = tm" "validBucket m x"
    "\<And>m'. length m1 \<le> length m' \<Longrightarrow> (\<And>i. length m \<le> i \<Longrightarrow> i < length m1 \<Longrightarrow> m' ! i = m1 ! i) \<Longrightarrow>
       \<exists>y. load BucketType original m' = Some y \<and> readBucket m' y = (tm, b)"
proof -
  obtain x original m1 where x: "Bucket_DeepCopy C (Some a) m = Some (Some original, m1)"
    "load BucketType a m = Some x" "load BucketType a m1 = Some x" "prefix m m1" "validBucket m1 x"
    "readBucket m1 x = readBucket m x"
    and orig: "\<And>m'. length m1 \<le> length m' \<Longrightarrow> (\<And>i. length m \<le> i \<Longrightarrow> i < length m1 \<Longrightarrow> m' ! i = m1 ! i) \<Longrightarrow>
       \<exists>y. load BucketType original m' = Some y \<and> readBucket m' y = readBucket m x"
    using newDeepCopy_original [OF Bucket_deep [OF assms(1)] bucketK.cell_kind_axioms assms(2)]
    unfolding Bucket_DeepCopy_def by metis
  have v: "validBucket m x" "readBucket m x = (tm, b)" "mbTypeMeta x = tm"
    using assms(2,3) x(2) by (simp_all add: validAt_def readAt_def readBucket_def)
  show thesis by (rule that [OF x(1,3,4) load_below [OF x(2)] x(5,6) v(2,3,1) orig [unfolded v(2)]])
qed

lemma deepEqualConditions_iff:
  assumes "nilList (readNil (readSlice ConditionsType readVal) m ys) \<noteq> []"
  shows "deepEqualConditions m xs ys \<longleftrightarrow>
    nilList (readNil (readSlice ConditionsType readVal) m xs) = nilList (readNil (readSlice ConditionsType readVal) m ys)"
  using assms by (auto simp: deepEqualConditions_def nilList_def split: option.splits)

lemma conditionHolds_nonempty:
  assumes "setConditionSets L"
  shows "SetStatusCondition L t cs c \<noteq> []"
proof -
  have "conditionHolds (SetStatusCondition L t cs c) c" using assms by (simp add: setConditionSets_def)
  then show ?thesis by (auto simp: conditionHolds_def)
qed

lemma memNextStatus_conditions: "mConditions (memNextStatus b resolved md) = mConditions (mbStatus b)"
  by (simp add: memNextStatus_def Let_def split: option.splits)

lemma readStatus_next:
  assumes "nilList (readNil (readSlice ConditionsType readVal) m2 cs) =
      SetStatusCondition L t (nilList (readNil (readSlice ConditionsType readVal) m (mConditions (mbStatus b)))) cond"
    and "load TimeType tp m2 = Some now"
  shows "readStatus m2 ((memNextStatus b resolved md)\<lparr>mConditions := cs, mLastSyncTime := Some tp\<rparr>) =
      (nextBucketStatus L t (snd (readBucket m b)) resolved cond md)\<lparr>stLastSyncTime := Some now\<rparr>"
  using assms
  by (simp add: readStatus_def nextBucketStatus_def memNextStatus_def readBucket_def readObjectMeta_def readAt_def
      Let_def split: option.splits)

lemma memBucketStatusChanged_iff:
  assumes "readStatus m2 orig = readStatus m (mbStatus b)"
    and "nilList (readNil (readSlice ConditionsType readVal) m2 cs) =
      SetStatusCondition L t (nilList (readNil (readSlice ConditionsType readVal) m (mConditions (mbStatus b)))) cond"
    and "setConditionSets L"
  shows "memBucketStatusChanged m2 orig ((memNextStatus b resolved md)\<lparr>mConditions := cs\<rparr>) \<longleftrightarrow>
    bucketStatusChanged (bStatus (snd (readBucket m b))) (nextBucketStatus L t (snd (readBucket m b)) resolved cond md)"
proof -
  have "deepEqualConditions m2 (mConditions orig) cs \<longleftrightarrow>
      nilList (readNil (readSlice ConditionsType readVal) m2 (mConditions orig)) =
      nilList (readNil (readSlice ConditionsType readVal) m2 cs)"
    by (rule deepEqualConditions_iff) (use assms(2) conditionHolds_nonempty [OF assms(3)] in simp)
  moreover have "mObservedGeneration orig = mObservedGeneration (mbStatus b)" "mRegion orig = mRegion (mbStatus b)"
    "mBucketDomainName orig = mBucketDomainName (mbStatus b)" "mBucketVersion orig = mBucketVersion (mbStatus b)"
    "mLastSyncTime orig = None \<longleftrightarrow> mLastSyncTime (mbStatus b) = None"
    "nilList (readNil (readSlice ConditionsType readVal) m2 (mConditions orig)) =
      nilList (readNil (readSlice ConditionsType readVal) m (mConditions (mbStatus b)))"
    using assms(1) by (auto simp: readStatus_def)
  ultimately show ?thesis
    using assms(2)
    by (simp add: memBucketStatusChanged_def bucketStatusChanged_def nextBucketStatus_def memNextStatus_def
        readBucket_def readObjectMeta_def readStatus_def Let_def split: option.splits)
qed

text \<open>
  The last steps of a status update: after the conditions have been changed in place, a new time is
  allocated and the struct of the Bucket is overwritten.
\<close>

lemma status_stored:
  assumes x: "validBucket m1 x" "load BucketType a m1 = Some x" "readBucket m1 x = readBucket m x"
    and m2: "length m1 \<le> length m2" "\<And>i. i < length m1 \<Longrightarrow> (\<And>ys. m1 ! i \<noteq> ConditionsCell ys) \<Longrightarrow> m2 ! i = m1 ! i"
    and cs: "validNil (validSlice ConditionsType validVal) m2 cs"
      "nilList (readNil (readSlice ConditionsType readVal) m2 cs) =
        SetStatusCondition L t (nilList (readNil (readSlice ConditionsType readVal) m (mConditions (mbStatus x)))) cond"
    and x': "x' = x\<lparr>mbStatus := (memNextStatus x resolved md)\<lparr>mConditions := cs, mLastSyncTime := Some (length m2)\<rparr>\<rparr>"
    and m4: "m4 = (m2 @ [mk TimeType now])[a := mk BucketType x']"
  shows "store BucketType a x' (m2 @ [mk TimeType now]) = Some m4 \<and>
    readAt BucketType readBucket m4 a = (mbTypeMeta x, (snd (readBucket m x))\<lparr>bStatus :=
      (nextBucketStatus L t (snd (readBucket m x)) resolved cond md)\<lparr>stLastSyncTime := Some now\<rparr>\<rparr>)"
proof -
  have a: "a < length m1" "m1 ! a = BucketCell x" using x(2) by (simp_all add: load_cells)
  then have ld: "load BucketType a m2 = Some x" using m2 by (simp add: load_cells)
  have len: "length m2 \<le> length m4" "length m1 \<le> length m4" using m2(1) by (simp_all add: m4)
  have same: "m4 ! i = m2 ! i" if "i < length m2" "i \<noteq> a" for i using that by (simp add: m4 nth_append)
  have old: "m4 ! i = m1 ! i" if "i < length m1" "metaCell (m1 ! i) \<or> specCell (m1 ! i)" for i
  proof -
    have "i \<noteq> a" "\<And>ys. m1 ! i \<noteq> ConditionsCell ys" using that(2) a(2) by auto
    then show ?thesis using same m2 that(1) by simp
  qed
  have "readObjectMeta m4 (mbMeta x) = readObjectMeta m1 (mbMeta x)" "readSpec m4 (mbSpec x) = readSpec m1 (mbSpec x)"
    by (rule meta_frame [OF validBucketD(1) [OF x(1)] len(2)] spec_frame [OF validBucketD(2) [OF x(1)] len(2)], simp add: old)+
  then have parts: "readObjectMeta m4 (mbMeta x) = readObjectMeta m (mbMeta x)" "readSpec m4 (mbSpec x) = readSpec m (mbSpec x)"
    using x(3) by (simp_all add: readBucket_def)
  have "m4 ! slArray z = m2 ! slArray z" if "cs = Some z" for z
  proof (rule same)
    have "validSlice ConditionsType validVal m2 z" using cs(1) that by simp
    then obtain ys where "load ConditionsType (slArray z) m2 = Some ys" using slice_cell by blast
    then show "slArray z < length m2" "slArray z \<noteq> a" using ld by (auto simp: load_cells)
  qed
  then have cs4: "readNil (readSlice ConditionsType readVal) m4 cs = readNil (readSlice ConditionsType readVal) m2 cs"
    by (intro slice_frame [OF cs(1) len(1)])
  have "load TimeType (length m2) m4 = Some now" using a m2(1) by (simp add: timeK.load_cell m4)
  from readStatus_next [OF cs(2) [folded cs4] this, of resolved md]
  have "readBucket m4 x' = (mbTypeMeta x, (snd (readBucket m x))\<lparr>bStatus :=
      (nextBucketStatus L t (snd (readBucket m x)) resolved cond md)\<lparr>stLastSyncTime := Some now\<rparr>\<rparr>)"
    by (simp add: readBucket_def x' parts)
  moreover have "load BucketType a m4 = Some x'" using a m2(1) by (simp add: m4)
  moreover have "store BucketType a x' (m2 @ [mk TimeType now]) = Some m4"
    unfolding m4 by (rule bucketK.store_loaded [OF load_append [OF ld]])
  ultimately show ?thesis by (simp add: readAt_def)
qed

section \<open>Finalizers\<close>

lemma finalizers_stored:
  assumes x: "validBucket m1 x" "load BucketType a m1 = Some x" "readBucket m1 x = readBucket m x"
    and m2: "length m1 \<le> length m2" "\<And>i. i < length m1 \<Longrightarrow> (\<And>ys. m1 ! i \<noteq> StringsCell ys) \<Longrightarrow> m2 ! i = m1 ! i"
    and fs: "validNil (validSlice StringsType validVal) m2 fs"
      "nilList (readNil (readSlice StringsType readVal) m2 fs) = Fs"
    and x': "x' = x\<lparr>mbMeta := (mbMeta x)\<lparr>mFinalizers := fs\<rparr>\<rparr>"
    and m3: "m3 = m2[a := mk BucketType x']"
  shows "store BucketType a x' m2 = Some m3 \<and>
    readAt BucketType readBucket m3 a = (mbTypeMeta x, (snd (readBucket m x))\<lparr>bMeta :=
      (bMeta (snd (readBucket m x)))\<lparr>Finalizers := Fs\<rparr>\<rparr>)"
proof -
  have a: "a < length m1" "m1 ! a = BucketCell x" using x(2) by (simp_all add: load_cells)
  then have ld: "load BucketType a m2 = Some x" using m2 by (simp add: load_cells)
  have len: "length m2 \<le> length m3" "length m1 \<le> length m3" using m2(1) by (simp_all add: m3)
  have same: "m3 ! i = m2 ! i" if "i \<noteq> a" for i using that by (simp add: m3)
  have old: "m3 ! i = m1 ! i" if "i < length m1" "\<And>ys. m1 ! i \<noteq> StringsCell ys" "\<And>y. m1 ! i \<noteq> BucketCell y" for i
    using that same [of i] m2(2) a(2) by metis
  have "readSpec m3 (mbSpec x) = readSpec m1 (mbSpec x)"
    by (rule spec_frame [OF validBucketD(2) [OF x(1)] len(2)], rule old) auto
  moreover have "readStatus m3 (mbStatus x) = readStatus m1 (mbStatus x)"
    by (rule status_frame [OF validBucketD(5) [OF x(1)] len(2)], rule old) auto
  moreover have "readNil (readAt TimeType readVal) m3 (mDeletionTimestamp (mbMeta x)) =
      readNil (readAt TimeType readVal) m1 (mDeletionTimestamp (mbMeta x))"
    by (rule time_frame [OF validBucketD(6) [OF x(1)] len(2)], rule old) auto
  moreover have "m3 ! slArray z = m2 ! slArray z" if "fs = Some z" for z
  proof (rule same)
    have "validSlice StringsType validVal m2 z" using fs(1) that by simp
    then obtain ys where "load StringsType (slArray z) m2 = Some ys" using slice_cell by blast
    then show "slArray z \<noteq> a" using ld by (auto simp: load_cells)
  qed
  then have "readNil (readSlice StringsType readVal) m3 fs = readNil (readSlice StringsType readVal) m2 fs"
    by (intro slice_frame [OF fs(1) len(1)])
  ultimately have "readBucket m3 x' = (mbTypeMeta x, (snd (readBucket m x))\<lparr>bMeta :=
      (bMeta (snd (readBucket m x)))\<lparr>Finalizers := Fs\<rparr>\<rparr>)"
    using fs(2) by (simp add: x(3) [symmetric]) (simp add: readBucket_def readObjectMeta_def x')
  moreover have "load BucketType a m3 = Some x'" using a m2(1) by (simp add: m3)
  moreover have "store BucketType a x' m2 = Some m3" unfolding m3 by (rule bucketK.store_loaded [OF ld])
  ultimately show ?thesis by (simp add: readAt_def)
qed

section \<open>The status of a ProviderConfig\<close>

lemma ProviderConfig_original:
  assumes "copyLaws C" "validAt ProviderConfigType validProviderConfig m a"
    "readAt ProviderConfigType readProviderConfig m a = (tm, p)"
  obtains x original m1 where "ProviderConfig_DeepCopy C (Some a) m = Some (Some original, m1)"
    "load ProviderConfigType a m1 = Some x" "prefix m m1" "a < length m" "validProviderConfig m1 x"
    "readProviderConfig m1 x = readProviderConfig m x" "readProviderConfig m x = (tm, p)" "mpTypeMeta x = tm"
    "validProviderConfig m x"
    "\<And>m'. length m1 \<le> length m' \<Longrightarrow> (\<And>i. length m \<le> i \<Longrightarrow> i < length m1 \<Longrightarrow> m' ! i = m1 ! i) \<Longrightarrow>
       \<exists>y. load ProviderConfigType original m' = Some y \<and> readProviderConfig m' y = (tm, p)"
proof -
  obtain x original m1 where x: "ProviderConfig_DeepCopy C (Some a) m = Some (Some original, m1)"
    "load ProviderConfigType a m = Some x" "load ProviderConfigType a m1 = Some x" "prefix m m1"
    "validProviderConfig m1 x" "readProviderConfig m1 x = readProviderConfig m x"
    and orig: "\<And>m'. length m1 \<le> length m' \<Longrightarrow> (\<And>i. length m \<le> i \<Longrightarrow> i < length m1 \<Longrightarrow> m' ! i = m1 ! i) \<Longrightarrow>
       \<exists>y. load ProviderConfigType original m' = Some y \<and> readProviderConfig m' y = readProviderConfig m x"
    using newDeepCopy_original [OF ProviderConfig_deep [OF assms(1)] providerConfigK.cell_kind_axioms assms(2)]
    unfolding ProviderConfig_DeepCopy_def by metis
  have v: "validProviderConfig m x" "readProviderConfig m x = (tm, p)" "mpTypeMeta x = tm"
    using assms(2,3) x(2) by (simp_all add: validAt_def readAt_def readProviderConfig_def)
  show thesis by (rule that [OF x(1,3,4) load_below [OF x(2)] x(5,6) v(2,3,1) orig [unfolded v(2)]])
qed

lemma Generation_readObjectMeta: "Generation (readObjectMeta m x) = mGeneration x"
  by (simp add: readObjectMeta_def)

abbreviation memNextProvider :: "mProviderConfig \<Rightarrow> string \<Rightarrow> slice option \<Rightarrow> mProviderConfigStatus" where
  "memNextProvider x rvn cs \<equiv> (mpStatus x)\<lparr>mpObservedGeneration := mGeneration (mpMeta x),
     mpObservedProviderRevision := rvn, mpConditions := cs\<rparr>"

lemma memProviderConfigStatusChanged_iff:
  assumes "readProviderStatus m2 orig = readProviderStatus m (mpStatus x)"
    and "nilList (readNil (readSlice ConditionsType readVal) m2 cs) =
      SetStatusCondition L t (nilList (readNil (readSlice ConditionsType readVal) m (mpConditions (mpStatus x)))) cond"
    and "setConditionSets L"
  shows "memProviderConfigStatusChanged m2 orig (memNextProvider x rvn cs) \<longleftrightarrow>
    providerConfigStatusChanged (pStatus (snd (readProviderConfig m x)))
      (nextProviderConfigStatus L t (snd (readProviderConfig m x)) cond rvn)"
proof -
  have "deepEqualConditions m2 (mpConditions orig) cs \<longleftrightarrow>
      nilList (readNil (readSlice ConditionsType readVal) m2 (mpConditions orig)) =
      nilList (readNil (readSlice ConditionsType readVal) m2 cs)"
    by (rule deepEqualConditions_iff) (use assms(2) conditionHolds_nonempty [OF assms(3)] in simp)
  moreover have "mpObservedGeneration orig = mpObservedGeneration (mpStatus x)"
    "mpObservedProviderRevision orig = mpObservedProviderRevision (mpStatus x)"
    "mpLastValidationTime orig = None \<longleftrightarrow> mpLastValidationTime (mpStatus x) = None"
    "nilList (readNil (readSlice ConditionsType readVal) m2 (mpConditions orig)) =
      nilList (readNil (readSlice ConditionsType readVal) m (mpConditions (mpStatus x)))"
    using assms(1) by (auto simp: readProviderStatus_def)
  ultimately show ?thesis
    using assms(2)
    by (simp add: memProviderConfigStatusChanged_def providerConfigStatusChanged_def nextProviderConfigStatus_def
        readProviderConfig_def readObjectMeta_def readProviderStatus_def)
qed

lemma providerStatus_stored:
  assumes x: "validProviderConfig m1 x" "load ProviderConfigType a m1 = Some x"
      "readProviderConfig m1 x = readProviderConfig m x"
    and m2: "length m1 \<le> length m2" "\<And>i. i < length m1 \<Longrightarrow> (\<And>ys. m1 ! i \<noteq> ConditionsCell ys) \<Longrightarrow> m2 ! i = m1 ! i"
    and cs: "validNil (validSlice ConditionsType validVal) m2 cs"
      "nilList (readNil (readSlice ConditionsType readVal) m2 cs) =
        SetStatusCondition L t (nilList (readNil (readSlice ConditionsType readVal) m (mpConditions (mpStatus x)))) cond"
    and x': "x' = x\<lparr>mpStatus := (memNextProvider x rvn cs)\<lparr>mpLastValidationTime := Some (length m2)\<rparr>\<rparr>"
    and m4: "m4 = (m2 @ [mk TimeType now])[a := mk ProviderConfigType x']"
  shows "store ProviderConfigType a x' (m2 @ [mk TimeType now]) = Some m4 \<and>
    readAt ProviderConfigType readProviderConfig m4 a = (mpTypeMeta x, (snd (readProviderConfig m x))\<lparr>pStatus :=
      (nextProviderConfigStatus L t (snd (readProviderConfig m x)) cond rvn)\<lparr>pcLastValidationTime := Some now\<rparr>\<rparr>)"
proof -
  have a: "a < length m1" "m1 ! a = ProviderConfigCell x" using x(2) by (simp_all add: load_cells)
  then have ld: "load ProviderConfigType a m2 = Some x" using m2 by (simp add: load_cells)
  have len: "length m2 \<le> length m4" "length m1 \<le> length m4" using m2(1) by (simp_all add: m4)
  have same: "m4 ! i = m2 ! i" if "i < length m2" "i \<noteq> a" for i using that by (simp add: m4 nth_append)
  have old: "m4 ! i = m1 ! i" if "i < length m1" "metaCell (m1 ! i)" for i
  proof -
    have "i \<noteq> a" "\<And>ys. m1 ! i \<noteq> ConditionsCell ys" using that(2) a(2) by auto
    then show ?thesis using same m2 that(1) by simp
  qed
  have "validObjectMeta m1 (mpMeta x)" using x(1) by (simp add: validProviderConfig_def)
  then have "readObjectMeta m4 (mpMeta x) = readObjectMeta m1 (mpMeta x)" by (rule meta_frame [OF _ len(2) old])
  then have meta: "readObjectMeta m4 (mpMeta x) = readObjectMeta m (mpMeta x)"
    using x(3) by (simp add: readProviderConfig_def)
  have "m4 ! slArray z = m2 ! slArray z" if "cs = Some z" for z
  proof (rule same)
    have "validSlice ConditionsType validVal m2 z" using cs(1) that by simp
    then obtain ys where "load ConditionsType (slArray z) m2 = Some ys" using slice_cell by blast
    then show "slArray z < length m2" "slArray z \<noteq> a" using ld by (auto simp: load_cells)
  qed
  then have cs4: "readNil (readSlice ConditionsType readVal) m4 cs = readNil (readSlice ConditionsType readVal) m2 cs"
    by (intro slice_frame [OF cs(1) len(1)])
  have "load TimeType (length m2) m4 = Some now" using a m2(1) by (simp add: timeK.load_cell m4)
  then have "readProviderConfig m4 x' = (mpTypeMeta x, (snd (readProviderConfig m x))\<lparr>pStatus :=
      (nextProviderConfigStatus L t (snd (readProviderConfig m x)) cond rvn)\<lparr>pcLastValidationTime := Some now\<rparr>\<rparr>)"
    using cs(2) [folded cs4]
    by (simp add: readProviderConfig_def x' meta readProviderStatus_def nextProviderConfigStatus_def Generation_readObjectMeta readAt_def)
  moreover have "load ProviderConfigType a m4 = Some x'" using a m2(1) by (simp add: m4)
  moreover have "store ProviderConfigType a x' (m2 @ [mk TimeType now]) = Some m4"
    unfolding m4 by (rule providerConfigK.store_loaded [OF load_append [OF ld]])
  ultimately show ?thesis by (simp add: readAt_def)
qed

end
