(* ===== verification/MemoryTheorems.thy ===== *)
theory MemoryTheorems
  imports MemoryStatus Simulation
begin

text \<open>
  Properties of the functions that copy an object and then change it, on memory, and a library that
  writes in place on which the witnesses run.
\<close>

section \<open>A library that writes in place\<close>

text \<open>
  For the witnesses: overwrite the elements in the array of the slice when the new ones fit there, and
  allocate a new array otherwise.
\<close>

definition updateInPlace :: "'a list cell_type \<Rightarrow> ('a list \<Rightarrow> 'a list) \<Rightarrow> slice option \<Rightarrow> memory \<Rightarrow> (slice option \<times> memory) option" where
  "updateInPlace K g s m =
     (case s of
        None \<Rightarrow> Some (Some \<lparr>slArray = length m, slOffset = 0, slLen = length (g [])\<rparr>, m @ [mk K (g [])])
      | Some x \<Rightarrow> do {
          xs \<leftarrow> load K (slArray x) m;
          let ys = g (take (slLen x) (drop (slOffset x) xs));
          if length ys \<le> slLen x
          then do {
            m' \<leftarrow> store K (slArray x) (take (slOffset x) xs @ ys @ drop (slOffset x + length ys) xs) m;
            Some (Some (x\<lparr>slLen := length ys\<rparr>), m')
          }
          else Some (Some \<lparr>slArray = length m, slOffset = 0, slLen = length ys\<rparr>, m @ [mk K ys])
        })"

lemma sliceElems_fresh:
  "cell_kind K \<Longrightarrow> sliceElems K \<lparr>slArray = length m, slOffset = 0, slLen = length ys\<rparr> (m @ [mk K ys]) = Some ys"
  by (simp add: sliceElems_def cell_kind.load_new)

lemma updateInPlace_inPlace:
  assumes K: "cell_kind K"
  shows "inPlace K (updateInPlace K g) g"
  unfolding inPlace_def
proof (intro allI impI)
  fix m s
  assume v: "validNil (validSlice K validVal) m s"
  let ?goal = "\<lambda>s' m'. updateInPlace K g s m = Some (s', m') \<and> length m \<le> length m' \<and>
        (\<forall>a < length m. (\<forall>x. s = Some x \<longrightarrow> a \<noteq> slArray x) \<longrightarrow> m' ! a = m ! a) \<and>
        validNil (validSlice K validVal) m' s' \<and>
        nilList (readNil (readSlice K readVal) m' s') = g (nilList (readNil (readSlice K readVal) m s))"
  have new: "?goal (Some \<lparr>slArray = length m, slOffset = 0, slLen = length ys\<rparr>) (m @ [mk K ys])"
    if "updateInPlace K g s m = Some (Some \<lparr>slArray = length m, slOffset = 0, slLen = length ys\<rparr>, m @ [mk K ys])"
      "ys = g (nilList (readNil (readSlice K readVal) m s))" for ys
    using that sliceElems_fresh [OF K, of m ys]
    by (simp add: nth_append validSlice_def readSlice_def nilList_def list_all_iff)
  show "\<exists>s' m'. ?goal s' m'"
  proof (cases s)
    case None
    have "?goal (Some \<lparr>slArray = length m, slOffset = 0, slLen = length (g [])\<rparr>) (m @ [mk K (g [])])"
      by (rule new) (simp_all add: None updateInPlace_def nilList_def)
    then show ?thesis by blast
  next
    case (Some x)
    with v obtain xs where xs: "load K (slArray x) m = Some xs" "slOffset x + slLen x \<le> length xs"
      by (auto simp: validSlice_def sliceElems_def bind_eq_Some_conv split: if_splits)
    have arr: "slArray x < length m" by (rule load_below [OF xs(1)])
    let ?ys = "g (take (slLen x) (drop (slOffset x) xs))"
    have el: "elemsOf K m x = take (slLen x) (drop (slOffset x) xs)"
      using xs by (simp add: elemsOf_def sliceElems_def)
    then have old: "nilList (readNil (readSlice K readVal) m s) = take (slLen x) (drop (slOffset x) xs)"
      by (simp add: Some nilList_def readSlice_def)
    show ?thesis
    proof (cases "length ?ys \<le> slLen x")
      case True
      let ?m' = "m[slArray x := mk K (take (slOffset x) xs @ ?ys @ drop (slOffset x + length ?ys) xs)]"
      let ?s' = "x\<lparr>slLen := length ?ys\<rparr>"
      have "sliceElems K ?s' ?m' = Some ?ys"
        using xs(2) True by (simp add: sliceElems_def cell_kind.load_update [OF K arr])
      moreover have "updateInPlace K g s m = Some (Some ?s', ?m')"
        using True xs(1) by (simp add: updateInPlace_def Some cell_kind.store_loaded [OF K xs(1)] Let_def)
      ultimately have "?goal (Some ?s') ?m'"
        by (simp add: Some validSlice_def readSlice_def el nilList_def list_all_iff)
      then show ?thesis by blast
    next
      case False
      then have "updateInPlace K g s m = Some (Some \<lparr>slArray = length m, slOffset = 0, slLen = length ?ys\<rparr>, m @ [mk K ?ys])"
        using xs(1) by (simp add: updateInPlace_def Some Let_def)
      from new [OF this] old show ?thesis by metis
    qed
  qed
qed

definition sampleMemLib :: mem_lib where
  "sampleMemLib = \<lparr>memSetStatusCondition = (\<lambda>t s c. updateInPlace ConditionsType (\<lambda>cs. SetStatusCondition simLib t cs c) s),
     memAddFinalizer = (\<lambda>s f. updateInPlace StringsType (\<lambda>fs. AddFinalizer simLib fs f) s),
     memRemoveFinalizer = (\<lambda>s f. updateInPlace StringsType (\<lambda>fs. RemoveFinalizer simLib fs f) s)\<rparr>"

lemma sample_memLaws: "memLaws sampleMemLib simLib"
  unfolding memLaws_def sampleMemLib_def
  by (simp add: updateInPlace_inPlace conditionsK.cell_kind_axioms stringsK.cell_kind_axioms)

definition sampleReady :: Condition where
  "sampleReady = zeroCondition\<lparr>cType := ''Ready'', cStatus := ConditionTrue, cReason := ''Reconciled''\<rparr>"

text \<open>The condition changes in the array that the Bucket of \<open>sampleMemory\<close> shares with its next status.\<close>

lemma sample_status_changed:
  "bucketStatusChanged (bStatus (snd (readAt BucketType readBucket sampleMemory 5)))
     (nextBucketStatus simLib 3 (snd (readAt BucketType readBucket sampleMemory 5)) None sampleReady None)"
  by (simp add: bucketStatusChanged_def nextBucketStatus_def simLib_def sampleReady_def
      view_defs zero_defs type_defs sampleMemory_def)

section \<open>Properties\<close>

text \<open>
  C14. On the memory of the process, with \<open>nextStatus\<close> sharing the array of the conditions with the
  Bucket and \<open>SetStatusCondition\<close> free to change that array in place, \<open>updateBucketStatus\<close> decides and
  sends what its model on values does: it asks for a patch exactly when the status has changed, the
  object it sends reads as the Bucket with the next status, and the original that the patch is
  computed against still reads as the Bucket before the change.
\<close>

theorem status_update_in_place:
  assumes "copyLaws C" "memLaws S L" "setConditionSets L" "validAt BucketType validBucket m a"
    and "readAt BucketType readBucket m a = (tm, b)" "nextStatus = nextBucketStatus L t b resolved cond md"
  shows "\<exists>r m'. memUpdateBucketStatus C S t now a resolved cond md m = Some (r, m') \<and>
    (r = None \<longleftrightarrow> \<not> bucketStatusChanged (bStatus b) nextStatus) \<and>
    (\<forall>original. r = Some original \<longrightarrow>
       readAt BucketType readBucket m' original = (tm, b) \<and>
       readAt BucketType readBucket m' a = (tm, b\<lparr>bStatus := nextStatus\<lparr>stLastSyncTime := Some now\<rparr>\<rparr>))"
proof -
  obtain x original m1 where x: "Bucket_DeepCopy C (Some a) m = Some (Some original, m1)"
    "load BucketType a m1 = Some x" "prefix m m1" "a < length m" "validBucket m1 x"
    "readBucket m1 x = readBucket m x" "readBucket m x = (tm, b)" "mbTypeMeta x = tm" "validBucket m x"
    and orig: "\<And>m'. length m1 \<le> length m' \<Longrightarrow> (\<And>i. length m \<le> i \<Longrightarrow> i < length m1 \<Longrightarrow> m' ! i = m1 ! i) \<Longrightarrow>
       \<exists>y. load BucketType original m' = Some y \<and> readBucket m' y = (tm, b)"
    using Bucket_original [OF assms(1,4,5)] by metis
  obtain cs m2 where cs: "memSetStatusCondition S t (mConditions (mbStatus x)) cond m1 = Some (cs, m2)"
    "length m1 \<le> length m2" "\<And>i. i < length m1 \<Longrightarrow> (\<And>ys. m1 ! i \<noteq> ConditionsCell ys) \<Longrightarrow> m2 ! i = m1 ! i"
    "\<And>i. length m \<le> i \<Longrightarrow> i < length m1 \<Longrightarrow> m2 ! i = m1 ! i"
    "validNil (validSlice ConditionsType validVal) m2 cs"
    "nilList (readNil (readSlice ConditionsType readVal) m2 cs) =
       SetStatusCondition L t (nilList (readNil (readSlice ConditionsType readVal) m (mConditions (mbStatus x)))) cond"
    using setCondition_step [OF assms(2) validBucketD(3) [OF x(9)] x(3)] by metis
  obtain o2 where o2: "load BucketType original m2 = Some o2" "readBucket m2 o2 = (tm, b)"
    using orig [OF cs(2,4)] by blast
  let ?s = "(memNextStatus x resolved md)\<lparr>mConditions := cs\<rparr>"
  have "readStatus m2 (mbStatus o2) = readStatus m (mbStatus x)" using o2(2) x(7) by (auto simp: readBucket_def)
  note ch = memBucketStatusChanged_iff [OF this cs(6) assms(3), of resolved md, unfolded x(7), simplified]
  show ?thesis
  proof (cases "memBucketStatusChanged m2 (mbStatus o2) ?s")
    case False
    with ch show ?thesis
      by (intro exI [of _ None] exI [of _ m2])
        (simp add: memUpdateBucketStatus_def x(1,2) cs(1) o2(1) memNextStatus_conditions assms(6))
  next
    case True
    let ?x' = "x\<lparr>mbStatus := ?s\<lparr>mLastSyncTime := Some (length m2)\<rparr>\<rparr>"
    let ?m4 = "(m2 @ [mk TimeType now])[a := mk BucketType ?x']"
    note st = status_stored [OF x(5,2,6) cs(2,3,5,6) _ refl, of ?x' resolved md now, simplified, unfolded x(7)]
    have "\<exists>y. load BucketType original ?m4 = Some y \<and> readBucket ?m4 y = (tm, b)"
      by (rule orig) (use cs(2,4) x(4) in \<open>auto simp: nth_append\<close>)
    with True ch st show ?thesis
      by (intro exI [of _ "Some original"] exI [of _ ?m4])
        (auto simp: memUpdateBucketStatus_def x(1,2,8) cs(1) o2(1) memNextStatus_conditions new_def assms(6) readAt_def)
  qed
qed

theorem status_update_in_place_witness:
  "\<exists>original m'. memUpdateBucketStatus sampleCopyLib sampleMemLib 3 9 5 (None :: nat ResolvedClient option)
       sampleReady None sampleMemory = Some (Some original, m') \<and>
     readAt BucketType readBucket m' original = readAt BucketType readBucket sampleMemory 5 \<and>
     stLastSyncTime (bStatus (snd (readAt BucketType readBucket m' 5))) = Some 9"
proof -
  obtain tm b where b: "readAt BucketType readBucket sampleMemory 5 = (tm, b)" by force
  from status_update_in_place [where t = 3 and now = 9 and resolved = "None :: nat ResolvedClient option" and
      cond = sampleReady and md = None,
      OF sample_copyLaws sample_memLaws sim_setConditionSets sampleMemory_valid b refl]
  obtain r m' where r: "memUpdateBucketStatus sampleCopyLib sampleMemLib 3 9 5 (None :: nat ResolvedClient option)
       sampleReady None sampleMemory = Some (r, m')"
    "r = None \<longleftrightarrow> \<not> bucketStatusChanged (bStatus b) (nextBucketStatus simLib 3 b (None :: nat ResolvedClient option) sampleReady None)"
    "\<And>original. r = Some original \<Longrightarrow> readAt BucketType readBucket m' original = (tm, b) \<and>
       readAt BucketType readBucket m' 5 = (tm, b\<lparr>bStatus :=
         (nextBucketStatus simLib 3 b (None :: nat ResolvedClient option) sampleReady None)\<lparr>stLastSyncTime := Some 9\<rparr>\<rparr>)"
    by blast
  have "r \<noteq> None" using r(2) sample_status_changed b by simp
  then obtain original where o: "r = Some original" by blast
  show ?thesis using r(1,3) o by (intro exI [of _ original] exI [of _ m']) (simp add: b)
qed

text \<open>
  On the memory of the process, with finalizers changed in place, \<open>patchFinalizer\<close> sends what its
  model on values does: the object reads as the Bucket with the new finalizers and the original the
  patch is computed against reads as the Bucket before the change.
\<close>

lemma finalizer_patch_in_place:
  assumes "copyLaws C" "inPlace StringsType f g" "validAt BucketType validBucket m a"
    and "readAt BucketType readBucket m a = (tm, b)"
  shows "\<exists>original m'. memPatchFinalizer C a f m = Some (original, m') \<and>
    readAt BucketType readBucket m' original = (tm, b) \<and>
    readAt BucketType readBucket m' a = (tm, b\<lparr>bMeta := (bMeta b)\<lparr>Finalizers := g (Finalizers (bMeta b))\<rparr>\<rparr>)"
proof -
  obtain x original m1 where x: "Bucket_DeepCopy C (Some a) m = Some (Some original, m1)"
    "load BucketType a m1 = Some x" "prefix m m1" "a < length m" "validBucket m1 x"
    "readBucket m1 x = readBucket m x" "readBucket m x = (tm, b)" "mbTypeMeta x = tm" "validBucket m x"
    and orig: "\<And>m'. length m1 \<le> length m' \<Longrightarrow> (\<And>i. length m \<le> i \<Longrightarrow> i < length m1 \<Longrightarrow> m' ! i = m1 ! i) \<Longrightarrow>
       \<exists>y. load BucketType original m' = Some y \<and> readBucket m' y = (tm, b)"
    using Bucket_original [OF assms(1,3,4)] by metis
  obtain fs m2 where fs: "f (mFinalizers (mbMeta x)) m1 = Some (fs, m2)"
    "length m1 \<le> length m2" "\<And>i. i < length m1 \<Longrightarrow> (\<And>ys. m1 ! i \<noteq> StringsCell ys) \<Longrightarrow> m2 ! i = m1 ! i"
    "\<And>i. length m \<le> i \<Longrightarrow> i < length m1 \<Longrightarrow> m2 ! i = m1 ! i"
    "validNil (validSlice StringsType validVal) m2 fs"
    "nilList (readNil (readSlice StringsType readVal) m2 fs) =
       g (nilList (readNil (readSlice StringsType readVal) m (mFinalizers (mbMeta x))))"
    using inPlace_step [OF assms(2) stringsK.cell_kind_axioms validBucketD(4) [OF x(9)] x(3)]
    by (auto simp: StringsType_def)
  let ?x' = "x\<lparr>mbMeta := (mbMeta x)\<lparr>mFinalizers := fs\<rparr>\<rparr>"
  let ?m3 = "m2[a := mk BucketType ?x']"
  have "nilList (readNil (readSlice StringsType readVal) m (mFinalizers (mbMeta x))) = Finalizers (bMeta b)"
    using x(7) by (auto simp: readBucket_def readObjectMeta_def)
  note st = finalizers_stored [OF x(5,2,6) fs(2,3,5) fs(6) [unfolded this] refl refl, unfolded x(7)]
  have "\<exists>y. load BucketType original ?m3 = Some y \<and> readBucket ?m3 y = (tm, b)"
    by (rule orig) (use fs(2,4) x(4) in auto)
  with st show ?thesis
    by (intro exI [of _ original] exI [of _ ?m3])
      (auto simp: memPatchFinalizer_def x(1,2,8) fs(1) readAt_def)
qed

text \<open>
  The same for \<open>updateProviderConfigStatus\<close>: on memory it asks for a patch exactly when the status
  has changed, sends the ProviderConfig with the next status, and the original still reads as the
  ProviderConfig before the change.
\<close>

lemma provider_status_in_place:
  assumes "copyLaws C" "memLaws S L" "setConditionSets L" "validAt ProviderConfigType validProviderConfig m a"
    and "readAt ProviderConfigType readProviderConfig m a = (tm, p)"
    and "nextStatus = nextProviderConfigStatus L t p cond rvn"
  shows "\<exists>r m'. memUpdateProviderConfigStatus C S t now a cond rvn m = Some (r, m') \<and>
    (r = None \<longleftrightarrow> \<not> providerConfigStatusChanged (pStatus p) nextStatus) \<and>
    (\<forall>original. r = Some original \<longrightarrow>
       readAt ProviderConfigType readProviderConfig m' original = (tm, p) \<and>
       readAt ProviderConfigType readProviderConfig m' a =
         (tm, p\<lparr>pStatus := nextStatus\<lparr>pcLastValidationTime := Some now\<rparr>\<rparr>))"
proof -
  obtain x original m1 where x: "ProviderConfig_DeepCopy C (Some a) m = Some (Some original, m1)"
    "load ProviderConfigType a m1 = Some x" "prefix m m1" "a < length m" "validProviderConfig m1 x"
    "readProviderConfig m1 x = readProviderConfig m x" "readProviderConfig m x = (tm, p)" "mpTypeMeta x = tm"
    "validProviderConfig m x"
    and orig: "\<And>m'. length m1 \<le> length m' \<Longrightarrow> (\<And>i. length m \<le> i \<Longrightarrow> i < length m1 \<Longrightarrow> m' ! i = m1 ! i) \<Longrightarrow>
       \<exists>y. load ProviderConfigType original m' = Some y \<and> readProviderConfig m' y = (tm, p)"
    using ProviderConfig_original [OF assms(1,4,5)] by metis
  have "validNil (validSlice ConditionsType validVal) m (mpConditions (mpStatus x))"
    using x(9) by (simp add: validProviderConfig_def validProviderStatus_def)
  from setCondition_step [OF assms(2) this x(3)]
  obtain cs m2 where cs: "memSetStatusCondition S t (mpConditions (mpStatus x)) cond m1 = Some (cs, m2)"
    "length m1 \<le> length m2" "\<And>i. i < length m1 \<Longrightarrow> (\<And>ys. m1 ! i \<noteq> ConditionsCell ys) \<Longrightarrow> m2 ! i = m1 ! i"
    "\<And>i. length m \<le> i \<Longrightarrow> i < length m1 \<Longrightarrow> m2 ! i = m1 ! i"
    "validNil (validSlice ConditionsType validVal) m2 cs"
    "nilList (readNil (readSlice ConditionsType readVal) m2 cs) =
       SetStatusCondition L t (nilList (readNil (readSlice ConditionsType readVal) m (mpConditions (mpStatus x)))) cond"
    by metis
  obtain o2 where o2: "load ProviderConfigType original m2 = Some o2" "readProviderConfig m2 o2 = (tm, p)"
    using orig [OF cs(2,4)] by blast
  have "readProviderStatus m2 (mpStatus o2) = readProviderStatus m (mpStatus x)"
    using o2(2) x(7) by (auto simp: readProviderConfig_def)
  note ch = memProviderConfigStatusChanged_iff [OF this cs(6) assms(3), of rvn, unfolded x(7), simplified]
  show ?thesis
  proof (cases "memProviderConfigStatusChanged m2 (mpStatus o2) (memNextProvider x rvn cs)")
    case False
    with ch show ?thesis
      by (intro exI [of _ None] exI [of _ m2]) (simp add: memUpdateProviderConfigStatus_def x(1,2) cs(1) o2(1) assms(6))
  next
    case True
    let ?x' = "x\<lparr>mpStatus := (memNextProvider x rvn cs)\<lparr>mpLastValidationTime := Some (length m2)\<rparr>\<rparr>"
    let ?m4 = "(m2 @ [mk TimeType now])[a := mk ProviderConfigType ?x']"
    note st = providerStatus_stored [OF x(5,2,6) cs(2,3,5,6) refl refl, of rvn now, unfolded x(7)]
    have "\<exists>y. load ProviderConfigType original ?m4 = Some y \<and> readProviderConfig ?m4 y = (tm, p)"
      by (rule orig) (use cs(2,4) x(4) in \<open>auto simp: nth_append\<close>)
    with True ch st show ?thesis
      by (intro exI [of _ "Some original"] exI [of _ ?m4])
        (auto simp: memUpdateProviderConfigStatus_def x(1,2,8) cs(1) o2(1) new_def assms(6) readAt_def)
  qed
qed

end
