(* ===== verification/Operator.thy ===== *)
theory Operator
  imports BucketReconcile ProviderConfigController
begin

text \<open>
  The running operator: reconciliations of Buckets and of ProviderConfigs, in any order and for any
  requests, with one resolver and one cache that \<open>main\<close> creates for both controllers, while the
  outside world changes the API objects and the OBS buckets in between.
\<close>

inductive operatorRun :: "('c, 'w) env \<Rightarrow> ('c, 'w) ProviderResolver \<Rightarrow> ('c, 'w) st \<Rightarrow> bool" for E R where
  start: "operatorRun E R \<lparr>stWorld = w, stCache = Some (NewCache E), stTrace = []\<rparr>"
| bucket: "operatorRun E R s \<Longrightarrow> run_state (Reconcile n E (Some R) req) s = (Some r, t) \<Longrightarrow> operatorRun E R t"
| providerConfig: "operatorRun E R s \<Longrightarrow> run_state (ReconcileProviderConfig E (Some R) req) s = (r, t) \<Longrightarrow>
    operatorRun E R t"
| outside: "operatorRun E R s \<Longrightarrow> operatorRun E R (s\<lparr>stWorld := w\<rparr>)"

section \<open>The cache during a run\<close>

lemma operator_ledger: "operatorRun E R s \<Longrightarrow> clientLedger None s"
proof (induction rule: operatorRun.induct)
  case (start w)
  show ?case by (simp add: clientLedger_def cacheOk_NewCache) (simp add: NewCache_def liveClients_def)
next
  case (bucket s n req r t)
  show ?case by (rule keeps_run [OF keeps_ledger_Reconcile bucket(3,2)])
next
  case (providerConfig s req r t)
  show ?case by (rule keeps_run [OF keeps_ledger_ReconcileProviderConfig providerConfig(3,2)])
qed (simp add: clientLedger_def)

lemma operator_provenance: "operatorRun E R s \<Longrightarrow> cacheProvenance s"
proof (induction rule: operatorRun.induct)
  case (start w)
  show ?case by (simp add: cacheProvenance_def cacheOk_NewCache absCache_NewCache)
next
  case (bucket s n req r t)
  show ?case by (rule keeps_run [OF keeps_provenance_Reconcile bucket(3,2)])
next
  case (providerConfig s req r t)
  show ?case by (rule keeps_run [OF keeps_provenance_ReconcileProviderConfig providerConfig(3,2)])
qed (simp add: cacheProvenance_def)

section \<open>Requests during a run\<close>

definition readAllowing :: "k8s_lib \<Rightarrow> obs_req \<Rightarrow> 'c event \<Rightarrow> bool" where
  "readAllowing L q e \<longleftrightarrow> (\<exists>req b. e = GetBucketEv req (Inr b) \<and> reqAllowed L b q)"

definition sends :: "obs_req \<Rightarrow> 'c event \<Rightarrow> bool" where
  "sends q e \<longleftrightarrow> (\<exists>c x. e = ObsEv c q x)"

lemma body_guarded:
  assumes "list_all (reconcileEv L b) evs"
  shows "guarded (readAllowing L q) (sends q) (GetBucketEv req (Inr b) # evs)"
proof (cases "reqAllowed L b q")
  case True
  then show ?thesis by (simp add: readAllowing_def sends_def)
next
  case False
  with assms have "list_all (\<lambda>e. \<not> sends q e) evs"
    by (auto simp: list_all_iff reconcileEv_def sends_def)
  then show ?thesis by (simp add: sends_def guarded_none)
qed

lemma Reconcile_guarded: "emits (Reconcile n E R req) (\<lambda>r evs. guarded (readAllowing (lib E) q) (sends q) evs)"
proof (rule Reconcile_cases)
  show "guarded (readAllowing (lib E) q) (sends q) [GetBucketEv req (Inl err)]" for err
    by (simp add: sends_def)
  show "emits (reconcileBody n E R b) (\<lambda>r evs. guarded (readAllowing (lib E) q) (sends q) (GetBucketEv req (Inr b) # evs))"
    for b
    by (rule emits_mono [OF reconcileBody_only]) (rule body_guarded)
qed

lemma providerEv_not_sends: "providerEv e \<Longrightarrow> q \<noteq> RListBuckets \<Longrightarrow> \<not> sends q e"
  by (auto simp: providerEv_def sends_def)

lemma ReconcileProviderConfig_guarded:
  "q \<noteq> RListBuckets \<Longrightarrow> emits (ReconcileProviderConfig E R req) (\<lambda>r evs. guarded Q (sends q) evs)"
  by (rule emits_mono [OF ReconcileProviderConfig_only], rule guarded_none)
     (auto simp: list_all_iff dest: providerEv_not_sends)

lemma operator_guarded:
  assumes "operatorRun E R s" "q \<noteq> RListBuckets"
  shows "guarded (readAllowing (lib E) q) (sends q) (stTrace s)"
  using assms(1)
proof (induction rule: operatorRun.induct)
  case (bucket s n req r t)
  from emitsD [OF Reconcile_guarded [where q = q] bucket(2)] bucket(3) show ?case by (auto simp: guarded_append)
next
  case (providerConfig s req r t)
  from emitsD [OF ReconcileProviderConfig_guarded [OF assms(2), where Q = "readAllowing (lib E) q"] providerConfig(2)] providerConfig(3)
  show ?case by (auto simp: guarded_append)
qed simp_all

end
