(* ===== verification/Flags.thy ===== *)
theory Flags
  imports GoLib
begin

text \<open>
  The command line: the flags \<open>main\<close> registers and what \<open>flag.Parse\<close> of Go's standard library makes of
  the arguments. The libraries that are linked in register flags of their own (\<open>zap.Options.BindFlags\<close>,
  the \<open>kubeconfig\<close> flag of controller-runtime); they are a parameter, a table like that of \<open>main\<close> over a
  state of type \<open>'z\<close>.
\<close>

section \<open>The package flag\<close>

text \<open>A registered flag: whether it is a boolean flag, and the \<open>Set\<close> method of its value, \<open>None\<close> being an error.\<close>

record 'z flagDef =
  fdBool :: bool
  fdSet :: "string \<Rightarrow> 'z \<Rightarrow> 'z option"

definition ParseBool :: "string \<Rightarrow> bool option" where
  "ParseBool s =
     (if s \<in> {''1'', ''t'', ''T'', ''TRUE'', ''true'', ''True''} then Some True
      else if s \<in> {''0'', ''f'', ''F'', ''FALSE'', ''false'', ''False''} then Some False
      else None)"

definition StringVar :: "(string \<Rightarrow> 'z \<Rightarrow> 'z) \<Rightarrow> 'z flagDef" where
  "StringVar put = \<lparr>fdBool = False, fdSet = (\<lambda>s z. Some (put s z))\<rparr>"

definition BoolVar :: "(bool \<Rightarrow> 'z \<Rightarrow> 'z) \<Rightarrow> 'z flagDef" where
  "BoolVar put = \<lparr>fdBool = True, fdSet = (\<lambda>s z. map_option (\<lambda>b. put b z) (ParseBool s))\<rparr>"

text \<open>One step of parsing: a flag was read, the flags end here, or the process exits.\<close>

datatype 'z parsed = Seen "string list" 'z | Stop "string list" | Exit nat

text \<open>The name of a flag ends at the first equals sign that is not its first character.\<close>

definition splitValue :: "string \<Rightarrow> string \<times> string option" where
  "splitValue name =
     (let key = takeWhile (\<lambda>c. c \<noteq> CHR ''='') (tl name);
          rest = dropWhile (\<lambda>c. c \<noteq> CHR ''='') (tl name)
      in (take 1 name @ key, if rest = [] then None else Some (tl rest)))"

definition setFlag :: "'z flagDef \<Rightarrow> string \<Rightarrow> string list \<Rightarrow> 'z \<Rightarrow> 'z parsed" where
  "setFlag d value args z = (case fdSet d value z of None \<Rightarrow> Exit 2 | Some z' \<Rightarrow> Seen args z')"

definition parseNamed :: "(string \<times> 'z flagDef) list \<Rightarrow> string \<Rightarrow> string list \<Rightarrow> 'z \<Rightarrow> 'z parsed" where
  "parseNamed formal name args z =
     (case splitValue name of (key, value) \<Rightarrow>
        case map_of formal key of
          None \<Rightarrow> if key = ''help'' \<or> key = ''h'' then Exit 0 else Exit 2
        | Some d \<Rightarrow>
            if fdBool d then setFlag d (case value of Some v \<Rightarrow> v | None \<Rightarrow> ''true'') args z
            else (case value of
                    Some v \<Rightarrow> setFlag d v args z
                  | None \<Rightarrow> (case args of [] \<Rightarrow> Exit 2 | v # args' \<Rightarrow> setFlag d v args' z)))"

definition parseOne :: "(string \<times> 'z flagDef) list \<Rightarrow> string list \<Rightarrow> 'z \<Rightarrow> 'z parsed" where
  "parseOne formal args z =
     (case args of
        [] \<Rightarrow> Stop []
      | s # rest \<Rightarrow>
          if length s < 2 \<or> s ! 0 \<noteq> CHR ''-'' then Stop args
          else if s = ''--'' then Stop rest
          else let name = (if s ! 1 = CHR ''-'' then drop 2 s else drop 1 s)
               in if name = [] \<or> hd name = CHR ''-'' \<or> hd name = CHR ''='' then Exit 2
                  else parseNamed formal name rest z)"

lemma setFlag_Seen: "setFlag d v args z = Seen args' z' \<Longrightarrow> args' = args"
  by (simp add: setFlag_def split: option.splits)

lemma parseNamed_shorter: "parseNamed formal name args z = Seen args' z' \<Longrightarrow> length args' \<le> length args"
  by (auto simp: parseNamed_def split: prod.splits option.splits if_splits list.splits dest: setFlag_Seen)

lemma parseOne_shorter: "parseOne formal args z = Seen args' z' \<Longrightarrow> length args' < length args"
  by (auto simp: parseOne_def Let_def split: list.splits if_splits dest: parseNamed_shorter)

text \<open>
  \<open>Parse\<close> on the command line of the process, whose error handling is to exit. The result is the exit
  code, or the arguments left over and the values of the flags.
\<close>

function Parse :: "(string \<times> 'z flagDef) list \<Rightarrow> string list \<Rightarrow> 'z \<Rightarrow> nat + string list \<times> 'z" where
  "Parse formal args z =
     (case parseOne formal args z of
        Seen args' z' \<Rightarrow> Parse formal args' z'
      | Stop args' \<Rightarrow> Inr (args', z)
      | Exit code \<Rightarrow> Inl code)"
  by pat_completeness auto
termination
  by (relation "measure (\<lambda>(_, args, _). length args)") (auto dest: parseOne_shorter)

declare Parse.simps [simp del]

lemma Parse_exit: "Parse formal args z = Inl code \<Longrightarrow> code = 0 \<or> code = 2"
proof (induction formal args z rule: Parse.induct)
  case (1 formal args z)
  have set: "setFlag d v as z = Exit c \<Longrightarrow> c = 2" for d v as c
    by (simp add: setFlag_def split: option.splits)
  have named: "parseNamed formal nm as z = Exit c \<Longrightarrow> c = 0 \<or> c = 2" for nm as c
    by (auto simp: parseNamed_def split: prod.splits option.splits if_splits list.splits dest: set)
  have "parseOne formal args z = Exit c \<Longrightarrow> c = 0 \<or> c = 2" for c
    by (auto simp: parseOne_def Let_def split: list.splits if_splits dest: named)
  with 1 show ?case by (auto simp: Parse.simps [of formal args z] split: parsed.splits)
qed

text \<open>A flag given as \<open>--name=value\<close> is set, whatever its value looks like.\<close>

definition flagArg :: "string \<Rightarrow> string \<Rightarrow> string" where
  "flagArg name value = ''--'' @ name @ ''='' @ value"

definition flagName :: "string \<Rightarrow> bool" where
  "flagName name \<longleftrightarrow> name \<noteq> [] \<and> hd name \<noteq> CHR ''-'' \<and> CHR ''='' \<notin> set name"

lemma splitValue_arg:
  assumes "flagName name"
  shows "splitValue (name @ CHR ''='' # value) = (name, Some value)"
proof -
  obtain c cs where name: "name = c # cs" "CHR ''='' \<notin> set cs" using assms by (cases name) (auto simp: flagName_def)
  then have "takeWhile (\<lambda>c. c \<noteq> CHR ''='') (cs @ CHR ''='' # value) = cs"
    "dropWhile (\<lambda>c. c \<noteq> CHR ''='') (cs @ CHR ''='' # value) = CHR ''='' # value"
    by (auto simp: takeWhile_append dropWhile_append)
  with name show ?thesis by (simp add: splitValue_def)
qed

lemma Parse_flagArg:
  assumes "flagName name" "map_of formal name = Some d" "fdSet d value z = Some z'"
  shows "Parse formal (flagArg name value # args) z = Parse formal args z'"
proof -
  obtain c cs where name: "name = c # cs" "c \<noteq> CHR ''-''" "c \<noteq> CHR ''=''"
    using assms(1) by (cases name) (auto simp: flagName_def)
  then have hd: "hd (name @ CHR ''='' # value) \<noteq> CHR ''-''" "hd (name @ CHR ''='' # value) \<noteq> CHR ''=''"
    by simp_all
  have "parseNamed formal (name @ CHR ''='' # value) args z = Seen args z'"
    using assms by (simp add: parseNamed_def splitValue_arg setFlag_def)
  with hd have "parseOne formal (flagArg name value # args) z = Seen args z'"
    by (simp add: parseOne_def flagArg_def)
  then show ?thesis by (simp add: Parse.simps [of formal "flagArg name value # args"])
qed


section \<open>The flags of main\<close>

record flags =
  metricsAddr :: string
  metricsCertPath :: string
  metricsCertName :: string
  metricsCertKey :: string
  webhookCertPath :: string
  webhookCertName :: string
  webhookCertKey :: string
  enableLeaderElection :: bool
  probeAddr :: string
  secureMetrics :: bool
  enableHTTP2 :: bool

definition defaultFlags :: flags where
  "defaultFlags =
     \<lparr>metricsAddr = ''0'', metricsCertPath = [], metricsCertName = ''tls.crt'', metricsCertKey = ''tls.key'',
      webhookCertPath = [], webhookCertName = ''tls.crt'', webhookCertKey = ''tls.key'',
      enableLeaderElection = False, probeAddr = '':8081'', secureMetrics = True, enableHTTP2 = False\<rparr>"

definition operatorFlags :: "(string \<times> flags flagDef) list" where
  "operatorFlags =
     [(''metrics-bind-address'', StringVar (\<lambda>s f. f\<lparr>metricsAddr := s\<rparr>)),
      (''health-probe-bind-address'', StringVar (\<lambda>s f. f\<lparr>probeAddr := s\<rparr>)),
      (''leader-elect'', BoolVar (\<lambda>b f. f\<lparr>enableLeaderElection := b\<rparr>)),
      (''metrics-secure'', BoolVar (\<lambda>b f. f\<lparr>secureMetrics := b\<rparr>)),
      (''webhook-cert-path'', StringVar (\<lambda>s f. f\<lparr>webhookCertPath := s\<rparr>)),
      (''webhook-cert-name'', StringVar (\<lambda>s f. f\<lparr>webhookCertName := s\<rparr>)),
      (''webhook-cert-key'', StringVar (\<lambda>s f. f\<lparr>webhookCertKey := s\<rparr>)),
      (''metrics-cert-path'', StringVar (\<lambda>s f. f\<lparr>metricsCertPath := s\<rparr>)),
      (''metrics-cert-name'', StringVar (\<lambda>s f. f\<lparr>metricsCertName := s\<rparr>)),
      (''metrics-cert-key'', StringVar (\<lambda>s f. f\<lparr>metricsCertKey := s\<rparr>)),
      (''enable-http2'', BoolVar (\<lambda>b f. f\<lparr>enableHTTP2 := b\<rparr>))]"

definition onFst :: "'a flagDef \<Rightarrow> ('a \<times> 'b) flagDef" where
  "onFst d = \<lparr>fdBool = fdBool d, fdSet = (\<lambda>s (x, y). map_option (\<lambda>x'. (x', y)) (fdSet d s x))\<rparr>"

definition onSnd :: "'b flagDef \<Rightarrow> ('a \<times> 'b) flagDef" where
  "onSnd d = \<lparr>fdBool = fdBool d, fdSet = (\<lambda>s (x, y). map_option (\<lambda>y'. (x, y')) (fdSet d s y))\<rparr>"

text \<open>The flags of the process: those of \<open>main\<close> and those of the libraries, in one table.\<close>

definition commandLine :: "(string \<times> 'z flagDef) list \<Rightarrow> (string \<times> (flags \<times> 'z) flagDef) list" where
  "commandLine others = map (\<lambda>(n, d). (n, onFst d)) operatorFlags @ map (\<lambda>(n, d). (n, onSnd d)) others"

text \<open>
  Registering a name twice panics, which ends the process with exit code 2. The arguments that are
  left over after the flags are ignored.
\<close>

definition parseCommandLine :: "(string \<times> 'z flagDef) list \<Rightarrow> string list \<Rightarrow> 'z \<Rightarrow> nat + flags \<times> 'z" where
  "parseCommandLine others args z =
     (if \<not> distinct (map fst (commandLine others)) then Inl 2
      else case Parse (commandLine others) args (defaultFlags, z) of
             Inl code \<Rightarrow> Inl code
           | Inr (_, fz) \<Rightarrow> Inr fz)"

section \<open>Reading back a command line\<close>

definition FormatBool :: "bool \<Rightarrow> string" where
  "FormatBool b = (if b then ''true'' else ''false'')"

definition renderFlags :: "flags \<Rightarrow> string list" where
  "renderFlags f =
     [flagArg ''metrics-bind-address'' (metricsAddr f), flagArg ''health-probe-bind-address'' (probeAddr f),
      flagArg ''leader-elect'' (FormatBool (enableLeaderElection f)), flagArg ''metrics-secure'' (FormatBool (secureMetrics f)),
      flagArg ''webhook-cert-path'' (webhookCertPath f), flagArg ''webhook-cert-name'' (webhookCertName f),
      flagArg ''webhook-cert-key'' (webhookCertKey f), flagArg ''metrics-cert-path'' (metricsCertPath f),
      flagArg ''metrics-cert-name'' (metricsCertName f), flagArg ''metrics-cert-key'' (metricsCertKey f),
      flagArg ''enable-http2'' (FormatBool (enableHTTP2 f))]"

lemma ParseBool_FormatBool: "ParseBool (FormatBool b) = Some b"
  by (simp add: ParseBool_def FormatBool_def)

lemma fdSet_simps [simp]:
  "fdSet (StringVar put) s z = Some (put s z)" "fdSet (BoolVar put') (FormatBool b) z = Some (put' b z)"
  by (simp_all add: StringVar_def BoolVar_def ParseBool_FormatBool)

lemma Parse_operator:
  assumes "flagName name" "map_of operatorFlags name = Some d" "fdSet d value f = Some f'"
  shows "Parse (commandLine others) (flagArg name value # args) (f, z) = Parse (commandLine others) args (f', z)"
proof (rule Parse_flagArg [OF assms(1)])
  have "map_of (map (\<lambda>(n, d). (n, onFst d)) operatorFlags) name = Some (onFst d :: (flags \<times> 'a) flagDef)"
    using assms(2) by (simp add: map_of_map)
  then show "map_of (commandLine others) name = Some (onFst d)" by (simp add: commandLine_def)
qed (simp add: onFst_def assms(3))

lemma Parse_end: "Parse formal [] z = Inr ([], z)"
  by (simp add: Parse.simps [of formal "[]"] parseOne_def)

text \<open>
  C35. A command line that gives every flag of the operator as \<open>--name=value\<close> is read back exactly:
  the process runs with the flags that were written, for all values, also values that begin with a
  dash or contain an equals sign, and whatever flags the linked libraries register beside them.
\<close>

theorem flags_roundtrip:
  assumes "distinct (map fst (commandLine others))"
  shows "parseCommandLine others (renderFlags f) z = Inr (f, z)"
proof -
  have "Parse (commandLine others) (renderFlags f) (g, z) = Inr ([], (f, z))" for g
    unfolding renderFlags_def
    by (subst Parse_operator, simp add: flagName_def, simp add: operatorFlags_def, simp)+ (simp add: Parse_end)
  with assms show ?thesis by (simp add: parseCommandLine_def)
qed

theorem flags_roundtrip_witness:
  "parseCommandLine [(''kubeconfig'', StringVar (\<lambda>s _. s))] (renderFlags (defaultFlags\<lparr>probeAddr := ''--x=y''\<rparr>)) [] =
     Inr (defaultFlags\<lparr>probeAddr := ''--x=y''\<rparr>, [])"
  by (rule flags_roundtrip) (simp add: commandLine_def operatorFlags_def)

end
