(* ===== verification/Manager.thy ===== *)
theory Manager
  imports Watches Flags
begin

text \<open>
  The process: \<open>main\<close> of \<open>cmd/main.go\<close> and the two \<open>SetupWithManager\<close>. \<open>main\<close> parses the flags, derives the
  options of the webhook and metrics servers and of the manager, sets up both controllers on it
  with one shared provider resolver, and starts it; any error ends the process with exit code 1.

  The manager of controller-runtime is a parameter: a function from the call and the world to an
  error or success. Loading the kubeconfig is one of the calls; its failure ends the process the same
  way as the others.
\<close>

section \<open>Options\<close>

record tlsConfig =
  NextProtos :: "string list"

definition disableHTTP2 :: "tlsConfig \<Rightarrow> tlsConfig" where
  "disableHTTP2 c = c\<lparr>NextProtos := [''http/1.1'']\<rparr>"

definition tlsOpts :: "flags \<Rightarrow> (tlsConfig \<Rightarrow> tlsConfig) list" where
  "tlsOpts f = (if \<not> enableHTTP2 f then [disableHTTP2] else [])"

record webhookOptions =
  woTLSOpts :: "(tlsConfig \<Rightarrow> tlsConfig) list"
  woCertDir :: string
  woCertName :: string
  woKeyName :: string

definition webhookServerOptions :: "flags \<Rightarrow> webhookOptions" where
  "webhookServerOptions f =
     (let o1 = \<lparr>woTLSOpts = tlsOpts f, woCertDir = [], woCertName = [], woKeyName = []\<rparr>
      in if 0 < length (webhookCertPath f)
         then o1\<lparr>woCertDir := webhookCertPath f, woCertName := webhookCertName f, woKeyName := webhookCertKey f\<rparr>
         else o1)"

record metricsOptions =
  moBindAddress :: string
  moSecureServing :: bool
  moTLSOpts :: "(tlsConfig \<Rightarrow> tlsConfig) list"
  moAuthFilter :: bool \<comment> \<open>\<open>FilterProvider\<close> is \<open>filters.WithAuthenticationAndAuthorization\<close>\<close>
  moCertDir :: string
  moCertName :: string
  moKeyName :: string

definition metricsServerOptions :: "flags \<Rightarrow> metricsOptions" where
  "metricsServerOptions f =
     (let o1 = \<lparr>moBindAddress = metricsAddr f, moSecureServing = secureMetrics f, moTLSOpts = tlsOpts f,
                moAuthFilter = False, moCertDir = [], moCertName = [], moKeyName = []\<rparr>;
          o2 = (if secureMetrics f then o1\<lparr>moAuthFilter := True\<rparr> else o1)
      in if 0 < length (metricsCertPath f)
         then o2\<lparr>moCertDir := metricsCertPath f, moCertName := metricsCertName f, moKeyName := metricsCertKey f\<rparr>
         else o2)"

datatype kind = BucketKind | ProviderConfigKind | SecretKind

record managerOptions =
  mgMetrics :: metricsOptions
  mgWebhook :: webhookOptions
  mgHealthProbeBindAddress :: string
  mgLeaderElection :: bool
  mgLeaderElectionID :: string
  mgUncached :: "kind list" \<comment> \<open>\<open>Client.Cache.DisableFor\<close>\<close>

definition newManagerOptions :: "flags \<Rightarrow> managerOptions" where
  "newManagerOptions f =
     \<lparr>mgMetrics = metricsServerOptions f, mgWebhook = webhookServerOptions f,
      mgHealthProbeBindAddress = probeAddr f, mgLeaderElection = enableLeaderElection f,
      mgLeaderElectionID = ''f83cfc51.wilaris.de'', mgUncached = [SecretKind]\<rparr>"

section \<open>Setting up and starting the manager\<close>

record controllerSpec =
  ctName :: string
  ctFor :: kind
  ctForFiltered :: bool \<comment> \<open>with \<open>bucketEventPredicate\<close>\<close>
  ctWatches :: "(kind \<times> bool) list" \<comment> \<open>watched kind, and whether only its metadata\<close>

datatype managerCall =
    GetConfig
  | NewManager managerOptions
  | IndexField kind string
  | CompleteController controllerSpec
  | AddHealthzCheck string
  | AddReadyzCheck string
  | StartManager

type_synonym ('w, 'a) mprog = "('w \<times> (managerCall \<times> error option) list, 'a) state"

type_synonym 'w managerApi = "managerCall \<Rightarrow> 'w \<Rightarrow> error option \<times> 'w"

definition mgr :: "'w managerApi \<Rightarrow> managerCall \<Rightarrow> ('w, error option) mprog" where
  "mgr M c = State (\<lambda>(w, tr). case M c w of (e, w') \<Rightarrow> (e, (w', tr @ [(c, e)])))"

definition bucketController :: controllerSpec where
  "bucketController = \<lparr>ctName = ''bucket'', ctFor = BucketKind, ctForFiltered = True,
     ctWatches = [(ProviderConfigKind, False)]\<rparr>"

definition providerConfigController :: controllerSpec where
  "providerConfigController = \<lparr>ctName = ''providerconfig'', ctFor = ProviderConfigKind, ctForFiltered = False,
     ctWatches = [(SecretKind, True)]\<rparr>"

definition SetupBucketWithManager :: "'w managerApi \<Rightarrow> ('w, error option) mprog" where
  "SetupBucketWithManager M = do {
     e \<leftarrow> mgr M (IndexField BucketKind bucketProviderConfigRefIndex);
     case e of
       Some err \<Rightarrow> ret (Some err)
     | None \<Rightarrow> mgr M (CompleteController bucketController)
   }"

definition SetupProviderConfigWithManager :: "'w managerApi \<Rightarrow> ('w, error option) mprog" where
  "SetupProviderConfigWithManager M = do {
     e \<leftarrow> mgr M (IndexField ProviderConfigKind providerConfigCredentialsSecretIndex);
     case e of
       Some err \<Rightarrow> ret (Some err)
     | None \<Rightarrow> mgr M (CompleteController providerConfigController)
   }"

text \<open>The statements of \<open>main\<close> after the flags, each followed by \<open>os.Exit(1)\<close> when it fails.\<close>

primrec exitOnError :: "('w, error option) mprog list \<Rightarrow> ('w, nat) mprog" where
  "exitOnError [] = ret 0"
| "exitOnError (m # ms) = do {
     e \<leftarrow> m;
     if e \<noteq> None then ret 1 else exitOnError ms
   }"

definition main :: "'w managerApi \<Rightarrow> flags \<Rightarrow> ('w, nat) mprog" where
  "main M f = exitOnError
     [mgr M GetConfig, mgr M (NewManager (newManagerOptions f)), SetupProviderConfigWithManager M, SetupBucketWithManager M,
      mgr M (AddHealthzCheck ''healthz''), mgr M (AddReadyzCheck ''readyz''), mgr M StartManager]"

text \<open>The whole process: the flags first, then the start-up.\<close>

definition process :: "'w managerApi \<Rightarrow> (string \<times> 'z flagDef) list \<Rightarrow> 'z \<Rightarrow> string list \<Rightarrow> ('w, nat) mprog" where
  "process M others z args =
     (case parseCommandLine others args z of
        Inl code \<Rightarrow> ret code
      | Inr (f, _) \<Rightarrow> main M f)"

section \<open>The start-up sequence\<close>

definition startup :: "flags \<Rightarrow> managerCall list" where
  "startup f =
     [GetConfig, NewManager (newManagerOptions f),
      IndexField ProviderConfigKind providerConfigCredentialsSecretIndex, CompleteController providerConfigController,
      IndexField BucketKind bucketProviderConfigRefIndex, CompleteController bucketController,
      AddHealthzCheck ''healthz'', AddReadyzCheck ''readyz'', StartManager]"

text \<open>Running the calls one after the other until one fails is what \<open>main\<close> does.\<close>

lemma run_mgr: "run_state (mgr M c) (w, tr) = (fst (M c w), (snd (M c w), tr @ [(c, fst (M c w))]))"
  by (simp add: mgr_def split: prod.splits)

lemma exitOnError_split:
  "exitOnError (ms @ State_Monad.bind m (\<lambda>e. case e of Some err \<Rightarrow> ret (Some err) | None \<Rightarrow> m') # ms') =
     exitOnError (ms @ m # m' # ms')"
proof (induction ms)
  case Nil
  then show ?case
    by (auto intro!: arg_cong2 [where f = State_Monad.bind] simp: fun_eq_iff split: option.splits)
qed (simp only: append_Cons exitOnError.simps)

lemma main_startup: "main M f = exitOnError (map (mgr M) (startup f))"
proof -
  let ?g = "mgr M GetConfig" and ?n = "mgr M (NewManager (newManagerOptions f))"
  let ?p = "mgr M (IndexField ProviderConfigKind providerConfigCredentialsSecretIndex)"
    and ?p' = "mgr M (CompleteController providerConfigController)"
  let ?b = "mgr M (IndexField BucketKind bucketProviderConfigRefIndex)"
    and ?b' = "mgr M (CompleteController bucketController)"
  let ?rest = "[mgr M (AddHealthzCheck ''healthz''), mgr M (AddReadyzCheck ''readyz''), mgr M StartManager]"
  have "main M f = exitOnError ([?g, ?n] @ SetupProviderConfigWithManager M # SetupBucketWithManager M # ?rest)"
    by (simp only: main_def append.simps)
  also have "\<dots> = exitOnError ([?g, ?n, ?p, ?p'] @ SetupBucketWithManager M # ?rest)"
    unfolding SetupProviderConfigWithManager_def
    using exitOnError_split [of "[?g, ?n]" ?p ?p' "SetupBucketWithManager M # ?rest"] by (simp only: append.simps)
  also have "\<dots> = exitOnError ([?g, ?n, ?p, ?p', ?b, ?b'] @ ?rest)"
    unfolding SetupBucketWithManager_def
    using exitOnError_split [of "[?g, ?n, ?p, ?p']" ?b ?b' ?rest] by (simp only: append.simps)
  finally show ?thesis by (simp only: startup_def list.map append.simps)
qed

lemma exitOnError_calls:
  assumes "run_state (exitOnError (map (mgr M) cs)) (w, tr) = (code, (w', tr'))"
  shows "\<exists>new. tr' = tr @ new \<and> map fst new = take (length new) cs \<and>
    (if code = 0 then length new = length cs \<and> list_all (\<lambda>x. snd x = None) new
     else code = 1 \<and> new \<noteq> [] \<and> list_all (\<lambda>x. snd x = None) (butlast new) \<and> snd (last new) \<noteq> None)"
  using assms
proof (induction cs arbitrary: w tr)
  case (Cons c cs)
  obtain e w1 where e: "M c w = (e, w1)" by fastforce
  show ?case
  proof (cases e)
    case (Some err)
    with Cons.prems e show ?thesis by (intro exI [of _ "[(c, e)]"]) (auto simp: run_mgr)
  next
    case None
    with Cons.prems e have "run_state (exitOnError (map (mgr M) cs)) (w1, tr @ [(c, e)]) = (code, (w', tr'))"
      by (simp add: run_mgr)
    from Cons.IH [OF this] obtain new where "tr' = tr @ (c, e) # new" "map fst new = take (length new) cs"
      "if code = 0 then length new = length cs \<and> list_all (\<lambda>x. snd x = None) new
       else code = 1 \<and> new \<noteq> [] \<and> list_all (\<lambda>x. snd x = None) (butlast new) \<and> snd (last new) \<noteq> None" by auto
    with None show ?thesis by (intro exI [of _ "(c, e) # new"]) (auto split: if_splits)
  qed
qed simp

lemma main_calls:
  "case run_state (main M f) (w, []) of (code, (w', tr)) \<Rightarrow>
     map fst tr = take (length tr) (startup f) \<and>
     (if code = 0 then length tr = 9 \<and> list_all (\<lambda>x. snd x = None) tr
      else code = 1 \<and> tr \<noteq> [] \<and> list_all (\<lambda>x. snd x = None) (butlast tr) \<and> snd (last tr) \<noteq> None)"
proof -
  obtain code w' tr where run: "run_state (main M f) (w, []) = (code, (w', tr))" by (metis prod_cases3)
  have "length (startup f) = 9" by (simp add: startup_def)
  with exitOnError_calls [OF run [unfolded main_startup]] run show ?thesis by auto
qed

lemma parseCommandLine_exit: "parseCommandLine others args z = Inl code \<Longrightarrow> code = 0 \<or> code = 2"
  by (auto simp: parseCommandLine_def split: if_splits sum.splits dest: Parse_exit)

text \<open>
  C36. The process parses the command line first. When that ends the process, it has made no call and
  its exit code is 0 (help) or 2. Otherwise it makes the calls of the start-up sequence for the flags it read,
  in their order, each after the one before it succeeded: it loads the configuration, makes the
  manager, indexes and completes the ProviderConfig controller, then the Bucket controller, adds the
  two checks, and only then starts the manager. It exits with code 0 when all calls succeed and with
  code 1 after the first that fails.
\<close>

theorem main_sequence:
  "case run_state (process M others z args) (w, []) of (code, (w', tr)) \<Rightarrow>
     (case parseCommandLine others args z of
        Inl c \<Rightarrow> code = c \<and> (c = 0 \<or> c = 2) \<and> tr = [] \<and> w' = w
      | Inr (f, _) \<Rightarrow>
          map fst tr = take (length tr) (startup f) \<and>
          (if code = 0 then length tr = 9 \<and> list_all (\<lambda>x. snd x = None) tr
           else code = 1 \<and> tr \<noteq> [] \<and> list_all (\<lambda>x. snd x = None) (butlast tr) \<and> snd (last tr) \<noteq> None))"
proof (cases "parseCommandLine others args z")
  case (Inl c)
  with parseCommandLine_exit [OF Inl] show ?thesis by (auto simp: process_def)
next
  case (Inr fz)
  then show ?thesis using main_calls [where M = M and f = "fst fz" and w = w] by (cases fz) (simp add: process_def)
qed

text \<open>
  Unless HTTP/2 is enabled, both servers negotiate HTTP/1.1 only, whatever the other flags are;
  the metrics endpoint is served with TLS exactly when it is protected by authentication and
  authorization; and Secrets are never read through the cache.
\<close>

lemma server_options:
  "(enableHTTP2 f \<or> (\<forall>c. NextProtos (fold id (moTLSOpts (mgMetrics (newManagerOptions f))) c) = [''http/1.1''] \<and>
       NextProtos (fold id (woTLSOpts (mgWebhook (newManagerOptions f))) c) = [''http/1.1''])) \<and>
   moAuthFilter (mgMetrics (newManagerOptions f)) = moSecureServing (mgMetrics (newManagerOptions f)) \<and>
   SecretKind \<in> set (mgUncached (newManagerOptions f))"
  by (simp add: newManagerOptions_def metricsServerOptions_def webhookServerOptions_def tlsOpts_def disableHTTP2_def Let_def)

end
