(* ===== verification/Scheme.thy ===== *)
theory Scheme
  imports Manager
begin

text \<open>
  Registration of the resource types: the package variables of \<open>api/v1alpha1/groupversion_info.go\<close>, the
  \<open>init\<close> functions of the two type files, and \<open>init\<close> of \<open>cmd/main.go\<close>, which builds the scheme that the
  manager gets.

  The scheme and its builder belong to apimachinery and controller-runtime and are parameters;
  \<open>schemeLaws\<close> states what is documented of them. A panic of \<open>utilruntime.Must\<close> is \<open>None\<close>.
\<close>

section \<open>Registration\<close>

record GroupVersion =
  gvGroup :: string
  gvVersion :: string

datatype goType =
    BucketStruct
  | BucketListStruct
  | ProviderConfigStruct
  | ProviderConfigListStruct
  | CoreStruct string \<comment> \<open>a type of \<open>k8s.io/api/core/v1\<close>\<close>

record ('b, 's) scheme_lib =
  NewBuilder :: "GroupVersion \<Rightarrow> 'b"
  Register :: "'b \<Rightarrow> goType list \<Rightarrow> 'b"
  BuilderAddToScheme :: "'b \<Rightarrow> 's \<Rightarrow> error option \<times> 's"
  NewScheme :: 's
  ClientGoAddToScheme :: "'s \<Rightarrow> error option \<times> 's"
  Recognizes :: "'s \<Rightarrow> GroupVersion \<Rightarrow> goType \<Rightarrow> bool"
  Registered :: "'b \<Rightarrow> GroupVersion \<times> goType list"

definition SchemeGroupVersion :: GroupVersion where
  "SchemeGroupVersion = \<lparr>gvGroup = ''obs.wilaris.de'', gvVersion = ''v1alpha1''\<rparr>"

definition SchemeBuilder :: "('b, 's) scheme_lib \<Rightarrow> 'b" where
  "SchemeBuilder S = NewBuilder S SchemeGroupVersion"

definition initBucketTypes :: "('b, 's) scheme_lib \<Rightarrow> 'b \<Rightarrow> 'b" where
  "initBucketTypes S builder = Register S builder [BucketStruct, BucketListStruct]"

definition initProviderConfigTypes :: "('b, 's) scheme_lib \<Rightarrow> 'b \<Rightarrow> 'b" where
  "initProviderConfigTypes S builder = Register S builder [ProviderConfigStruct, ProviderConfigListStruct]"

text \<open>Go initialises the variables of a package, then calls the \<open>init\<close> functions in the order of the file names.\<close>

definition packageBuilder :: "('b, 's) scheme_lib \<Rightarrow> 'b" where
  "packageBuilder S = initProviderConfigTypes S (initBucketTypes S (SchemeBuilder S))"

definition Must :: "error option \<times> 's \<Rightarrow> 's option" where
  "Must r = (case r of (None, s) \<Rightarrow> Some s | (Some err, s) \<Rightarrow> None)"

definition initMain :: "('b, 's) scheme_lib \<Rightarrow> 's option" where
  "initMain S = do {
     s1 \<leftarrow> Must (ClientGoAddToScheme S (NewScheme S));
     Must (BuilderAddToScheme S (packageBuilder S) s1)
   }"

section \<open>What the manager needs is registered\<close>

definition schemeLaws :: "('b, 's) scheme_lib \<Rightarrow> bool" where
  "schemeLaws S \<longleftrightarrow>
     (\<forall>gv. Registered S (NewBuilder S gv) = (gv, [])) \<and>
     (\<forall>b ts. Registered S (Register S b ts) = (fst (Registered S b), snd (Registered S b) @ ts)) \<and>
     (\<forall>b s s' gv t. BuilderAddToScheme S b s = (None, s') \<longrightarrow>
        Recognizes S s' gv t = (Recognizes S s gv t \<or> gv = fst (Registered S b) \<and> t \<in> set (snd (Registered S b)))) \<and>
     (\<forall>s s'. ClientGoAddToScheme S s = (None, s') \<longrightarrow>
        Recognizes S s' \<lparr>gvGroup = [], gvVersion = ''v1''\<rparr> (CoreStruct ''Secret''))"

text \<open>The kinds that the calls of the start-up sequence name, and the Go types they stand for.\<close>

fun kindsOf :: "managerCall \<Rightarrow> kind list" where
  "kindsOf (IndexField k _) = [k]"
| "kindsOf (CompleteController c) = ctFor c # map fst (ctWatches c)"
| "kindsOf _ = []"

fun typesOf :: "kind \<Rightarrow> (GroupVersion \<times> goType) list" where
  "typesOf BucketKind = [(SchemeGroupVersion, BucketStruct), (SchemeGroupVersion, BucketListStruct)]"
| "typesOf ProviderConfigKind =
     [(SchemeGroupVersion, ProviderConfigStruct), (SchemeGroupVersion, ProviderConfigListStruct)]"
| "typesOf SecretKind = [(\<lparr>gvGroup = [], gvVersion = ''v1''\<rparr>, CoreStruct ''Secret'')]"

lemma Must_Some: "Must r = Some s \<longleftrightarrow> r = (None, s)"
  by (cases r) (auto simp: Must_def split: option.splits)

lemma packageBuilder_registered:
  assumes "schemeLaws S"
  shows "Registered S (packageBuilder S) =
    (SchemeGroupVersion, [BucketStruct, BucketListStruct, ProviderConfigStruct, ProviderConfigListStruct])"
  using assms
  by (simp add: schemeLaws_def packageBuilder_def initProviderConfigTypes_def initBucketTypes_def SchemeBuilder_def)

text \<open>
  When the process gets past its initialisation, the scheme knows the Go type of every kind that the
  manager is asked to index, reconcile or watch, and its list type, under the group and version of
  this API.
\<close>

lemma scheme_complete:
  assumes "schemeLaws S" "initMain S = Some s" "mc \<in> set (startup f)" "k \<in> set (kindsOf mc)" "(gv, t) \<in> set (typesOf k)"
  shows "Recognizes S s gv t"
proof -
  obtain s1 where s1: "ClientGoAddToScheme S (NewScheme S) = (None, s1)"
    "BuilderAddToScheme S (packageBuilder S) s1 = (None, s)"
    using assms(2) by (auto simp: initMain_def bind_eq_Some_conv Must_Some)
  have "Recognizes S s1 \<lparr>gvGroup = [], gvVersion = ''v1''\<rparr> (CoreStruct ''Secret'')"
    using assms(1) s1(1) by (simp add: schemeLaws_def)
  moreover have "Recognizes S s gv t = (Recognizes S s1 gv t \<or> gv = SchemeGroupVersion \<and>
      t \<in> {BucketStruct, BucketListStruct, ProviderConfigStruct, ProviderConfigListStruct})" for gv t
    using assms(1) s1(2) packageBuilder_registered [OF assms(1)] by (simp add: schemeLaws_def)
  ultimately show ?thesis
    using assms(3-5) by (cases k) auto
qed

text \<open>A scheme that is the set of the types it knows, and a builder that collects types, have these laws.\<close>

definition listScheme :: "(GroupVersion \<times> goType list, (GroupVersion \<times> goType) list) scheme_lib" where
  "listScheme = \<lparr>NewBuilder = (\<lambda>gv. (gv, [])), Register = (\<lambda>(gv, ts) ts'. (gv, ts @ ts')),
     BuilderAddToScheme = (\<lambda>(gv, ts) s. (None, s @ map (Pair gv) ts)), NewScheme = [],
     ClientGoAddToScheme = (\<lambda>s. (None, s @ [(\<lparr>gvGroup = [], gvVersion = ''v1''\<rparr>, CoreStruct ''Secret'')])),
     Recognizes = (\<lambda>s gv t. (gv, t) \<in> set s), Registered = id\<rparr>"

lemma listScheme_laws: "schemeLaws listScheme" "initMain listScheme \<noteq> None"
  by (auto simp: schemeLaws_def listScheme_def initMain_def Must_def packageBuilder_def
      initProviderConfigTypes_def initBucketTypes_def SchemeBuilder_def)

end
