(* ===== verification/Logging.thy ===== *)
theory Logging
  imports Operator Watches
begin

text \<open>
  The handlers with their log statements. A program with a log works on the state of the model and a
  list of log records; \<open>silent\<close> runs a program that logs nothing, \<open>info\<close> and \<open>logFailure\<close> append a record.
  Each function that logs is translated again, log statements included; \<open>erases lm m\<close> says that \<open>lm\<close>
  does what \<open>m\<close> does and only adds records, so the theorems about the handlers without the log are
  theorems about the handlers as they are.
\<close>

section \<open>Programs with a log\<close>

datatype logValue = LString string | LBool bool | LInt int

record logRecord =
  logErr :: "error option" \<comment> \<open>the error of a record written with \<open>Error\<close>\<close>
  logMessage :: string
  logValues :: "(string \<times> logValue) list"

type_synonym ('c, 'w, 'a) lprog = "(('c, 'w) st \<times> logRecord list, 'a) state"

definition silent :: "('c, 'w, 'a) prog \<Rightarrow> ('c, 'w, 'a) lprog" where
  "silent m = State (\<lambda>(s, l). case run_state m s of (x, t) \<Rightarrow> (x, (t, l)))"

definition info :: "string \<Rightarrow> (string \<times> logValue) list \<Rightarrow> ('c, 'w, unit) lprog" where
  "info msg vals = State (\<lambda>(s, l). ((), (s, l @ [\<lparr>logErr = None, logMessage = msg, logValues = vals\<rparr>])))"

definition logFailure :: "error \<Rightarrow> string \<Rightarrow> (string \<times> logValue) list \<Rightarrow> ('c, 'w, unit) lprog" where
  "logFailure err msg vals = State (\<lambda>(s, l). ((), (s, l @ [\<lparr>logErr = Some err, logMessage = msg, logValues = vals\<rparr>])))"

section \<open>Erasing the log\<close>

definition erases :: "('c, 'w, 'a) lprog \<Rightarrow> ('c, 'w, 'a) prog \<Rightarrow> bool" where
  "erases lm m \<longleftrightarrow> (\<forall>s l. \<exists>new. run_state lm (s, l) = (case run_state m s of (x, t) \<Rightarrow> (x, (t, l @ new))))"

named_theorems erases_intros \<open>rules for programs that differ in their log only\<close>

lemma erasesD: "erases lm m \<Longrightarrow> run_state m s = (x, t) \<Longrightarrow> \<exists>new. run_state lm (s, l) = (x, (t, l @ new))"
  unfolding erases_def by (drule spec [of _ s], drule spec [of _ l]) simp

lemma erases_silent [erases_intros]: "erases (silent m) m"
  by (auto simp: erases_def silent_def split: prod.splits)

lemma erases_ret [erases_intros]: "erases (ret x) (ret x)"
  by (simp add: erases_def)

lemma erases_bind [erases_intros]:
  assumes "erases lm m" "\<And>x. erases (lk x) (k x)"
  shows "erases (State_Monad.bind lm lk) (State_Monad.bind m k)"
  unfolding erases_def
proof (intro allI)
  fix s l
  obtain x t where m: "run_state m s = (x, t)" by fastforce
  from erasesD [OF assms(1) m] obtain new where 1: "run_state lm (s, l) = (x, (t, l @ new))" by blast
  obtain y u where k: "run_state (k x) t = (y, u)" by fastforce
  from erasesD [OF assms(2) k] obtain new' where "run_state (lk x) (t, l @ new) = (y, (u, (l @ new) @ new'))" by blast
  with m k 1 show "\<exists>new. run_state (State_Monad.bind lm lk) (s, l) =
      (case run_state (State_Monad.bind m k) s of (x, t) \<Rightarrow> (x, (t, l @ new)))" by simp
qed

lemma erases_info [erases_intros]:
  assumes "erases lk k"
  shows "erases (State_Monad.bind (info msg vals) (\<lambda>_. lk)) k"
  unfolding erases_def
proof (intro allI)
  fix s l
  let ?r = "\<lparr>logErr = None, logMessage = msg, logValues = vals\<rparr>"
  from assms obtain new where "run_state lk (s, l @ [?r]) = (case run_state k s of (x, t) \<Rightarrow> (x, (t, (l @ [?r]) @ new)))"
    unfolding erases_def by blast
  then show "\<exists>new. run_state (State_Monad.bind (info msg vals) (\<lambda>_. lk)) (s, l) = (case run_state k s of (x, t) \<Rightarrow> (x, (t, l @ new)))"
    by (intro exI [of _ "?r # new"]) (simp add: info_def)
qed

lemma erases_logFailure [erases_intros]:
  assumes "erases lk k"
  shows "erases (State_Monad.bind (logFailure err msg vals) (\<lambda>_. lk)) k"
  unfolding erases_def
proof (intro allI)
  fix s l
  let ?r = "\<lparr>logErr = Some err, logMessage = msg, logValues = vals\<rparr>"
  from assms obtain new where "run_state lk (s, l @ [?r]) = (case run_state k s of (x, t) \<Rightarrow> (x, (t, (l @ [?r]) @ new)))"
    unfolding erases_def by blast
  then show "\<exists>new. run_state (State_Monad.bind (logFailure err msg vals) (\<lambda>_. lk)) (s, l) = (case run_state k s of (x, t) \<Rightarrow> (x, (t, l @ new)))"
    by (intro exI [of _ "?r # new"]) (simp add: logFailure_def)
qed

lemma erases_if [erases_intros]:
  "(b \<Longrightarrow> erases lm m) \<Longrightarrow> (\<not> b \<Longrightarrow> erases ln n) \<Longrightarrow> erases (if b then lm else ln) (if b then m else n)"
  by simp

lemma erases_case_sum [erases_intros]:
  "(\<And>e. r = Inl e \<Longrightarrow> erases (lf e) (f e)) \<Longrightarrow> (\<And>x. r = Inr x \<Longrightarrow> erases (lg x) (g x)) \<Longrightarrow>
   erases (case r of Inl e \<Rightarrow> lf e | Inr x \<Rightarrow> lg x) (case r of Inl e \<Rightarrow> f e | Inr x \<Rightarrow> g x)"
  by (simp split: sum.splits)

lemma erases_case_option [erases_intros]:
  "(r = None \<Longrightarrow> erases lf f) \<Longrightarrow> (\<And>x. r = Some x \<Longrightarrow> erases (lg x) (g x)) \<Longrightarrow>
   erases (case r of None \<Rightarrow> lf | Some x \<Rightarrow> lg x) (case r of None \<Rightarrow> f | Some x \<Rightarrow> g x)"
  by (simp split: option.splits)

lemma erases_case_prod [erases_intros]:
  "(\<And>x y. p = (x, y) \<Longrightarrow> erases (lf x y) (f x y)) \<Longrightarrow> erases (case p of (x, y) \<Rightarrow> lf x y) (case p of (x, y) \<Rightarrow> f x y)"
  by (simp split: prod.splits)

lemma erases_finish [erases_intros]: "erases lm m \<Longrightarrow> erases (finish lm) (finish m)"
  unfolding finish_def by (intro erases_bind erases_ret)

section \<open>The update steps with their log\<close>

definition logStorageClass :: "('c, 'w) env \<Rightarrow> 'c option \<Rightarrow> Bucket \<Rightarrow> ('c, 'w, error option) lprog" where
  "logStorageClass E c bucket = do {
     let desired = normalizeStorageClass (sdk E) (bucketStorageClass (sdk E) bucket);
     r \<leftarrow> silent (obsCall c (RGetBucketStoragePolicy (bucketName bucket))
           (apiGetBucketStoragePolicy (obs E) c (bucketName bucket)));
     case r of
       Inl err \<Rightarrow> ret (Some (wrapf ''read bucket storage class: '' err))
     | Inr current \<Rightarrow>
         if normalizeStorageClass (sdk E) current = desired then ret None
         else do {
           w \<leftarrow> silent (obsCall c (RSetBucketStoragePolicy (bucketName bucket) desired)
                 (apiSetBucketStoragePolicy (obs E) c (bucketName bucket) desired));
           case w of
             Inl err \<Rightarrow> ret (Some (wrapf ''set bucket storage class: '' err))
           | Inr _ \<Rightarrow> do {
               info ''Updated bucket storage class'' [(''from'', LString current), (''to'', LString desired)];
               ret None
             }
         }
   }"

definition logACL :: "('c, 'w) env \<Rightarrow> 'c option \<Rightarrow> Bucket \<Rightarrow> ('c, 'w, error option) lprog" where
  "logACL E c bucket = do {
     let desired = bucketACL (sdk E) bucket;
     r \<leftarrow> silent (obsCall c (RGetBucketAcl (bucketName bucket)) (apiGetBucketAcl (obs E) c (bucketName bucket)));
     case r of
       Inl err \<Rightarrow> ret (Some (wrapf ''read bucket acl: '' err))
     | Inr current \<Rightarrow>
         if flattenObsBucketCannedACL (sdk E) current = Some desired then ret None
         else do {
           w \<leftarrow> silent (obsCall c (RSetBucketAcl (bucketName bucket) desired)
                 (apiSetBucketAcl (obs E) c (bucketName bucket) desired));
           case w of
             Inl err \<Rightarrow> ret (Some (wrapf ''set bucket acl: '' err))
           | Inr _ \<Rightarrow> do {
               info ''Updated bucket ACL'' ((''to'', LString desired) #
                 (case flattenObsBucketCannedACL (sdk E) current of
                    Some currentACL \<Rightarrow> [(''from'', LString currentACL)]
                  | None \<Rightarrow> []));
               ret None
             }
         }
   }"

definition logVersioning :: "('c, 'w) env \<Rightarrow> 'c option \<Rightarrow> Bucket \<Rightarrow> ('c, 'w, error option) lprog" where
  "logVersioning E c bucket = do {
     let desired = (if specVersioning (bSpec bucket) then VersioningStatusEnabled (sdk E)
                    else VersioningStatusSuspended (sdk E));
     r \<leftarrow> silent (obsCall c (RGetBucketVersioning (bucketName bucket))
           (apiGetBucketVersioning (obs E) c (bucketName bucket)));
     case r of
       Inl err \<Rightarrow> ret (Some (wrapf ''read bucket versioning: '' err))
     | Inr current \<Rightarrow>
         if current = desired then ret None
         else do {
           w \<leftarrow> silent (obsCall c (RSetBucketVersioning (bucketName bucket) desired)
                 (apiSetBucketVersioning (obs E) c (bucketName bucket) desired));
           case w of
             Inl err \<Rightarrow> ret (Some (wrapf ''set bucket versioning: '' err))
           | Inr _ \<Rightarrow> do {
               info ''Updated bucket versioning'' [(''from'', LString current), (''to'', LString desired)];
               ret None
             }
         }
   }"

definition logTags :: "('c, 'w) env \<Rightarrow> 'c option \<Rightarrow> Bucket \<Rightarrow> ('c, 'w, error option) lprog" where
  "logTags E c bucket = do {
     let desired = desiredTags bucket;
     r \<leftarrow> silent (bucketTags E c (bucketName bucket));
     case r of
       Inl err \<Rightarrow> ret (Some err)
     | Inr current \<Rightarrow>
         if mapsEqual current desired then ret None
         else if desired = [] then do {
           w \<leftarrow> silent (obsCall c (RDeleteBucketTagging (bucketName bucket))
                 (apiDeleteBucketTagging (obs E) c (bucketName bucket)));
           case w of
             Inl err \<Rightarrow>
               if \<not> isBucketCode err obsNoSuchTagSetCode \<and> \<not> isBucketNotFound err
               then ret (Some (wrapf ''delete bucket tags: '' err))
               else do { info ''Cleared bucket tags'' []; ret None }
           | Inr _ \<Rightarrow> do { info ''Cleared bucket tags'' []; ret None }
         }
         else do {
           w \<leftarrow> silent (obsCall c (RSetBucketTagging (bucketName bucket) (tagsFromMap desired))
                 (apiSetBucketTagging (obs E) c (bucketName bucket) (tagsFromMap desired)));
           case w of
             Inl err \<Rightarrow> ret (Some (wrapf ''set bucket tags: '' err))
           | Inr _ \<Rightarrow> do {
               info ''Updated bucket tags'' [(''tagCount'', LInt (int (length desired)))];
               ret None
             }
         }
   }"

definition logLogging :: "('c, 'w) env \<Rightarrow> 'c option \<Rightarrow> Bucket \<Rightarrow> ('c, 'w, error option) lprog" where
  "logLogging E c bucket = do {
     r \<leftarrow> silent (obsCall c (RGetBucketLogging (bucketName bucket))
           (apiGetBucketLogging (obs E) c (bucketName bucket)));
     case r of
       Inl err \<Rightarrow> ret (Some (wrapf ''read bucket logging: '' err))
     | Inr current \<Rightarrow> do {
         let desired = loggingInput bucket;
         if loggingMatches current (sblStatus desired) then ret None
         else do {
           w \<leftarrow> silent (obsCall c (RSetBucketLogging desired) (apiSetBucketLogging (obs E) c desired));
           case w of
             Inl err \<Rightarrow> ret (Some (wrapf ''set bucket logging: '' err))
           | Inr _ \<Rightarrow> do {
               info ''Updated bucket logging''
                 [(''enabled'', LBool (blsTargetBucket (sblStatus desired) \<noteq> [])),
                  (''targetBucket'', LString (blsTargetBucket (sblStatus desired))),
                  (''targetPrefix'', LString (blsTargetPrefix (sblStatus desired)))];
               ret None
             }
         }
       }
   }"

definition logEncryption :: "('c, 'w) env \<Rightarrow> 'c option \<Rightarrow> Bucket \<Rightarrow> ('c, 'w, error option) lprog" where
  "logEncryption E c bucket = do {
     r \<leftarrow> silent (obsCall c (RGetBucketEncryption (bucketName bucket))
           (apiGetBucketEncryption (obs E) c (bucketName bucket)));
     case (case r of
             Inl err \<Rightarrow> if \<not> encryptionReadTolerated err
                       then Inl (wrapf ''read bucket encryption: '' err) else Inr None
           | Inr cur \<Rightarrow> Inr cur) of
       Inl err \<Rightarrow> ret (Some err)
     | Inr current \<Rightarrow>
         (case specServerSideEncryption (bSpec bucket) of
            None \<Rightarrow>
              if current = None then ret None
              else do {
                w \<leftarrow> silent (obsCall c (RDeleteBucketEncryption (bucketName bucket))
                      (apiDeleteBucketEncryption (obs E) c (bucketName bucket)));
                case w of
                  Inl err \<Rightarrow>
                    if \<not> isBucketCode err obsNoSuchEncryptionConfigCode \<and> \<not> isBucketNotFound err
                    then ret (Some (wrapf ''delete bucket encryption: '' err))
                    else do { info ''Cleared bucket encryption'' []; ret None }
                | Inr _ \<Rightarrow> do { info ''Cleared bucket encryption'' []; ret None }
              }
          | Some spec \<Rightarrow> do {
              let desired = encryptionConfig spec;
              if encryptionMatches current desired then ret None
              else do {
                w \<leftarrow> silent (obsCall c (RSetBucketEncryption (bucketName bucket) desired)
                      (apiSetBucketEncryption (obs E) c (bucketName bucket) desired));
                case w of
                  Inl err \<Rightarrow> ret (Some (wrapf ''set bucket encryption: '' err))
                | Inr _ \<Rightarrow> do {
                    info ''Updated bucket encryption''
                      [(''kmsKeyIDSet'', LBool (encKMSMasterKeyID desired \<noteq> [])),
                       (''kmsProjectIDSet'', LBool (encProjectID desired \<noteq> []))];
                    ret None
                  }
              }
            })
   }"

definition logUpdate :: "('c, 'w) env \<Rightarrow> 'c option \<Rightarrow> Bucket \<Rightarrow> ('c, 'w, error option) lprog" where
  "logUpdate E c bucket = runSteps
     [logStorageClass E c bucket, logACL E c bucket, logVersioning E c bucket, logTags E c bucket,
      logLogging E c bucket, logEncryption E c bucket]"

lemmas logStepDefs = logStorageClass_def logACL_def logVersioning_def logTags_def logLogging_def logEncryption_def

lemma erases_steps:
  "erases (logStorageClass E c b) (reconcileBucketStorageClass E c b)" "erases (logACL E c b) (reconcileBucketACL E c b)"
  "erases (logVersioning E c b) (reconcileBucketVersioning E c b)" "erases (logTags E c b) (reconcileBucketTags E c b)"
  "erases (logLogging E c b) (reconcileBucketLogging E c b)" "erases (logEncryption E c b) (reconcileBucketEncryption E c b)"
  unfolding logStepDefs reconcileBucketStorageClass_def reconcileBucketACL_def reconcileBucketVersioning_def
    reconcileBucketTags_def reconcileBucketLogging_def reconcileBucketEncryption_def Let_def
  by (intro erases_intros)+

lemma erases_runSteps:
  "list_all2 erases lms ms \<Longrightarrow> erases (runSteps lms) (runSteps ms)"
  by (induction rule: list_all2_induct) (auto intro!: erases_bind erases_ret erases_case_option)

lemma erases_update [erases_intros]: "erases (logUpdate E c b) (update E c b)"
  unfolding logUpdate_def update_def updateSteps_def
  by (rule erases_runSteps) (simp add: erases_steps)


section \<open>The Bucket controller with its log\<close>

definition logCreate :: "('c, 'w) env \<Rightarrow> 'c option \<Rightarrow> Bucket \<Rightarrow> string \<Rightarrow> ('c, 'w, error option) lprog" where
  "logCreate E c bucket region = do {
     let input = createInput (sdk E) bucket region;
     r \<leftarrow> silent (obsCall c (RCreateBucket input) (apiCreateBucket (obs E) c input));
     case r of
       Inl err \<Rightarrow>
         if isCreateBucketConflict err
         then ret (Some (WrapErr (sentinelText ErrBucketAlreadyExists @ '': create bucket '' @
                bucketName bucket @ '': '' @ errText err) (Sentinel ErrBucketAlreadyExists)))
         else ret (Some (wrapf (''create bucket '' @ bucketName bucket @ '': '') err))
     | Inr _ \<Rightarrow> do {
         info ''Created OBS bucket''
           ([(''region'', LString region), (''storageClass'', LString (cbStorageClass input)),
             (''acl'', LString (cbACL input)), (''parallelFS'', LBool (cbIsFSFileInterface input))] @
            (if cbEpid input \<noteq> [] then [(''enterpriseProjectID'', LString (cbEpid input))] else []));
         ret None
       }
   }"

fun logDeleteAll :: "nat \<Rightarrow> ('c, 'w) env \<Rightarrow> 'c option \<Rightarrow> string \<Rightarrow> ('c, 'w, error option option) lprog" where
  "logDeleteAll 0 E c nm = ret None"
| "logDeleteAll (Suc n) E c nm = do {
     ctxErr \<leftarrow> silent (quiet (apiCtxErr (k8s E)));
     case ctxErr of
       Some err \<Rightarrow> ret (Some (Some err))
     | None \<Rightarrow> do {
         r \<leftarrow> silent (obsCall c (RListVersions nm) (apiListVersions (obs E) c nm));
         case r of
           Inl err \<Rightarrow> ret (Some (Some (wrapf ''list bucket object versions: '' err)))
         | Inr output \<Rightarrow> do {
             let objects = objectsToDelete output;
             if objects = [] then ret (Some None)
             else do {
               d \<leftarrow> silent (obsCall c (RDeleteObjects nm objects) (apiDeleteObjects (obs E) c nm objects));
               case d of
                 Inl err \<Rightarrow> ret (Some (Some (wrapf ''delete bucket object versions: '' err)))
               | Inr deleteOutput \<Rightarrow>
                   if doErrors deleteOutput \<noteq> [] then
                     ret (Some (Some (LeafErr (''delete bucket object versions: OBS returned '' @
                       SprintInt (int (length (doErrors deleteOutput))) @ '' object deletion errors''))))
                   else do {
                     info ''Deleted OBS object versions'' [(''objectCount'', LInt (int (length objects)))];
                     if length objects < 1000 \<and> \<not> lvIsTruncated output then ret (Some None)
                     else logDeleteAll n E c nm
                   }
             }
           }
       }
   }"

definition logDelete :: "nat \<Rightarrow> ('c, 'w) env \<Rightarrow> 'c option \<Rightarrow> Bucket \<Rightarrow> ('c, 'w, error option option) lprog" where
  "logDelete n E c bucket = do {
     let nm = bucketName bucket;
     let deleted = do {
       info ''Deleted OBS bucket'' [(''forceDestroy'', LBool (specForceDestroy (bSpec bucket)))];
       ret (Some None)
     };
     r \<leftarrow> silent (obsCall c (RDeleteBucket nm) (apiDeleteBucket (obs E) c nm));
     case r of
       Inr _ \<Rightarrow> deleted
     | Inl err \<Rightarrow>
         if isBucketNotFound err then ret (Some None)
         else if isBucketNotEmpty err \<and> specForceDestroy (bSpec bucket) then do {
           d \<leftarrow> logDeleteAll n E c nm;
           case d of
             None \<Rightarrow> ret None
           | Some (Some destroyErr) \<Rightarrow> ret (Some (Some destroyErr))
           | Some None \<Rightarrow> do {
               r2 \<leftarrow> silent (obsCall c (RDeleteBucket nm) (apiDeleteBucket (obs E) c nm));
               case r2 of
                 Inr _ \<Rightarrow> deleted
               | Inl err2 \<Rightarrow> ret (Some (Some (wrapf (''delete bucket '' @ nm @ '': '') err2)))
             }
         }
         else ret (Some (Some (wrapf (''delete bucket '' @ nm @ '': '') err)))
   }"

definition logBucketOperationFailure :: "k8s_lib \<Rightarrow> Bucket \<Rightarrow> string \<Rightarrow> error \<Rightarrow> ('c, 'w, unit) lprog" where
  "logBucketOperationFailure L bucket operation err =
     (let condition = bucketReadyStatusCondition L bucket (Some err)
      in info ''OBS bucket operation failed''
           [(''operation'', LString operation), (''reason'', LString (cReason condition)),
            (''statusMessage'', LString (cMessage condition)), (''error'', LString (errText err))])"

definition logDeletion :: "nat \<Rightarrow> ('c, 'w) env \<Rightarrow> Bucket \<Rightarrow> 'c ResolvedClient \<Rightarrow> bucketObservation \<Rightarrow>
    ('c, 'w, error option option) lprog" where
  "logDeletion n E bucket resolved observation = do {
     d \<leftarrow> (if obExists observation then logDelete n E (rcOBS resolved) bucket else ret (Some None));
     case d of
       None \<Rightarrow> ret None
     | Some (Some err) \<Rightarrow>
         if isBucketNotEmpty err \<and> \<not> specForceDestroy (bSpec bucket)
         then do {
           let condition = bucketReadyStatusCondition (lib E) bucket (Some err);
           info ''OBS bucket is not empty'' [(''reason'', LString (cReason condition)),
             (''forceDestroy'', LBool (specForceDestroy (bSpec bucket))), (''error'', LString (errText err))];
           finish (silent (updateBucketStatus E bucket (Some resolved) condition None))
         }
         else finish (silent (patchStatus E bucket (Some resolved) (Some err) None))
     | Some None \<Rightarrow> do {
         (_, e) \<leftarrow> silent (patchFinalizer E bucket (\<lambda>fs. RemoveFinalizer (lib E) fs bucketFinalizer));
         case e of
           Some err \<Rightarrow> ret (Some (Some err))
         | None \<Rightarrow> do { info ''Removed bucket finalizer'' []; ret (Some None) }
       }
   }"

definition logClaim :: "('c, 'w) env \<Rightarrow> Bucket \<Rightarrow> 'c ResolvedClient \<Rightarrow> bucketObservation \<Rightarrow>
    ('c, 'w, error option option) lprog" where
  "logClaim E bucket resolved observation =
     (if obExists observation
      then do {
        let condition = bucketReadyStatusCondition (lib E) bucket (Some (unmanagedError bucket));
        info ''OBS bucket already exists and is unmanaged''
          [(''reason'', LString (cReason condition)), (''error'', LString (errText (unmanagedError bucket)))];
        finish (silent (patchStatus E bucket (Some resolved) (Some (unmanagedError bucket)) None))
      }
      else do {
        (_, e) \<leftarrow> silent (patchFinalizer E bucket (\<lambda>fs. AddFinalizer (lib E) fs bucketFinalizer));
        case e of
          Some err \<Rightarrow> ret (Some (Some err))
        | None \<Rightarrow> do { info ''Added bucket finalizer'' []; ret (Some None) }
      })"

definition logReconcileUpdate :: "('c, 'w) env \<Rightarrow> Bucket \<Rightarrow> 'c ResolvedClient \<Rightarrow> bucketObservation \<Rightarrow>
    ('c, 'w, error option option) lprog" where
  "logReconcileUpdate E bucket resolved observation = do {
     u \<leftarrow> logUpdate E (rcOBS resolved) bucket;
     case u of
       Some err \<Rightarrow> do {
         logBucketOperationFailure (lib E) bucket ''updateBucket'' err;
         finish (silent (patchStatus E bucket (Some resolved) (Some err) (obMetadata observation)))
       }
     | None \<Rightarrow> do {
         o2 \<leftarrow> silent (observe E (rcOBS resolved) bucket);
         case o2 of
           Inl err \<Rightarrow> finish (silent (patchStatus E bucket (Some resolved) (Some err) None))
         | Inr observation2 \<Rightarrow>
             finish (silent (patchStatus E bucket (Some resolved) None (obMetadata observation2)))
       }
   }"

definition logCreateError :: "('c, 'w) env \<Rightarrow> Bucket \<Rightarrow> 'c ResolvedClient \<Rightarrow> error \<Rightarrow>
    ('c, 'w, error option option) lprog" where
  "logCreateError E bucket resolved err = do {
     logBucketOperationFailure (lib E) bucket
       (if 0 < stObservedGeneration (bStatus bucket) then ''recreateBucket'' else ''createBucket'') err;
     if errorsIs err ErrBucketAlreadyExists then do {
       (bucket', removeErr) \<leftarrow> silent (patchFinalizer E bucket (\<lambda>fs. RemoveFinalizer (lib E) fs bucketFinalizer));
       let err' = (case removeErr of
                     None \<Rightarrow> err
                   | Some x \<Rightarrow> JoinErr [err, wrapf ''remove finalizer after bucket create conflict: '' x]);
       _ \<leftarrow> (case removeErr of
              None \<Rightarrow> info ''Removed bucket finalizer after create conflict'' []
            | Some _ \<Rightarrow> ret ());
       finish (silent (patchStatus E bucket' (Some resolved) (Some err') None))
     }
     else finish (silent (patchStatus E bucket (Some resolved) (Some err) None))
   }"

definition logOwned :: "('c, 'w) env \<Rightarrow> Bucket \<Rightarrow> 'c ResolvedClient \<Rightarrow> bucketObservation \<Rightarrow>
    ('c, 'w, error option option) lprog" where
  "logOwned E bucket resolved observation =
     (if \<not> obExists observation then do {
        e \<leftarrow> logCreate E (rcOBS resolved) bucket (rcRegion resolved);
        case e of
          Some err \<Rightarrow> logCreateError E bucket resolved err
        | None \<Rightarrow> logReconcileUpdate E bucket resolved observation
      }
      else logReconcileUpdate E bucket resolved observation)"

definition logBody :: "nat \<Rightarrow> ('c, 'w) env \<Rightarrow> ('c, 'w) ProviderResolver option \<Rightarrow> Bucket \<Rightarrow>
    ('c, 'w, error option option) lprog" where
  "logBody n E R bucket =
     (if deleting bucket \<and> \<not> hasFinalizer (lib E) bucket then ret (Some None)
      else do {
        res \<leftarrow> silent (resolveBucketClient E R bucket);
        case res of
          Inl err \<Rightarrow> do {
            let condition = bucketReadyStatusCondition (lib E) bucket (Some err);
            info ''Bucket provider not ready'' [(''reason'', LString (cReason condition)), (''error'', LString (errText err))];
            finish (silent (patchStatus E bucket None (Some err) None))
          }
        | Inr resolved \<Rightarrow> do {
            o1 \<leftarrow> silent (observe E (rcOBS resolved) bucket);
            case o1 of
              Inl err \<Rightarrow> finish (silent (patchStatus E bucket (Some resolved) (Some err) None))
            | Inr observation \<Rightarrow>
                if deleting bucket then logDeletion n E bucket resolved observation
                else if \<not> hasFinalizer (lib E) bucket then logClaim E bucket resolved observation
                else logOwned E bucket resolved observation
          }
      })"

definition logReconcile :: "nat \<Rightarrow> ('c, 'w) env \<Rightarrow> ('c, 'w) ProviderResolver option \<Rightarrow> NamespacedName \<Rightarrow>
    ('c, 'w, error option option) lprog" where
  "logReconcile n E R req = do {
     r \<leftarrow> silent (call (apiGetBucket (k8s E) req) (GetBucketEv req));
     case r of
       Inl err \<Rightarrow> ret (Some (if IsNotFound (lib E) err then None else Some err))
     | Inr bucket \<Rightarrow> logBody n E R bucket
   }"

section \<open>Erasure\<close>

lemma erases_create [erases_intros]: "erases (logCreate E c b region) (create E c b region)"
  unfolding logCreate_def create_def Let_def by (intro erases_intros)

lemma erases_deleteAll [erases_intros]: "erases (logDeleteAll n E c nm) (deleteAllBucketObjects n E c nm)"
proof (induction n)
  case (Suc n)
  show ?case unfolding logDeleteAll.simps deleteAllBucketObjects.simps Let_def by (intro erases_intros Suc)
qed (simp add: erases_ret)

lemma erases_delete [erases_intros]: "erases (logDelete n E c b) (BucketLifecycle.delete n E c b)"
  unfolding logDelete_def BucketLifecycle.delete_def Let_def by (intro erases_intros)

lemma erases_failure [erases_intros]:
  "erases lk k \<Longrightarrow> erases (State_Monad.bind (logBucketOperationFailure L b op err) (\<lambda>_. lk)) k"
  unfolding logBucketOperationFailure_def Let_def by (rule erases_info)

text \<open>After a patch of the finalizer a record is written when it was accepted.\<close>

lemma erases_afterPatch [erases_intros]:
  "erases (case e of Some err \<Rightarrow> ret (Some (Some err)) | None \<Rightarrow> State_Monad.bind (info msg vals) (\<lambda>_. ret (Some None)))
     (ret (Some e))"
  by (cases e) (auto intro: erases_intros)

lemma erases_conflict [erases_intros]:
  assumes "erases lk k"
  shows "erases (State_Monad.bind (case r of None \<Rightarrow> info msg vals | Some x \<Rightarrow> ret ()) (\<lambda>_. lk)) k"
proof (cases r)
  case (Some x)
  have "State_Monad.bind (ret ()) (\<lambda>_. lk) = lk" by (rule state.expand) (simp add: fun_eq_iff)
  with Some assms show ?thesis by simp
qed (simp add: erases_info assms)

lemma erases_phases [erases_intros]:
  "erases (logDeletion n E b resolved ob) (reconcileDeletion n E b resolved ob)"
  "erases (logClaim E b resolved ob) (reconcileClaim E b resolved ob)"
  "erases (logReconcileUpdate E b resolved ob) (reconcileUpdate E b resolved ob)"
  "erases (logCreateError E b resolved err) (reconcileCreateError E b resolved err)"
  unfolding logDeletion_def reconcileDeletion_def logClaim_def reconcileClaim_def logReconcileUpdate_def reconcileUpdate_def
    logCreateError_def reconcileCreateError_def Let_def
  by (intro erases_intros)+

lemma erases_owned [erases_intros]: "erases (logOwned E b resolved ob) (reconcileOwned E b resolved ob)"
  unfolding logOwned_def reconcileOwned_def by (intro erases_intros)

lemma erases_body [erases_intros]: "erases (logBody n E R b) (reconcileBody n E R b)"
  unfolding logBody_def reconcileBody_def Let_def by (intro erases_intros)

lemma erases_Reconcile: "erases (logReconcile n E R req) (Reconcile n E R req)"
  unfolding logReconcile_def Reconcile_def by (intro erases_intros)


section \<open>The other handlers with their log\<close>

text \<open>Resolving and validating, with the resolved client that the log shows.\<close>

definition validateResolved :: "('c, 'w) env \<Rightarrow> ('c, 'w) ProviderResolver \<Rightarrow> ProviderConfig \<Rightarrow>
    ('c, 'w, error option \<times> 'c ResolvedClient option) prog" where
  "validateResolved E R providerConfig = do {
     res \<leftarrow> ResolveProviderConfigObject E R providerConfig;
     err \<leftarrow> (case res of Inl e \<Rightarrow> ret (Some e) | Inr resolved \<Rightarrow> validateProviderClient E (rcOBS resolved));
     (if err \<noteq> None
      then InvalidateProvider E (Some R) (Namespace (pMeta providerConfig)) (Name (pMeta providerConfig))
      else ret ());
     ret (err, (case res of Inl _ \<Rightarrow> None | Inr resolved \<Rightarrow> Some resolved))
   }"

definition logReconcileProviderConfig :: "('c, 'w) env \<Rightarrow> ('c, 'w) ProviderResolver option \<Rightarrow> ProviderConfig \<Rightarrow>
    ('c, 'w, error option) lprog" where
  "logReconcileProviderConfig E R providerConfig = do {
     (err, resolved) \<leftarrow> silent
       (case R of
          Some resolver \<Rightarrow> validateResolved E resolver providerConfig
        | None \<Rightarrow> withOwnCache E (validateResolved E (NewProviderResolver E []) providerConfig));
     let condition = providerConfigReadyCondition (lib E) providerConfig err;
     let providerRevision = (case resolved of None \<Rightarrow> [] | Some r \<Rightarrow> rcProviderRevision r);
     _ \<leftarrow> (case err of
            Some e \<Rightarrow> info ''ProviderConfig is not ready'' [(''reason'', LString (cReason condition)), (''error'', LString (errText e))]
          | None \<Rightarrow>
              (case resolved of
                 None \<Rightarrow> ret ()
               | Some r \<Rightarrow> info ''ProviderConfig validated''
                   [(''region'', LString (rcRegion r)), (''endpoint'', LString (rcEndpoint r)),
                    (''fromCache'', LBool (rcFromCache r)), (''providerRevision'', LString providerRevision)]));
     silent (updateProviderConfigStatus E providerConfig condition providerRevision)
   }"

definition logProviderReconcile :: "('c, 'w) env \<Rightarrow> ('c, 'w) ProviderResolver option \<Rightarrow> NamespacedName \<Rightarrow>
    ('c, 'w, error option) lprog" where
  "logProviderReconcile E R req = do {
     r \<leftarrow> silent (call (apiGetProviderConfig (k8s E) req) (GetProviderConfigEv req));
     case r of
       Inl err \<Rightarrow>
         if IsNotFound (lib E) err then do {
           _ \<leftarrow> silent (InvalidateProvider E R (nnNamespace req) (nnName req));
           _ \<leftarrow> (case R of
                  None \<Rightarrow> ret ()
                | Some _ \<Rightarrow> info ''ProviderConfig deleted; invalidated provider cache'' []);
           ret None
         }
         else ret (Some err)
     | Inr providerConfig \<Rightarrow> logReconcileProviderConfig E R providerConfig
   }"

definition logBucketsForProviderConfig :: "('c, 'w) env \<Rightarrow> NamespacedName \<Rightarrow> ('c, 'w, NamespacedName list) lprog" where
  "logBucketsForProviderConfig E obj = do {
     r \<leftarrow> silent (call (apiListBucketResources (k8s E) (nnNamespace obj) bucketProviderConfigRefIndex (nnName obj))
           (\<lambda>_. ListBucketsEv (nnNamespace obj) bucketProviderConfigRefIndex (nnName obj)));
     case r of
       Inl err \<Rightarrow> do {
         logFailure err ''Failed to list Buckets for ProviderConfig''
           [(''name'', LString (nnName obj)), (''namespace'', LString (nnNamespace obj))];
         ret []
       }
     | Inr items \<Rightarrow> ret (map (\<lambda>b. \<lparr>nnNamespace = Namespace (bMeta b), nnName = Name (bMeta b)\<rparr>) items)
   }"

definition logProviderConfigsForSecret :: "('c, 'w) env \<Rightarrow> NamespacedName \<Rightarrow> ('c, 'w, NamespacedName list) lprog" where
  "logProviderConfigsForSecret E obj = do {
     r \<leftarrow> silent (call (apiListProviderConfigs (k8s E) (nnNamespace obj) providerConfigCredentialsSecretIndex (nnName obj))
           (\<lambda>_. ListProviderConfigsEv (nnNamespace obj) providerConfigCredentialsSecretIndex (nnName obj)));
     case r of
       Inl err \<Rightarrow> do {
         logFailure err ''Failed to list ProviderConfigs for Secret''
           [(''name'', LString (nnName obj)), (''namespace'', LString (nnNamespace obj))];
         ret []
       }
     | Inr items \<Rightarrow> ret (map (\<lambda>p. \<lparr>nnNamespace = Namespace (pMeta p), nnName = Name (pMeta p)\<rparr>) items)
   }"

lemma bind_ret_run: "run_state (State_Monad.bind m (\<lambda>x. ret (f x))) s = (case run_state m s of (x, t) \<Rightarrow> (f x, t))"
  by (simp split: prod.splits)

definition publish :: "error option \<times> 'c ResolvedClient option \<Rightarrow> error option \<times> string" where
  "publish r = (fst r, case snd r of None \<Rightarrow> [] | Some resolved \<Rightarrow> rcProviderRevision resolved)"

lemma validateProvider_resolved:
  "validateProvider E R pc = State_Monad.bind (validateResolved E R pc) (\<lambda>r. ret (publish r))"
  by (rule state.expand)
     (auto simp: fun_eq_iff validateProvider_def validateResolved_def publish_def split: prod.splits sum.splits)

lemma withOwnCache_ret:
  "withOwnCache E (State_Monad.bind m (\<lambda>r. ret (f r))) = State_Monad.bind (withOwnCache E m) (\<lambda>r. ret (f r))"
  by (rule state.expand) (auto simp: fun_eq_iff withOwnCache_def run_getCache run_setCache split: prod.splits)

lemma reconcileProviderConfig_resolved:
  "reconcileProviderConfig E R pc = State_Monad.bind
     (case R of Some r \<Rightarrow> validateResolved E r pc | None \<Rightarrow> withOwnCache E (validateResolved E (NewProviderResolver E []) pc))
     (\<lambda>r. updateProviderConfigStatus E pc (providerConfigReadyCondition (lib E) pc (fst r)) (snd (publish r)))"
  by (rule state.expand)
     (auto simp: fun_eq_iff reconcileProviderConfig_def validateProvider_resolved withOwnCache_ret publish_def
        split: option.splits prod.splits)

lemma erases_unit [erases_intros]:
  assumes "erases lm (ret ())" "erases lk k"
  shows "erases (State_Monad.bind lm (\<lambda>_. lk)) k"
proof -
  have "State_Monad.bind (ret ()) (\<lambda>_. k) = k" by (rule state.expand) (simp add: fun_eq_iff)
  with erases_bind [OF assms(1), of "\<lambda>_. lk" "\<lambda>_. k"] assms(2) show ?thesis by simp
qed

lemma erases_note: "erases (info msg vals) (ret ())" "erases (logFailure err msg vals) (ret ())"
  by (auto simp: erases_def info_def logFailure_def)

lemma erases_provider: "erases (logReconcileProviderConfig E R pc) (reconcileProviderConfig E R pc)"
proof -
  have "erases (case err of
       Some e \<Rightarrow> info m1 (v1 e)
     | None \<Rightarrow> (case resolved of None \<Rightarrow> ret () | Some r \<Rightarrow> info m2 (v2 r))) (ret ())"
    for err :: "error option" and resolved :: "'a ResolvedClient option" and m1 v1 m2 v2
    by (auto intro: erases_note erases_ret split: option.splits)
  then show ?thesis
    unfolding logReconcileProviderConfig_def reconcileProviderConfig_resolved Let_def
    by (intro erases_bind erases_silent)
       (auto intro!: erases_unit erases_silent simp: publish_def split: prod.splits)
qed

lemma erases_ReconcileProviderConfig: "erases (logProviderReconcile E R req) (ReconcileProviderConfig E R req)"
  unfolding logProviderReconcile_def ReconcileProviderConfig_def
  by (intro erases_bind erases_silent erases_case_sum erases_if erases_unit erases_ret erases_provider)
     (auto intro: erases_note erases_ret split: option.splits)

lemma erases_watches:
  "erases (logBucketsForProviderConfig E obj) (bucketsForProviderConfig E obj)"
  "erases (logProviderConfigsForSecret E obj) (providerConfigsForSecret E obj)"
  unfolding logBucketsForProviderConfig_def bucketsForProviderConfig_def logProviderConfigsForSecret_def providerConfigsForSecret_def
  by (intro erases_bind erases_silent; auto intro!: erases_logFailure erases_ret split: sum.splits)+

end
