(* ===== verification/LogRecords.thy ===== *)
theory LogRecords
  imports Logging
begin

text \<open>
  The log as an audit trail: the records of a reconciliation against the changes its trace shows.
\<close>

section \<open>What is recorded\<close>

text \<open>
  \<open>logged lm Q\<close>: a run of \<open>lm\<close> extends the trace and the log, and its result, the new events and the new
  records satisfy \<open>Q\<close>.
\<close>

definition logged :: "('c, 'w, 'a) lprog \<Rightarrow> ('a \<Rightarrow> 'c event list \<Rightarrow> logRecord list \<Rightarrow> bool) \<Rightarrow> bool" where
  "logged lm Q \<longleftrightarrow> (\<forall>s l x t l'. run_state lm (s, l) = (x, (t, l')) \<longrightarrow>
     (\<exists>evs new. stTrace t = stTrace s @ evs \<and> l' = l @ new \<and> Q x evs new))"

named_theorems logged_intros \<open>rules for what programs record\<close>

lemma loggedD: "logged lm Q \<Longrightarrow> run_state lm (s, l) = (x, (t, l')) \<Longrightarrow>
    \<exists>evs new. stTrace t = stTrace s @ evs \<and> l' = l @ new \<and> Q x evs new"
  by (simp add: logged_def)

lemma logged_silent [logged_intros]: "emits m (\<lambda>x evs. Q x evs []) \<Longrightarrow> logged (silent m) Q"
  by (fastforce simp: logged_def silent_def emits_def split: prod.splits)

lemma logged_ret [logged_intros]: "Q x [] [] \<Longrightarrow> logged (ret x) Q"
  by (auto simp: logged_def)

lemma logged_info [logged_intros]: "Q () [] [\<lparr>logErr = None, logMessage = msg, logValues = vals\<rparr>] \<Longrightarrow> logged (info msg vals) Q"
  by (auto simp: logged_def info_def)

lemma logged_bind [logged_intros]:
  assumes "logged lm (\<lambda>x e1 n1. logged (lk x) (\<lambda>y e2 n2. Q y (e1 @ e2) (n1 @ n2)))"
  shows "logged (State_Monad.bind lm lk) Q"
  unfolding logged_def
proof (intro allI impI)
  fix s l y u l''
  assume "run_state (State_Monad.bind lm lk) (s, l) = (y, (u, l''))"
  then obtain x t l' where 1: "run_state lm (s, l) = (x, (t, l'))" and 2: "run_state (lk x) (t, l') = (y, (u, l''))"
    by (auto split: prod.splits)
  from loggedD [OF assms 1] obtain e1 n1 where e1: "stTrace t = stTrace s @ e1" "l' = l @ n1"
    and k: "logged (lk x) (\<lambda>y e2 n2. Q y (e1 @ e2) (n1 @ n2))" by blast
  from loggedD [OF k 2] obtain e2 n2 where "stTrace u = stTrace t @ e2" "l'' = l' @ n2" "Q y (e1 @ e2) (n1 @ n2)" by blast
  with e1 show "\<exists>evs new. stTrace u = stTrace s @ evs \<and> l'' = l @ new \<and> Q y evs new" by auto
qed

lemma logged_if [logged_intros]:
  "(b \<Longrightarrow> logged lm Q) \<Longrightarrow> (\<not> b \<Longrightarrow> logged ln Q) \<Longrightarrow> logged (if b then lm else ln) Q"
  by simp

lemma logged_case_sum [logged_intros]:
  "(\<And>e. r = Inl e \<Longrightarrow> logged (f e) Q) \<Longrightarrow> (\<And>x. r = Inr x \<Longrightarrow> logged (g x) Q) \<Longrightarrow>
   logged (case r of Inl e \<Rightarrow> f e | Inr x \<Rightarrow> g x) Q"
  by (simp split: sum.splits)

lemma logged_case_option [logged_intros]:
  "(r = None \<Longrightarrow> logged f Q) \<Longrightarrow> (\<And>x. r = Some x \<Longrightarrow> logged (g x) Q) \<Longrightarrow>
   logged (case r of None \<Rightarrow> f | Some x \<Rightarrow> g x) Q"
  by (simp split: option.splits)

lemma logged_case_prod [logged_intros]:
  "(\<And>x y. p = (x, y) \<Longrightarrow> logged (f x y) Q) \<Longrightarrow> logged (case p of (x, y) \<Rightarrow> f x y) Q"
  by (simp split: prod.splits)

lemma logged_mono: "logged lm R \<Longrightarrow> (\<And>x evs new. R x evs new \<Longrightarrow> Q x evs new) \<Longrightarrow> logged lm Q"
  unfolding logged_def by meson

text \<open>
  The changes a reconciliation makes, as the trace shows them and as the log reports them. Clearing
  tags or encryption that are gone already counts as done. Deleted object versions are left out: a
  request that deletes some of its objects and reports errors for others is not logged.
\<close>

datatype change = BucketCreated | BucketDeleted | StorageClassSet | AclSet | VersioningSet | TagsSet | TagsCleared |
  LoggingSet | EncryptionSet | EncryptionCleared | FinalizerPatched

fun changeOf :: "'c event \<Rightarrow> change list" where
  "changeOf (ObsEv c (RCreateBucket i) None) = [BucketCreated]"
| "changeOf (ObsEv c (RDeleteBucket nm) None) = [BucketDeleted]"
| "changeOf (ObsEv c (RSetBucketStoragePolicy nm x) None) = [StorageClassSet]"
| "changeOf (ObsEv c (RSetBucketAcl nm x) None) = [AclSet]"
| "changeOf (ObsEv c (RSetBucketVersioning nm x) None) = [VersioningSet]"
| "changeOf (ObsEv c (RSetBucketTagging nm ts) None) = [TagsSet]"
| "changeOf (ObsEv c (RDeleteBucketTagging nm) r) = (if \<forall>e. r = Some e \<longrightarrow> tagsAbsentError e then [TagsCleared] else [])"
| "changeOf (ObsEv c (RSetBucketLogging i) None) = [LoggingSet]"
| "changeOf (ObsEv c (RSetBucketEncryption nm x) None) = [EncryptionSet]"
| "changeOf (ObsEv c (RDeleteBucketEncryption nm) r) =
     (if \<forall>e. r = Some e \<longrightarrow> encryptionAbsentError e then [EncryptionCleared] else [])"
| "changeOf (PatchBucketEv b m None) = [FinalizerPatched]"
| "changeOf e = []"

definition messages :: "(string \<times> change) list" where
  "messages =
     [(''Created OBS bucket'', BucketCreated), (''Deleted OBS bucket'', BucketDeleted),
      (''Updated bucket storage class'', StorageClassSet), (''Updated bucket ACL'', AclSet),
      (''Updated bucket versioning'', VersioningSet), (''Updated bucket tags'', TagsSet),
      (''Cleared bucket tags'', TagsCleared), (''Updated bucket logging'', LoggingSet),
      (''Updated bucket encryption'', EncryptionSet), (''Cleared bucket encryption'', EncryptionCleared),
      (''Added bucket finalizer'', FinalizerPatched), (''Removed bucket finalizer'', FinalizerPatched),
      (''Removed bucket finalizer after create conflict'', FinalizerPatched)]"

definition changesOf :: "'c event list \<Rightarrow> change list" where
  "changesOf evs = concat (map changeOf evs)"

definition recordedChanges :: "logRecord list \<Rightarrow> change list" where
  "recordedChanges ls = concat (map (\<lambda>r. case map_of messages (logMessage r) of None \<Rightarrow> [] | Some c \<Rightarrow> [c]) ls)"

abbreviation audited :: "('c, 'w, 'a) lprog \<Rightarrow> bool" where
  "audited lm \<equiv> logged lm (\<lambda>_ evs new. recordedChanges new = changesOf evs)"

lemma changes_append [simp]:
  "changesOf (xs @ ys) = changesOf xs @ changesOf ys" "recordedChanges (ls @ ms) = recordedChanges ls @ recordedChanges ms"
  "changesOf [] = []" "recordedChanges [] = []" "changesOf (e # es) = changeOf e @ changesOf es"
  by (simp_all add: changesOf_def recordedChanges_def)

lemma audited_bind:
  assumes "audited lm" "\<And>x. audited (lk x)"
  shows "audited (State_Monad.bind lm lk)"
  by (intro logged_bind logged_mono [OF assms(1)] logged_mono [OF assms(2)]) simp

lemma audited_silent: "emits m (\<lambda>_ evs. changesOf evs = []) \<Longrightarrow> audited (silent m)"
  by (intro logged_silent, erule emits_mono) simp

lemma changes_none: "(\<And>e. e \<in> set evs \<Longrightarrow> changeOf e = []) \<Longrightarrow> changesOf evs = []"
  by (simp add: changesOf_def)

lemma changeOf_failed: "changeOf (ObsEv c q (Some e)) = [] \<or> (\<exists>nm. q = RDeleteBucketTagging nm) \<or> (\<exists>nm. q = RDeleteBucketEncryption nm)"
  by (cases q) auto

lemma audited_steps:
  "audited (logStorageClass E c b)" "audited (logACL E c b)" "audited (logVersioning E c b)" "audited (logTags E c b)"
  "audited (logLogging E c b)" "audited (logEncryption E c b)"
proof -
  show "audited (logStorageClass E c b)" unfolding logStorageClass_def Let_def
    by (auto intro!: logged_intros emits_intros simp: recordedChanges_def messages_def split: sum.splits)
  show "audited (logACL E c b)" unfolding logACL_def Let_def
    by (auto intro!: logged_intros emits_intros simp: recordedChanges_def messages_def split: sum.splits)
  show "audited (logVersioning E c b)" unfolding logVersioning_def Let_def
    by (auto intro!: logged_intros emits_intros simp: recordedChanges_def messages_def split: sum.splits)
  show "audited (logTags E c b)" unfolding logTags_def bucketTags_def Let_def
    by (auto intro!: logged_intros emits_intros simp: recordedChanges_def messages_def tagsAbsentError_def split: sum.splits)
  show "audited (logLogging E c b)" unfolding logLogging_def Let_def
    by (auto intro!: logged_intros emits_intros simp: recordedChanges_def messages_def split: sum.splits)
  show "audited (logEncryption E c b)" unfolding logEncryption_def Let_def
    by (auto intro!: logged_intros emits_intros simp: recordedChanges_def messages_def encryptionAbsentError_def
        split: sum.splits option.splits)
qed

lemma audited_runSteps: "(\<And>m. m \<in> set ms \<Longrightarrow> audited m) \<Longrightarrow> audited (runSteps ms)"
  by (induction ms) (auto intro!: audited_bind logged_ret logged_case_option)

lemma audited_update: "audited (logUpdate E c b)"
  unfolding logUpdate_def by (rule audited_runSteps) (auto simp: audited_steps)

lemma audited_create: "audited (logCreate E c b region)"
  unfolding logCreate_def Let_def
  by (auto intro!: logged_intros emits_intros simp: recordedChanges_def messages_def split: sum.splits)

lemma audited_silentObs: "(\<And>r. changeOf (ObsEv c q r) = []) \<Longrightarrow> audited (silent (obsCall c q f))"
  by (intro audited_silent emits_obsCall) simp

lemma audited_info: "map_of messages msg = None \<Longrightarrow> audited (info msg vals)"
  by (intro logged_info) (simp add: recordedChanges_def)

lemma audited_deleteAll: "audited (logDeleteAll n E c nm)"
proof (induction n)
  case (Suc n)
  show ?case unfolding logDeleteAll.simps Let_def
    by (intro audited_bind audited_silentObs audited_info audited_silent emits_quiet logged_case_option logged_case_sum
        logged_if logged_ret Suc) (simp_all add: messages_def)
qed (simp add: logged_ret)

text \<open>A call and the record of its success.\<close>

lemma audited_recorded:
  fixes m :: "('c, 'w, 'x + 'y) prog"
  assumes "emits m (\<lambda>r evs. (\<forall>x. r = Inl x \<longrightarrow> changesOf evs = []) \<and> (\<forall>x. r = Inr x \<longrightarrow> changesOf evs = [ch]))"
    "map_of messages msg = Some ch" "\<And>x. audited (f x)" "audited k"
  shows "audited (State_Monad.bind (silent m) (\<lambda>r. case r of
    Inl x \<Rightarrow> f x | Inr _ \<Rightarrow> State_Monad.bind (info msg vals) (\<lambda>_. k)))"
proof (intro logged_bind logged_silent, rule emits_mono [OF assms(1)], intro logged_case_sum)
  fix r :: "'x + 'y" and evs :: "'c event list" and e
  assume "(\<forall>x. r = Inl x \<longrightarrow> changesOf evs = []) \<and> (\<forall>x. r = Inr x \<longrightarrow> changesOf evs = [ch])" "r = Inl e"
  then show "logged (f e) (\<lambda>_ e2 n2. recordedChanges ([] @ n2) = changesOf (evs @ e2))"
    by (intro logged_mono [OF assms(3)]) simp
next
  fix r :: "'x + 'y" and evs :: "'c event list" and x
  assume "(\<forall>x. r = Inl x \<longrightarrow> changesOf evs = []) \<and> (\<forall>x. r = Inr x \<longrightarrow> changesOf evs = [ch])" "r = Inr x"
  then show "logged (State_Monad.bind (info msg vals) (\<lambda>_. k)) (\<lambda>_ e2 n2. recordedChanges ([] @ n2) = changesOf (evs @ e2))"
    by (intro logged_bind logged_info logged_mono [OF assms(4)]) (simp add: recordedChanges_def assms(2))
qed

lemma audited_delete: "audited (logDelete n E c b)"
proof -
  have "emits (obsCall c (RDeleteBucket nm) (apiDeleteBucket (obs E) c nm))
      (\<lambda>r evs. (\<forall>x. r = Inl x \<longrightarrow> changesOf evs = []) \<and> (\<forall>x. r = Inr x \<longrightarrow> changesOf evs = [BucketDeleted]))" for nm
    by (intro emits_obsCall) auto
  note deleted = audited_recorded [OF this, of "''Deleted OBS bucket''"]
  show ?thesis
    unfolding logDelete_def Let_def
    by (intro deleted audited_bind audited_deleteAll logged_if logged_case_option logged_ret)
       (simp_all add: messages_def)
qed

lemma changesOf_status [simp]: "changeOf (PatchBucketStatusEv b m x) = []"
  by (cases x) simp_all

lemma audited_quiet:
  "audited (silent (patchStatus E b resolved err md))" "audited (silent (updateBucketStatus E b resolved cond md))"
  "audited (silent (observe E c b))" "audited (silent (resolveBucketClient E R b))"
proof -
  show "audited (silent (patchStatus E b resolved err md))"
    by (intro audited_silent emits_mono [OF patchStatus_emits]) auto
  show "audited (silent (updateBucketStatus E b resolved cond md))"
    by (intro audited_silent emits_mono [OF updateBucketStatus_emits]) auto
  show "audited (silent (observe E c b))"
    by (intro audited_silent emits_mono [OF observe_emits]) auto
  have "changeOf e = []" if "resolveEv e" for e :: "'a event"
    using that by (auto simp: resolveEv_def)
  then show "audited (silent (resolveBucketClient E R b))"
    by (intro audited_silent emits_mono [OF resolveBucketClient_emits] changes_none) (auto simp: list_all_iff)
qed

lemma audited_finish: "audited lm \<Longrightarrow> audited (finish lm)"
  unfolding finish_def by (intro audited_bind logged_ret) simp_all

lemma audited_finalizer:
  fixes E :: "('c, 'w) env"
  assumes "\<And>b' x. audited (k b' (Some x))"
    "\<And>b'. logged (k b' None) (\<lambda>_ e2 n2. recordedChanges n2 = FinalizerPatched # changesOf e2)"
  shows "audited (State_Monad.bind (silent (patchFinalizer E b f)) (\<lambda>(b', e). k b' e))"
proof (intro logged_bind logged_silent emits_mono [OF patchFinalizer_emits] logged_case_prod)
  fix r :: "Bucket \<times> error option" and evs :: "'c event list" and b' e
  assume r: "(case r of (b', r) \<Rightarrow> \<lambda>evs. evs = [PatchBucketEv b (b\<lparr>bMeta := (bMeta b)\<lparr>Finalizers := f (Finalizers (bMeta b))\<rparr>\<rparr>) r]) evs" "r = (b', e)"
  then show "logged (k b' e) (\<lambda>_ e2 n2. recordedChanges ([] @ n2) = changesOf (evs @ e2))"
    using assms(1) [of b'] assms(2) [of b'] by (cases e) simp_all
qed

lemma recorded_afterPatch:
  assumes "map_of messages msg = Some FinalizerPatched"
  shows "logged (State_Monad.bind (info msg vals) (\<lambda>_. ret x)) (\<lambda>_ e2 n2. recordedChanges n2 = FinalizerPatched # changesOf e2)"
  by (intro logged_bind logged_info logged_ret) (simp add: recordedChanges_def assms)

lemma audited_failure: "audited (logBucketOperationFailure L b op err)"
  unfolding logBucketOperationFailure_def Let_def by (rule audited_info) (simp add: messages_def)

lemma audited_deletion: "audited (logDeletion n E b resolved ob)"
  unfolding logDeletion_def Let_def
  by (intro audited_bind audited_delete audited_quiet audited_finish audited_info audited_finalizer logged_case_option logged_if logged_ret)
     (auto intro!: recorded_afterPatch logged_ret simp: messages_def)

lemma audited_claim: "audited (logClaim E b resolved ob)"
  unfolding logClaim_def Let_def
  by (intro audited_bind audited_quiet audited_finish audited_info audited_finalizer logged_if)
     (auto intro!: recorded_afterPatch logged_ret simp: messages_def)

lemma audited_reconcileUpdate: "audited (logReconcileUpdate E b resolved ob)"
  unfolding logReconcileUpdate_def
  by (intro audited_bind audited_update audited_quiet audited_finish audited_failure logged_case_option logged_case_sum)

lemma audited_createError: "audited (logCreateError E b resolved err)"
proof -
  have "logged (State_Monad.bind (info ''Removed bucket finalizer after create conflict'' [])
      (\<lambda>_. finish (silent (patchStatus E b' (Some resolved) (Some err') None))))
      (\<lambda>_ e2 n2. recordedChanges n2 = FinalizerPatched # changesOf e2)" for b' err'
    by (intro logged_bind logged_info logged_mono [OF audited_finish [OF audited_quiet(1)]])
       (simp add: recordedChanges_def messages_def)
  then show ?thesis
    unfolding logCreateError_def Let_def
    by (intro audited_bind [OF audited_failure] logged_if audited_finalizer)
       (auto intro!: audited_bind audited_finish audited_quiet logged_ret)
qed

lemma audited_Reconcile: "audited (logReconcile n E R req)"
  unfolding logReconcile_def logBody_def logOwned_def Let_def
  by (intro audited_bind audited_quiet audited_finish audited_info audited_create audited_createError audited_reconcileUpdate
      audited_deletion audited_claim logged_if logged_case_sum logged_case_option logged_ret audited_silent emits_call)
     (simp_all add: messages_def)


end
