(* ===== verification/Spec2Isabelle.thy ===== *)
theory Spec2Isabelle
  imports BucketTheorems Liveness SettingsTheorems ProviderTheorems MemoryTheorems Operator Scheme LogRecords
begin

text \<open>
  A verification of the OBS operator, a Kubernetes operator that manages buckets of the object
  storage service OBS.

  \<^bold>\<open>The program.\<close> A \<open>Bucket\<close> resource describes an OBS bucket, a \<open>ProviderConfig\<close> resource the endpoint,
  the region and the Secret with the credentials of an OBS account. The Bucket controller
  (\<open>internal/controller/bucket_controller.go\<close>) resolves the ProviderConfig of a Bucket to an OBS client,
  observes the OBS bucket, claims and creates it, brings six settings to the spec, and deletes it
  when the Bucket is deleted; a finalizer on the Bucket marks that it owns the OBS bucket. The
  ProviderConfig controller (\<open>internal/controller/providerconfig_controller.go\<close>) validates that a
  ProviderConfig gives a working client. Both share the resolver
  (\<open>internal/provider/provider_resolver.go\<close>) and its cache of clients (\<open>internal/provider/cache.go\<close>), which
  \<open>cmd/main.go\<close> creates. Watches start reconciliations when a ProviderConfig or a Secret changes.

  \<^bold>\<open>The model.\<close> A handler is a program in the state monad over a state with the outside world, the
  shared cache and a trace of events (\<open>World\<close>). The Kubernetes API, the OBS SDK and the functions of
  apimachinery are parameters, the record \<open>env\<close>: an API call is a function of the world to an error or
  a result and a new world, and leaves an event in the trace. So a theorem about the trace holds for
  every behaviour of the services; a theorem about the settings of a bucket names the documented
  behaviour it needs (\<open>obsReads\<close>, \<open>obsWrites\<close>, \<open>versionsLaw\<close>, \<open>setConditionSets\<close>, \<open>setConditionStable\<close>,
  \<open>indexedList\<close>, \<open>sdkDocumented\<close>, \<open>ownershipLaws\<close>, \<open>claimLaws\<close>), and \<open>Simulation\<close> is an environment that has all of it, on which the
  witnesses run. In these theories a resource is a value. A second model, \<open>Memory\<close>, has the structs of
  the resources with the addresses of their pointers, slices and maps in a memory of cells; the
  generated copying functions and the three functions that copy an object before they change it are
  modelled on it and shown to do what the model on values says (\<open>copyLaws\<close> and \<open>memLaws\<close> are what is
  documented of the functions of apimachinery they call). Go errors are a datatype with the trees that \<open>errors.Is\<close> and \<open>errors.As\<close> walk
  (\<open>GoError\<close>), Go maps are association lists with distinct keys (\<open>GoLib\<close>), a nil pointer is \<open>None\<close>.

  \<^bold>\<open>Theories.\<close>
  \<^item> \<open>Prelude\<close>, \<open>GoLib\<close>, \<open>GoError\<close>, \<open>World\<close>: the shared lemmas, the standard library the code uses
    (\<open>strings.TrimSpace\<close>, \<open>strings.Split\<close>, \<open>fmt.Sprint\<close>, \<open>maps.Equal\<close>), errors, and the state, events and
    rules for \<open>emits\<close> (what a program adds to the trace) and \<open>program_keeps\<close> (what it preserves).
  \<^item> \<open>ApiTypes\<close>: the resources of \<open>api/v1alpha1\<close> and the SDK's data. \<open>Admission\<close>: what the API server admits,
    from the markers on these types.
  \<^item> \<open>BucketErrors\<close>: classification of errors and the Ready condition. \<open>BucketAcl\<close>: recognising canned ACLs.
    \<open>BucketSettings\<close>: the six \<open>reconcileBucket...\<close> steps and \<open>update\<close>. \<open>BucketUpdate\<close>: the contract of a step
    (locale \<open>setting_step\<close>, interpreted for all six). \<open>BucketConverge\<close>: an update establishes the spec,
    and does not write when it holds already.
  \<^item> \<open>BucketLifecycle\<close>: \<open>observe\<close>, \<open>create\<close>, \<open>delete\<close> and the loop that empties a bucket. \<open>BucketStatus\<close>: status and
    finalizer patches. \<open>BucketController\<close>: \<open>Reconcile\<close>, split into the phases of the code, with the events
    each phase can emit and the order of claims and releases. \<open>BucketReconcile\<close>: retries, termination,
    the cache during a reconciliation, what Ready means.
  \<^item> \<open>ProviderCache\<close>: the cache, its refinement to a partial map, its interface (locale \<open>keyed_cache\<close>,
    interpreted by the code's critical sections) and the ledger of built and closed clients.
    \<open>ConcurrentCache\<close>: the cache with any number of concurrent callers, as a step relation.
  \<^item> \<open>Sha256\<close>, \<open>ProviderIdentity\<close>: SHA-256 and the hashes that identify credentials and revisions.
    \<open>Endpoint\<close>: the part of \<open>net/url\<close> that \<open>ResolveEndpoint\<close> uses, and \<open>ResolveEndpoint\<close>.
    \<open>ProviderResolver\<close>: the resolver. \<open>ProviderConfigController\<close>: the ProviderConfig controller.
  \<^item> \<open>Progress\<close>: what a reconciliation achieves when no request fails. \<open>Adoption\<close>: a bucket that
    somebody else creates between the claim and the creation. \<open>Ownership\<close>: what the finalizer means
    for the OBS bucket, over histories of reconciliations and changes from outside. \<open>Liveness\<close>: what
    several reconciliations in a row achieve.
  \<^item> \<open>Memory\<close>: structs, cells, loads and stores (locale \<open>cell_kind\<close>, interpreted for every type of cell).
    \<open>Copying\<close>: the contract of a deep copy (locales \<open>mem_view\<close> and \<open>deep_copy\<close>) and that it lifts over
    pointers, slices, maps and structs. \<open>DeepCopy\<close>: \<open>zz_generated.deepcopy.go\<close>. \<open>DeepCopyTheorems\<close>: its
    properties. \<open>MemoryStatus\<close>, \<open>MemoryTheorems\<close>: \<open>updateBucketStatus\<close>, \<open>patchFinalizer\<close> and
    \<open>updateProviderConfigStatus\<close> on memory.
  \<^item> \<open>Watches\<close>: event filter, indexers and mapping functions (locale \<open>ref_watch\<close>, interpreted for both).
    \<open>Flags\<close>: the package \<open>flag\<close> and the flags of \<open>main\<close>. \<open>Manager\<close>: \<open>main\<close>, with its exit codes, and
    \<open>SetupWithManager\<close>. \<open>Scheme\<close>: the \<open>init\<close> functions and the group version.
    \<open>Operator\<close>: runs of the whole operator.
  \<^item> \<open>Logging\<close>: the handlers with their log statements, in the order of the code, and that erasing
    these gives the handlers of the other theories. \<open>LogRecords\<close>: which changes the log records.
  \<^item> \<open>Simulation\<close>: the concrete environment. \<open>BucketTheorems\<close>, \<open>SettingsTheorems\<close>, \<open>ProviderTheorems\<close>,
    \<open>Ownership\<close>, \<open>Liveness\<close>, \<open>DeepCopyTheorems\<close>, \<open>MemoryTheorems\<close>, \<open>Flags\<close>, \<open>Manager\<close>, \<open>LogRecords\<close> and this theory: the properties,
    numbered C1 to C40.

  \<^bold>\<open>What is shown.\<close> Safety of the requests of one reconciliation and of the whole run; ownership: a
  bucket that exists before the claim is not adopted (one created after it is, \<open>Adoption\<close>) and the finalizer is only given up when the bucket is gone or
  foreign; Ready implies that the settings are those of the spec; idempotence; that reconciliations
  return and why they are retried; progress: a reconciliation whose requests do not fail claims the
  bucket, makes it ready with the settings of the spec, or gives up the finalizer, and so two
  reconciliations make a new Bucket ready and the deletion of a Bucket completes; that no OBS bucket
  a Bucket owns is left behind when the Bucket goes; that deletion and emptying do what they report; the refinement
  of the cache, that no client leaks or is closed twice, also with concurrent callers, and that a
  resolved client was built for the current inputs; the shape of endpoints; identity of credentials
  and revisions up to SHA-256 collisions; what the watches enqueue; the start-up sequence and how
  the command line is read; that the log reports the changes that were made; that the
  generated copies share nothing with their source, so that what is compared and patched after a
  change in place is the state before and after the change.

  \<^bold>\<open>Fuel.\<close> The loop of \<open>deleteAllBucketObjects\<close> can run as long as other clients add objects. Its model
  takes a bound on the number of rounds and returns \<open>None\<close> when it is used up; \<open>Reconcile\<close> hands the bound
  down. More fuel never changes a result (\<open>Reconcile_fuel\<close>), and when nobody adds objects a bound above
  the number of object versions is enough (C17), so a reconciliation returns (C7).

  \<^bold>\<open>Not modelled.\<close> The messages of \<open>setupLog\<close> in \<open>main\<close>, the logger and its options (the flags they bind
  are a parameter of \<open>Flags\<close>), the signal handler, RBAC markers, the scheme and its builder below the calls of the \<open>init\<close> functions, the capacity of slices,
  metadata fields the operator never reads, the manager of controller-runtime with its queues and
  rate limits, HTTP and the SDK below its calls, the text of URL parse errors and IPv6 literals in
  endpoints (parameters of \<open>url_lib\<close>). The reconciliations of a run are serialised in \<open>Operator\<close>; the
  interleaving of their cache operations is the subject of \<open>ConcurrentCache\<close>.
\<close>

section \<open>The operator as a whole\<close>

text \<open>
  C1. During the whole run of the operator, with reconciliations of both controllers in any order
  and any changes from outside in between, every OBS request for a bucket comes after a read of a
  Bucket that allows it: its name is the name of the OBS bucket; to create or change the bucket the
  Bucket carries the finalizer and is not being deleted; to delete it, the Bucket carries the
  finalizer and is being deleted; to touch objects it also sets forceDestroy.
\<close>

theorem operator_requests:
  assumes "operatorRun E R s" "q \<noteq> RListBuckets" "i < length (stTrace s)" "stTrace s ! i = ObsEv c q x"
  shows "\<exists>j < i. \<exists>req b. stTrace s ! j = GetBucketEv req (Inr b) \<and> reqAllowed (lib E) b q"
proof -
  have "guarded (readAllowing (lib E) q) (sends q) (stTrace s)" by (rule operator_guarded [OF assms(1,2)])
  moreover have "sends q (stTrace s ! i)" by (simp add: assms(4) sends_def)
  ultimately have "\<exists>j < i. readAllowing (lib E) q (stTrace s ! j)" using assms(3) unfolding guarded_iff by blast
  then show ?thesis by (auto simp: readAllowing_def)
qed

theorem operator_requests_witness:
  "\<exists>t i c x. operatorRun simEnv simResolver t \<and> stTrace t ! i = ObsEv c (RGetBucketMetadata ''data'') x \<and>
     (\<exists>j < i. \<exists>req b. stTrace t ! j = GetBucketEv req (Inr b) \<and> reqAllowed simLib b (RGetBucketMetadata ''data''))"
proof -
  obtain t before e where t: "run_state (Reconcile 0 simEnv (Some simResolver) sampleReq) (sampleState laggingWorld) = (Some None, t)"
    "stTrace t = before @ [ObsEv (Some 1) (RGetBucketMetadata ''data'') (Some (simError 404 ''NoSuchBucket'')), e]"
    using sim_lagging by blast
  have "operatorRun simEnv simResolver (sampleState laggingWorld)"
    unfolding sampleState_def by (rule operatorRun.start)
  from operatorRun.bucket [OF this t(1)] have run: "operatorRun simEnv simResolver t" .
  let ?i = "length before"
  have i: "?i < length (stTrace t)"
    "stTrace t ! ?i = ObsEv (Some 1) (RGetBucketMetadata ''data'') (Some (simError 404 ''NoSuchBucket''))"
    by (simp_all add: t(2))
  have "\<exists>j < ?i. \<exists>req b. stTrace t ! j = GetBucketEv req (Inr b) \<and>
      reqAllowed (lib simEnv) b (RGetBucketMetadata ''data'')"
    by (rule operator_requests [OF run _ i]) simp
  then have "\<exists>j < ?i. \<exists>req b. stTrace t ! j = GetBucketEv req (Inr b) \<and>
      reqAllowed simLib b (RGetBucketMetadata ''data'')" by simp
  with run i(2) show ?thesis by blast
qed

text \<open>
  C5. During the whole run of the operator the shared cache stays consistent: every client that was
  built is either cached or has been closed, exactly once, and every cached client was built for its
  key, with the endpoint and region of the key and credentials of its hash.
\<close>

theorem operator_cache:
  assumes "operatorRun E R s"
  shows "\<exists>cache. stCache s = Some cache \<and> cacheOk cache \<and>
    builtIn (stTrace s) = closedIn (stTrace s) + liveClients cache \<and>
    (\<forall>n key c. absCache cache n = Some (key, c) \<longrightarrow> builtFor (stTrace s) key c)"
  using operator_ledger [OF assms] operator_provenance [OF assms]
  by (auto simp: clientLedger_def cacheProvenance_def)

theorem operator_cache_witness:
  "\<exists>t cache. run_state (Reconcile 0 simEnv (Some simResolver) sampleReq) (sampleState laggingWorld) = (Some None, t) \<and>
     stCache t = Some cache \<and> builtIn (stTrace t) = closedIn (stTrace t) + liveClients cache"
proof -
  obtain t where t: "run_state (Reconcile 0 simEnv (Some simResolver) sampleReq) (sampleState laggingWorld) = (Some None, t)"
    using sim_lagging by blast
  have "operatorRun simEnv simResolver (sampleState laggingWorld)"
    unfolding sampleState_def by (rule operatorRun.start)
  from operator_cache [OF operatorRun.bucket [OF this t]] t show ?thesis by blast
qed

end
